(* ===== verification/Prelude.thy ===== *)
theory Prelude
  imports Main "HOL-Library.Word" "HOL-Library.Monad_Syntax"
begin

text \<open>
  Shared vocabulary of the development: the machine types of the C sources, checked
  reads from a block of memory (\<open>None\<close> is an access outside the block), the little
  endian layout of 16 and 32 bit fields, and the lemma collections the component
  theories use.
\<close>

unbundle bit_operations_syntax

type_synonym byte = "8 word"
type_synonym u16 = "16 word"
type_synonym u32 = "32 word"
type_synonym bytes = "byte list"

named_theorems mem_simps "reads from a block of memory"
named_theorems le_simps "little endian encodings"
named_theorems ub_splits "case splits on checked results"

section \<open>Machine integers\<close>

text \<open>A C \<open>int\<close> is a 32 bit two's complement value, kept as an \<open>int\<close> in range;
  \<open>c_int\<close> is the conversion of a wider value to \<open>int\<close>.\<close>

definition c_int :: "int \<Rightarrow> int" where
  "c_int x = signed_take_bit 31 x"

lemma c_int_small: "- (2 ^ 31) \<le> x \<Longrightarrow> x < 2 ^ 31 \<Longrightarrow> c_int x = x"
  unfolding c_int_def by (rule signed_take_bit_int_eq_self) simp_all

lemma c_int_range: "- (2 ^ 31) \<le> c_int x \<and> c_int x < 2 ^ 31"
  using signed_take_bit_int_greater_eq_minus_exp [of 31 x] signed_take_bit_int_less_exp [of 31 x]
  by (simp add: c_int_def)

lemma xor_cancel_left [simp]: "a XOR b = a XOR c \<longleftrightarrow> b = c" for a b c :: "'a::len word"
proof
  assume "a XOR b = a XOR c"
  then have "a XOR (a XOR b) = a XOR (a XOR c)" by simp
  then show "b = c" by (simp only: xor.assoc [symmetric] xor_self_eq xor.left_neutral)
qed simp

lemma xor_cancel_right [simp]: "b XOR a = c XOR a \<longleftrightarrow> b = c" for a b c :: "'a::len word"
  by (simp only: xor.commute [of _ a] xor_cancel_left)

lemma xor_eq_zero [simp]: "a XOR b = 0 \<longleftrightarrow> a = b" for a b :: "'a::len word"
  using xor_cancel_left [of a b a] by (simp only: xor_self_eq eq_commute [of b])

lemma xor_exchange:
  fixes a b c d :: "'a::len word"
  assumes "a XOR b = c XOR d"
  shows "a XOR c = b XOR d"
proof (rule bit_word_eqI)
  fix n
  show "bit (a XOR c) n = bit (b XOR d) n"
    using arg_cong [OF assms, of "\<lambda>w. bit w n"] by (auto simp: bit_xor_iff)
qed

text \<open>A step that gives a pair, taken apart.\<close>

lemma bind_pairE:
  assumes "do { (a, b) \<leftarrow> x; f a b } = Some y"
  obtains a b where "x = Some (a, b)" "f a b = Some y"
  using assms by (cases x) auto

text \<open>Integer division of C truncates towards zero.\<close>

definition c_div :: "int \<Rightarrow> int \<Rightarrow> int" where
  "c_div a b = sgn a * sgn b * (\<bar>a\<bar> div \<bar>b\<bar>)"

definition c_mod :: "int \<Rightarrow> int \<Rightarrow> int" where
  "c_mod a b = a - b * c_div a b"

lemma c_div_nonneg: "0 \<le> a \<Longrightarrow> 0 < b \<Longrightarrow> c_div a b = a div b"
  by (cases "a = 0") (simp_all add: c_div_def)

section \<open>Checked memory\<close>

definition rd8 :: "bytes \<Rightarrow> nat \<Rightarrow> byte option" where
  "rd8 m i = (if i < length m then Some (m ! i) else None)"

definition le16_join :: "byte \<Rightarrow> byte \<Rightarrow> u16" where
  "le16_join lo hi = ucast lo OR push_bit 8 (ucast hi)"

definition le32_join :: "byte \<Rightarrow> byte \<Rightarrow> byte \<Rightarrow> byte \<Rightarrow> u32" where
  "le32_join a b c d =
     ucast a OR push_bit 8 (ucast b) OR push_bit 16 (ucast c) OR push_bit 24 (ucast d)"

definition rd16 :: "bytes \<Rightarrow> nat \<Rightarrow> u16 option" where
  "rd16 m i = do { lo \<leftarrow> rd8 m i; hi \<leftarrow> rd8 m (i + 1); Some (le16_join lo hi) }"

definition rd32 :: "bytes \<Rightarrow> nat \<Rightarrow> u32 option" where
  "rd32 m i = do {
     a \<leftarrow> rd8 m i; b \<leftarrow> rd8 m (i + 1); c \<leftarrow> rd8 m (i + 2); d \<leftarrow> rd8 m (i + 3);
     Some (le32_join a b c d) }"

definition rdn :: "bytes \<Rightarrow> nat \<Rightarrow> nat \<Rightarrow> bytes option" where
  "rdn m i n = (if i + n \<le> length m then Some (take n (drop i m)) else None)"

definition le16 :: "u16 \<Rightarrow> bytes" where
  "le16 w = [ucast w, ucast (drop_bit 8 w)]"

definition le32 :: "u32 \<Rightarrow> bytes" where
  "le32 w = [ucast w, ucast (drop_bit 8 w), ucast (drop_bit 16 w), ucast (drop_bit 24 w)]"

lemma length_le16 [simp]: "length (le16 w) = 2"
  by (simp add: le16_def)

lemma length_le32 [simp]: "length (le32 w) = 4"
  by (simp add: le32_def)

lemma le16_join_split [le_simps]: "le16_join (ucast w) (ucast (drop_bit 8 w)) = w"
  by (rule bit_word_eqI)
     (auto simp: le16_join_def bit_simps less_diff_conv)

lemma le16_join_inj: "le16_join a b = le16_join c d \<longleftrightarrow> a = c \<and> b = d"
proof
  assume eq: "le16_join a b = le16_join c d"
  have "a = c"
  proof (rule bit_word_eqI)
    fix n assume "n < LENGTH(8)"
    then show "bit a n = bit c n"
      using arg_cong [OF eq, of "\<lambda>w. bit w n"] by (simp add: le16_join_def bit_simps)
  qed
  moreover have "b = d"
  proof (rule bit_word_eqI)
    fix n assume "n < LENGTH(8)"
    then show "bit b n = bit d n"
      using arg_cong [OF eq, of "\<lambda>w. bit w (n + 8)"]
      by (auto simp: le16_join_def bit_simps dest: bit_imp_le_length)
  qed
  ultimately show "a = c \<and> b = d" by simp
qed simp

lemma le32_join_split [le_simps]:
  "le32_join (ucast w) (ucast (drop_bit 8 w)) (ucast (drop_bit 16 w)) (ucast (drop_bit 24 w)) = w"
proof (rule bit_word_eqI)
  fix n assume "n < LENGTH(32)"
  then consider "n < 8" | "8 \<le> n" "n < 16" | "16 \<le> n" "n < 24" | "24 \<le> n" "n < 32"
    by fastforce
  then show "bit (le32_join (ucast w) (ucast (drop_bit 8 w)) (ucast (drop_bit 16 w))
      (ucast (drop_bit 24 w))) n = bit w n"
    by cases (auto simp: le32_join_def bit_simps)
qed

lemma rd8_append [mem_simps]: "rd8 (xs @ ys) (length xs + i) = rd8 ys i"
  by (simp add: rd8_def nth_append)

lemma rd8_append1 [mem_simps]: "i < length xs \<Longrightarrow> rd8 (xs @ ys) i = rd8 xs i"
  by (simp add: rd8_def nth_append)

lemma rd8_Cons_0 [mem_simps]: "rd8 (x # xs) 0 = Some x"
  by (simp add: rd8_def)

lemma rd8_Cons_Suc [mem_simps]: "rd8 (x # xs) (Suc i) = rd8 xs i"
  by (simp add: rd8_def)

lemma rd8_Some: "rd8 m i = Some b \<longleftrightarrow> i < length m \<and> m ! i = b"
  by (simp add: rd8_def)

lemma rd8_None: "rd8 m i = None \<longleftrightarrow> length m \<le> i"
  by (simp add: rd8_def not_less)

lemma rd16_append [mem_simps]: "rd16 (xs @ ys) (length xs + i) = rd16 ys i"
  using rd8_append [of xs ys i] rd8_append [of xs ys "i + 1"] by (simp add: rd16_def add.assoc)

lemma rd16_le16 [mem_simps]: "rd16 (le16 w @ ys) 0 = Some w"
  by (simp add: rd16_def le16_def rd8_def le_simps)

lemma rd16_None: "rd16 m i = None \<longleftrightarrow> length m < i + 2"
  by (auto simp: rd16_def rd8_def split: bind_splits)

lemma rd32_append [mem_simps]: "rd32 (xs @ ys) (length xs + i) = rd32 ys i"
  using rd8_append [of xs ys i] rd8_append [of xs ys "i + 1"]
    rd8_append [of xs ys "i + 2"] rd8_append [of xs ys "i + 3"]
  by (simp add: rd32_def add.assoc)

lemma rd32_le32 [mem_simps]: "rd32 (le32 w @ ys) 0 = Some w"
  by (simp add: rd32_def le32_def rd8_def le_simps numeral_2_eq_2 numeral_3_eq_3)

lemma rd32_None: "rd32 m i = None \<longleftrightarrow> length m < i + 4"
  by (auto simp: rd32_def rd8_def split: bind_splits)

lemma rdn_append [mem_simps]: "rdn (xs @ ys) (length xs + i) n = rdn ys i n"
  by (simp add: rdn_def)

lemma rdn_prefix [mem_simps]: "length xs = n \<Longrightarrow> rdn (xs @ ys) 0 n = Some xs"
  by (simp add: rdn_def)

lemma rdn_length: "rdn m i n = Some xs \<Longrightarrow> length xs = n"
  by (auto simp: rdn_def split: if_splits)

lemma unat_byte_lt: "unat (b :: byte) < 256"
  using unsigned_less [of b, where ?'a = nat] by simp

lemma unat_u16_lt: "unat (w :: u16) < 65536"
  using unsigned_less [of w, where ?'a = nat] by simp

section \<open>Lists\<close>

lemma take_append_exact [simp]: "take (length xs) (xs @ ys) = xs"
  by simp

lemma drop_append_exact [simp]: "drop (length xs) (xs @ ys) = ys"
  by simp

lemma take_Suc_snoc: "n < length xs \<Longrightarrow> take (Suc n) xs = take n xs @ [xs ! n]"
  by (rule take_Suc_conv_app_nth)

end
