(* ===== verification/Modbus.thy ===== *)
theory Modbus
  imports Prelude
begin

text \<open>
  \<^verbatim>\<open>ser2mqtt/src/modbus.c\<close>: the CRC-16 of Modbus RTU and the frame check. A buffer with its
  length is a byte list. The lemmas show that one bit step of the CRC is an invertible
  linear map, from which the detection theorems follow.
\<close>

section \<open>Model\<close>

definition MODBUS_READ_COILS :: byte where "MODBUS_READ_COILS = 0x01"
definition MODBUS_READ_DISCRETE :: byte where "MODBUS_READ_DISCRETE = 0x02"
definition MODBUS_READ_HOLDING :: byte where "MODBUS_READ_HOLDING = 0x03"
definition MODBUS_READ_INPUT :: byte where "MODBUS_READ_INPUT = 0x04"
definition MODBUS_WRITE_COIL :: byte where "MODBUS_WRITE_COIL = 0x05"
definition MODBUS_WRITE_REGISTER :: byte where "MODBUS_WRITE_REGISTER = 0x06"
definition MODBUS_WRITE_COILS :: byte where "MODBUS_WRITE_COILS = 0x0F"
definition MODBUS_WRITE_REGISTERS :: byte where "MODBUS_WRITE_REGISTERS = 0x10"

lemmas modbus_codes = MODBUS_READ_COILS_def MODBUS_READ_DISCRETE_def MODBUS_READ_HOLDING_def
  MODBUS_READ_INPUT_def MODBUS_WRITE_COIL_def MODBUS_WRITE_REGISTER_def
  MODBUS_WRITE_COILS_def MODBUS_WRITE_REGISTERS_def

definition crc_bit :: "u16 \<Rightarrow> u16" where
  "crc_bit crc = (if crc AND 0x0001 \<noteq> 0 then drop_bit 1 crc XOR 0xA001 else drop_bit 1 crc)"

primrec crc_bits :: "nat \<Rightarrow> u16 \<Rightarrow> u16" where
  "crc_bits 0 crc = crc"
| "crc_bits (Suc j) crc = crc_bits j (crc_bit crc)"

definition crc_byte :: "u16 \<Rightarrow> byte \<Rightarrow> u16" where
  "crc_byte crc b = crc_bits 8 (crc XOR ucast b)"

definition calculate_crc16 :: "bytes \<Rightarrow> nat \<Rightarrow> u16" where
  "calculate_crc16 data len = foldl crc_byte 0xFFFF (take len data)"

definition function_code_ok :: "byte \<Rightarrow> bool" where
  "function_code_ok c \<longleftrightarrow>
     \<not> (c \<noteq> MODBUS_READ_COILS \<and> c \<noteq> MODBUS_READ_DISCRETE \<and> c \<noteq> MODBUS_READ_HOLDING \<and>
        c \<noteq> MODBUS_READ_INPUT \<and> c \<noteq> MODBUS_WRITE_COIL \<and> c \<noteq> MODBUS_WRITE_REGISTER \<and>
        c \<noteq> MODBUS_WRITE_COILS \<and> c \<noteq> MODBUS_WRITE_REGISTERS)"

definition check_modbus_rtu_format :: "bytes \<Rightarrow> int" where
  "check_modbus_rtu_format data =
     (if length data < 4 then -1
      else if \<not> function_code_ok (data ! 1) then -1
      else let calculated_crc = calculate_crc16 data (length data - 2);
               received_crc = push_bit 8 (ucast (data ! (length data - 1)))
                              OR ucast (data ! (length data - 2))
           in if calculated_crc \<noteq> received_crc then -1 else 0)"

text \<open>The sender's side of the frame format, as a specification: the CRC goes last, low
  byte first.\<close>

definition modbus_frame :: "bytes \<Rightarrow> bytes" where
  "modbus_frame body = body @ le16 (calculate_crc16 body (length body))"

section \<open>One step of the CRC is an invertible linear map\<close>

definition crc_unbit :: "u16 \<Rightarrow> u16" where
  "crc_unbit d = (if bit d 15 then push_bit 1 (d XOR 0xA001) OR 1 else push_bit 1 d)"

primrec crc_unbits :: "nat \<Rightarrow> u16 \<Rightarrow> u16" where
  "crc_unbits 0 d = d"
| "crc_unbits (Suc j) d = crc_unbit (crc_unbits j d)"

lemma and_1_odd: "(c AND 1 \<noteq> 0) = odd (c :: u16)"
  by (simp add: and_one_eq odd_iff_mod_2_eq_one)

lemma bit_push_drop: "n < 16 \<Longrightarrow> bit (push_bit 1 (drop_bit 1 (c :: u16))) n \<longleftrightarrow> 1 \<le> n \<and> bit c n"
  by (auto simp only: bit_push_bit_iff bit_drop_bit_eq comp_def le_add_diff_inverse2
      le_add_diff_inverse possible_bit_word len_num1 len_num0 len_bit0 len_bit1)

lemma push_drop_odd: "odd (c :: u16) \<Longrightarrow> push_bit 1 (drop_bit 1 c) OR 1 = c"
proof (rule bit_word_eqI)
  fix n assume "odd c" "n < LENGTH(16)"
  then show "bit (push_bit 1 (drop_bit 1 c) OR 1) n = bit c n"
    using bit_push_drop [of n c] by (cases n) (auto simp: bit_or_iff bit_0 bit_1_iff even_or_iff)
qed

lemma push_drop_even: "even (c :: u16) \<Longrightarrow> push_bit 1 (drop_bit 1 c) = c"
proof (rule bit_word_eqI)
  fix n assume "even c" "n < LENGTH(16)"
  then show "bit (push_bit 1 (drop_bit 1 c)) n = bit c n"
    using bit_push_drop [of n c] by (cases n) (auto simp: bit_0)
qed

lemma crc_bit_alt: "crc_bit c = (if odd c then drop_bit 1 c XOR 0xA001 else drop_bit 1 c)"
  by (simp add: crc_bit_def and_1_odd)

lemma crc_unbit_crc_bit: "crc_unbit (crc_bit c) = c"
proof (cases "odd c")
  case True
  have "bit (drop_bit 1 c XOR 0xA001) 15"
    using bit_imp_le_length [of c 16] by (auto simp: bit_simps)
  then show ?thesis
    using True by (simp add: crc_unbit_def crc_bit_alt push_drop_odd [simplified] xor.assoc)
next
  case False
  have "\<not> bit (drop_bit 1 c) 15"
    using bit_imp_le_length [of c 16] by (auto simp: bit_simps)
  then show ?thesis
    using False by (simp add: crc_unbit_def crc_bit_alt push_drop_even [simplified])
qed

lemma crc_unbits_crc_bits: "crc_unbits n (crc_bits n c) = c"
  by (induction n arbitrary: c) (simp_all add: crc_unbit_crc_bit)

lemma bit_drop_push: "bit (drop_bit 1 (push_bit 1 (e :: u16))) n \<longleftrightarrow> n < 15 \<and> bit e n"
proof -
  have "bit (drop_bit 1 (push_bit 1 e)) n \<longleftrightarrow> bit (push_bit 1 e) (1 + n)"
    by (simp only: bit_drop_bit_eq comp_def)
  also have "\<dots> \<longleftrightarrow> 1 + n < 16 \<and> bit e n"
    by (auto simp only: bit_push_bit_iff possible_bit_word len_num1 len_num0 len_bit0 len_bit1
        le_add1 diff_add_inverse)
  finally show ?thesis by auto
qed

lemma drop_push_top:
  assumes "\<not> bit (e :: u16) 15"
  shows "drop_bit 1 (push_bit 1 e) = e"
proof (rule bit_word_eqI)
  fix n assume "n < LENGTH(16)"
  then show "bit (drop_bit 1 (push_bit 1 e)) n = bit e n"
    using assms bit_drop_push [of e n] by (cases "n = 15") (auto simp del: drop_bit_push_bit)
qed

lemma crc_bit_crc_unbit: "crc_bit (crc_unbit d) = d"
proof (cases "bit d 15")
  case True
  define e where "e = d XOR 0xA001"
  have "\<not> bit e 15" using True by (simp add: e_def bit_xor_iff)
  then have "drop_bit 1 (push_bit 1 e OR 1) = e"
    using drop_push_top [of e] by (simp only: drop_bit_or) simp
  moreover have "odd (push_bit 1 e OR 1)" by (simp add: even_or_iff)
  ultimately show ?thesis using True
    by (simp only: crc_unbit_def crc_bit_alt e_def [symmetric] if_True)
       (simp add: e_def xor.assoc)
next
  case False
  then show ?thesis using drop_push_top [of d] by (simp add: crc_unbit_def crc_bit_alt)
qed

lemma crc_bits_Suc_right: "crc_bits (Suc n) c = crc_bit (crc_bits n c)"
  by (induction n arbitrary: c) simp_all

lemma crc_bits_crc_unbits: "crc_bits n (crc_unbits n d) = d"
proof (induction n arbitrary: d)
  case 0
  then show ?case by simp
next
  case (Suc n)
  then show ?case by (simp add: crc_bit_crc_unbit)
qed

lemma crc_bits_inj: "crc_bits n c = crc_bits n d \<longleftrightarrow> c = d"
  by (metis crc_unbits_crc_bits)

lemma crc_bit_xor: "crc_bit (x XOR y) = crc_bit x XOR crc_bit y"
proof -
  have "odd (x XOR y) \<longleftrightarrow> odd x \<noteq> odd y"
    by (auto simp: even_xor_iff)
  then show ?thesis
    by (auto simp: crc_bit_alt drop_bit_xor ac_simps)
qed

lemma crc_bits_xor: "crc_bits n (x XOR y) = crc_bits n x XOR crc_bits n y"
  by (induction n arbitrary: x y) (simp_all add: crc_bit_xor)

lemma crc_bits_0 [simp]: "crc_bits n 0 = 0"
  by (induction n) (simp_all add: crc_bit_def)

lemma crc_byte_inj: "crc_byte c b = crc_byte d b \<longleftrightarrow> c = d"
  by (simp add: crc_byte_def crc_bits_inj)

lemma foldl_crc_inj: "foldl crc_byte c bs = foldl crc_byte d bs \<longleftrightarrow> c = d"
  by (induction bs arbitrary: c d) (simp_all add: crc_byte_inj)

lemma ucast_bit_small: "bit (ucast (b :: byte) :: u16) n \<Longrightarrow> n < 8"
  by (auto simp: bit_simps dest: bit_imp_le_length)

lemma crc_unbits_shift:
  "n \<le> 8 \<Longrightarrow> crc_unbits n (ucast (b :: byte)) = push_bit n (ucast b)"
proof (induction n)
  case 0
  then show ?case by simp
next
  case (Suc n)
  then have "\<not> bit (push_bit n (ucast b :: u16)) 15"
    by (auto simp: bit_push_bit_iff dest: ucast_bit_small)
  with Suc show ?case
    by (simp add: crc_unbit_def)
qed

lemma crc_bits_8_low: "crc_bits 8 (ucast (b1 :: byte)) = ucast (b2 :: byte) \<Longrightarrow> b1 = 0 \<and> b2 = 0"
proof -
  assume "crc_bits 8 (ucast b1) = ucast b2"
  then have eq: "ucast b1 = push_bit 8 (ucast b2 :: u16)"
    by (metis crc_unbits_crc_bits crc_unbits_shift order_refl)
  have b1: "\<not> bit b1 n" for n
    using arg_cong [OF eq, of "\<lambda>w. bit w n"] bit_imp_le_length [of b1 n]
    by (auto simp: bit_simps)
  have b2: "\<not> bit b2 n" for n
    using arg_cong [OF eq, of "\<lambda>w. bit w (n + 8)"] bit_imp_le_length [of b2 n] b1
    by (auto simp: bit_simps)
  from b1 b2 show ?thesis by (metis bit_word_eqI bit_0_eq bot_apply bot_bool_def)
qed

lemma crc_byte_xor: "crc_byte c b = crc_bits 8 c XOR crc_bits 8 (ucast b)"
  by (simp add: crc_byte_def crc_bits_xor)

lemma crc_two_bytes:
  assumes "crc_byte (crc_byte c a) b = crc_byte (crc_byte c a') b'"
  shows "a = a' \<and> b = b'"
proof -
  have "crc_byte c a XOR ucast b = crc_byte c a' XOR ucast b'"
    using assms by (simp add: crc_byte_def crc_bits_inj)
  then have "crc_bits 8 (ucast a) XOR ucast b = crc_bits 8 (ucast a') XOR ucast b'"
    by (simp only: crc_byte_xor xor.assoc xor_cancel_left)
  then have "crc_bits 8 (ucast a) XOR crc_bits 8 (ucast a') = ucast b XOR (ucast b' :: u16)"
    by (rule xor_exchange)
  then have "crc_bits 8 (ucast (a XOR a')) = ucast (b XOR b')"
    by (simp only: crc_bits_xor unsigned_xor_eq)
  from crc_bits_8_low [OF this] show ?thesis by simp
qed

lemma calculate_crc16_all: "calculate_crc16 data (length data) = foldl crc_byte 0xFFFF data"
  by (simp add: calculate_crc16_def)

section \<open>Frames\<close>

lemma crc_residue: "foldl crc_byte (crc_byte (crc_byte c (ucast c)) (ucast (drop_bit 8 c))) [] = 0"
proof -
  have "c XOR ucast (ucast c :: byte) = push_bit 8 (drop_bit 8 c)"
    by (rule bit_word_eqI) (auto simp: bit_simps)
  also have "\<dots> = crc_unbits 8 (ucast (ucast (drop_bit 8 c) :: byte))"
    by (subst crc_unbits_shift) (simp, rule bit_word_eqI, auto simp: bit_simps)
  finally have "crc_byte c (ucast c) = ucast (ucast (drop_bit 8 c) :: byte)"
    unfolding crc_byte_def
    by (metis crc_unbits_crc_bits crc_bits_inj crc_bits_crc_unbits)
  then show ?thesis by (simp add: crc_byte_def)
qed

lemma crc_frame_zero: "foldl crc_byte 0xFFFF (modbus_frame body) = 0"
proof -
  define c where "c = foldl crc_byte 0xFFFF body"
  have "foldl crc_byte 0xFFFF (modbus_frame body)
      = crc_byte (crc_byte c (ucast c)) (ucast (drop_bit 8 c))"
    by (simp add: modbus_frame_def calculate_crc16_all c_def le16_def)
  then show ?thesis using crc_residue [of c] by simp
qed

lemma received_crc_join:
  "push_bit 8 (ucast hi) OR ucast lo = le16_join lo hi" for hi lo :: byte
  by (simp add: le16_join_def or.commute)

lemma split_last_two:
  assumes "2 \<le> length d"
  obtains body lo hi where "d = body @ [lo, hi]"
proof (cases d rule: rev_cases)
  case Nil
  with assms show thesis by simp
next
  case (snoc xs hi)
  with assms show thesis
    by (cases xs rule: rev_cases) (auto intro: that)
qed

lemma le16_eq_iff: "[lo, hi] = le16 w \<longleftrightarrow> le16_join lo hi = w"
  by (metis le16_def le16_join_inj le16_join_split list.inject)

lemma check_snoc:
  assumes "2 \<le> length body"
  shows "check_modbus_rtu_format (body @ [lo, hi]) =
    (if function_code_ok (body ! 1) \<and> body @ [lo, hi] = modbus_frame body then 0 else -1)"
proof -
  have "(body @ [lo, hi]) ! 1 = body ! 1"
    using assms by (simp add: nth_append)
  moreover have "calculate_crc16 (body @ [lo, hi]) (length body) = calculate_crc16 body (length body)"
    by (simp add: calculate_crc16_def)
  ultimately show ?thesis using assms
    by (auto simp: check_modbus_rtu_format_def Let_def nth_append received_crc_join
        modbus_frame_def le16_eq_iff)
qed

lemma check_frame:
  assumes "check_modbus_rtu_format d = 0"
  obtains body where "2 \<le> length body" "function_code_ok (body ! 1)" "d = modbus_frame body"
proof -
  from assms have "4 \<le> length d"
    by (auto simp: check_modbus_rtu_format_def split: if_splits)
  moreover from this obtain body lo hi where d: "d = body @ [lo, hi]"
    using split_last_two [of d] by auto
  ultimately have "2 \<le> length body" by simp
  with assms check_snoc [of body lo hi]
  have "function_code_ok (body ! 1)" "d = modbus_frame body"
    by (auto simp: d split: if_splits)
  with \<open>2 \<le> length body\<close> show thesis by (rule that)
qed

lemma check_crc_zero: "check_modbus_rtu_format d = 0 \<Longrightarrow> foldl crc_byte 0xFFFF d = 0"
  by (metis check_frame crc_frame_zero)

lemma check_range: "check_modbus_rtu_format d = 0 \<or> check_modbus_rtu_format d = -1"
  by (simp add: check_modbus_rtu_format_def Let_def)

lemma check_modbus_frame:
  assumes "2 \<le> length body" "function_code_ok (body ! 1)"
  shows "check_modbus_rtu_format (modbus_frame body) = 0"
proof -
  obtain lo hi where "modbus_frame body = body @ [lo, hi]"
    by (simp add: modbus_frame_def le16_def)
  with assms check_snoc [of body lo hi] show ?thesis by simp
qed

text \<open>Two valid frames run together are never a valid frame.\<close>

lemma check_merged:
  assumes "check_modbus_rtu_format f1 = 0" and "check_modbus_rtu_format f2 = 0"
  shows "check_modbus_rtu_format (f1 @ f2) = -1"
proof -
  have "foldl crc_byte 0xFFFF (f1 @ f2) = foldl crc_byte 0 f2"
    using check_crc_zero [OF assms(1)] by simp
  also have "\<dots> \<noteq> foldl crc_byte 0xFFFF f2"
    by (simp add: foldl_crc_inj)
  also have "foldl crc_byte 0xFFFF f2 = 0"
    by (rule check_crc_zero [OF assms(2)])
  finally show ?thesis
    using check_crc_zero [of "f1 @ f2"] check_range [of "f1 @ f2"] by auto
qed

section \<open>Properties\<close>

text \<open>Property C2: the check accepts exactly the frames the Modbus RTU format describes: a body of
  at least two bytes whose function code is one of the eight supported ones, followed by
  the CRC of the body, low byte first.\<close>

theorem check_accepts_exactly_frames:
  "check_modbus_rtu_format d = 0 \<longleftrightarrow>
     (\<exists>body. 2 \<le> length body \<and> function_code_ok (body ! 1) \<and> d = modbus_frame body)"
  by (metis check_frame check_modbus_frame)

text \<open>Property C35: a valid frame in which one or two adjacent bytes are altered, wherever they
  are (address, function code, data or the CRC itself), is rejected: every error burst
  that stays within two bytes is detected.\<close>

theorem burst_error_rejected:
  assumes "check_modbus_rtu_format (p @ [a, b] @ s) = 0"
    and "(a, b) \<noteq> (a', b')"
  shows "check_modbus_rtu_format (p @ [a', b'] @ s) = -1"
proof -
  have "foldl crc_byte 0xFFFF (p @ [a', b'] @ s) \<noteq> foldl crc_byte 0xFFFF (p @ [a, b] @ s)"
    using assms(2) by (auto simp: foldl_crc_inj dest: crc_two_bytes)
  with check_crc_zero [OF assms(1)] check_crc_zero [of "p @ [a', b'] @ s"] check_range
  show ?thesis by metis
qed

theorem burst_error_rejected_witness:
  "check_modbus_rtu_format ([0x01, 0x03] @ [0x00, 0x00] @ [0x00, 0x0A, 0xC5, 0xCD]) = 0 \<and>
   check_modbus_rtu_format ([0x01, 0x03] @ [0x00, 0x80] @ [0x00, 0x0A, 0xC5, 0xCD]) = -1"
proof -
  have h: "check_modbus_rtu_format ([0x01, 0x03] @ [0x00, 0x00] @ [0x00, 0x0A, 0xC5, 0xCD]) = 0"
    by code_simp
  show ?thesis using h burst_error_rejected [OF h, where a' = "0x00" and b' = "0x80"] by simp
qed

end
