(* ===== verification/C_Lib.thy ===== *)
theory C_Lib
  imports Prelude "HOL-Library.Char_ord"
begin

text \<open>
  The C library functions the sources call, on C strings as \<open>char list\<close> values without
  the terminating NUL. A pointer into a string is the suffix it points to, and a null
  pointer is \<open>None\<close>. \<open>long\<close> is 64 bits wide (LP64) and the locale is "C".
\<close>

section \<open>Characters\<close>

definition ord_of :: "char \<Rightarrow> nat" where
  "ord_of c = of_char c"

definition c_isspace :: "char \<Rightarrow> bool" where
  "c_isspace c \<longleftrightarrow> ord_of c = 32 \<or> (9 \<le> ord_of c \<and> ord_of c \<le> 13)"

definition c_isdigit :: "char \<Rightarrow> bool" where
  "c_isdigit c \<longleftrightarrow> 48 \<le> ord_of c \<and> ord_of c \<le> 57"

definition c_tolower :: "char \<Rightarrow> char" where
  "c_tolower c = (if 65 \<le> ord_of c \<and> ord_of c \<le> 90 then char_of (ord_of c + 32) else c)"

definition digit_val :: "char \<Rightarrow> nat option" where
  "digit_val c =
     (if 48 \<le> ord_of c \<and> ord_of c \<le> 57 then Some (ord_of c - 48)
      else if 97 \<le> ord_of c \<and> ord_of c \<le> 122 then Some (ord_of c - 87)
      else if 65 \<le> ord_of c \<and> ord_of c \<le> 90 then Some (ord_of c - 55)
      else None)"

definition is_digit_of :: "nat \<Rightarrow> char \<Rightarrow> bool" where
  "is_digit_of base c = (case digit_val c of None \<Rightarrow> False | Some d \<Rightarrow> d < base)"

definition hex_digit :: "nat \<Rightarrow> char" where
  "hex_digit d = char_of (if d < 10 then 48 + d else 87 + d)"

section \<open>Strings\<close>

fun starts_with :: "string \<Rightarrow> string \<Rightarrow> bool" where
  "starts_with s [] = True"
| "starts_with [] (p # ps) = False"
| "starts_with (c # s) (p # ps) = (c = p \<and> starts_with s ps)"

fun c_strstr :: "string \<Rightarrow> string \<Rightarrow> string option" where
  "c_strstr [] p = (if p = [] then Some [] else None)"
| "c_strstr (c # s) p = (if starts_with (c # s) p then Some (c # s) else c_strstr s p)"

definition c_strchr :: "string \<Rightarrow> char \<Rightarrow> string option" where
  "c_strchr s c = (case dropWhile (\<lambda>x. x \<noteq> c) s of [] \<Rightarrow> None | r \<Rightarrow> Some r)"

definition c_strsep :: "char \<Rightarrow> string option \<Rightarrow> string option \<times> string option" where
  "c_strsep d cur = (case cur of None \<Rightarrow> (None, None)
     | Some s \<Rightarrow> (Some (takeWhile (\<lambda>c. c \<noteq> d) s),
         (case dropWhile (\<lambda>c. c \<noteq> d) s of [] \<Rightarrow> None | _ # r \<Rightarrow> Some r)))"

definition c_strcasecmp_eq :: "string \<Rightarrow> string \<Rightarrow> bool" where
  "c_strcasecmp_eq a b \<longleftrightarrow> map c_tolower a = map c_tolower b"

definition c_snprintf :: "nat \<Rightarrow> string \<Rightarrow> string" where
  "c_snprintf n s = take (n - 1) s"

section \<open>Numbers\<close>

definition digits_value :: "nat \<Rightarrow> string \<Rightarrow> nat" where
  "digits_value base ds = foldl (\<lambda>a c. a * base + the (digit_val c)) 0 ds"

definition split_sign :: "string \<Rightarrow> bool \<times> string" where
  "split_sign s = (case s of [] \<Rightarrow> (False, [])
     | c # r \<Rightarrow> if c = CHR ''-'' then (True, r) else if c = CHR ''+'' then (False, r) else (False, s))"

definition skip_0x :: "string \<Rightarrow> string" where
  "skip_0x s = (case s of a # b # c # r \<Rightarrow>
       if a = CHR ''0'' \<and> (b = CHR ''x'' \<or> b = CHR ''X'') \<and> is_digit_of 16 c then c # r else s
     | _ \<Rightarrow> s)"

text \<open>Sign and magnitude of the number a \<open>strto*\<close> call converts; \<open>None\<close> is "no
  conversion": the value is 0 and the end pointer is the start.\<close>

definition strto_scan :: "nat \<Rightarrow> string \<Rightarrow> (bool \<times> nat) option" where
  "strto_scan base s =
     (let (neg, r) = split_sign (dropWhile c_isspace s);
          ds = takeWhile (is_digit_of base) (if base = 16 then skip_0x r else r)
      in if ds = [] then None else Some (neg, digits_value base ds))"

definition LONG_MAX :: int where "LONG_MAX = 2 ^ 63 - 1"
definition LONG_MIN :: int where "LONG_MIN = - (2 ^ 63)"

definition c_strtol :: "nat \<Rightarrow> string \<Rightarrow> int option" where
  "c_strtol base s = map_option (\<lambda>(neg, v).
     max LONG_MIN (min LONG_MAX (if neg then - int v else int v))) (strto_scan base s)"

text \<open>\<open>strtoul\<close> saturates at \<open>ULONG_MAX\<close> and negates modulo \<open>2 ^ 64\<close>; the result is
  the \<open>long\<close> its callers assign it to.\<close>

definition c_strtoul_as_long :: "nat \<Rightarrow> string \<Rightarrow> int option" where
  "c_strtoul_as_long base s = map_option (\<lambda>(neg, v).
     signed_take_bit 63 (if 2 ^ 64 \<le> int v then 2 ^ 64 - 1 else if neg then - int v else int v))
       (strto_scan base s)"

definition c_atoi :: "string \<Rightarrow> int" where
  "c_atoi s = (case c_strtol 10 s of None \<Rightarrow> 0 | Some v \<Rightarrow> c_int v)"

fun show_nat :: "nat \<Rightarrow> string" where
  "show_nat n = (if n < 10 then [char_of (48 + n)] else show_nat (n div 10) @ [char_of (48 + n mod 10)])"

declare show_nat.simps [simp del]

definition show_int :: "int \<Rightarrow> string" where
  "show_int i = (if i < 0 then CHR ''-'' # show_nat (nat (- i)) else show_nat (nat i))"

text \<open>\<open>%02x\<close> of a byte.\<close>

definition hex2 :: "byte \<Rightarrow> string" where
  "hex2 b = [hex_digit (unat b div 16), hex_digit (unat b mod 16)]"

section \<open>Lemmas\<close>

lemma ord_char_of: "n < 256 \<Longrightarrow> ord_of (char_of n) = n"
  by (simp add: ord_of_def)

lemma digit_val_hex_digit: "d < 16 \<Longrightarrow> digit_val (hex_digit d) = Some d"
  by (simp add: digit_val_def hex_digit_def ord_char_of)

lemma is_digit_hex_digit: "d < 16 \<Longrightarrow> is_digit_of 16 (hex_digit d)"
  by (simp add: is_digit_of_def digit_val_hex_digit)

lemma hex_digit_not_special:
  assumes "d < 16"
  shows "\<not> c_isspace (hex_digit d)" "hex_digit d \<noteq> CHR ''-''" "hex_digit d \<noteq> CHR ''+''"
proof -
  have c: "ord_of (hex_digit d) = (if d < 10 then 48 + d else 87 + d)"
    using assms by (simp add: hex_digit_def ord_char_of)
  show "\<not> c_isspace (hex_digit d)" using c assms by (simp add: c_isspace_def)
  show "hex_digit d \<noteq> CHR ''-''"
  proof
    assume "hex_digit d = CHR ''-''"
    then show False using c by (simp add: ord_of_def split: if_splits)
  qed
  show "hex_digit d \<noteq> CHR ''+''"
  proof
    assume "hex_digit d = CHR ''+''"
    then show False using c by (simp add: ord_of_def split: if_splits)
  qed
qed

lemma long_clamp: "LONG_MIN \<le> x \<Longrightarrow> x \<le> LONG_MAX \<Longrightarrow> max LONG_MIN (min LONG_MAX x) = x"
  by simp

lemma long_clamp_small: "- (2 ^ 31) \<le> x \<Longrightarrow> x < 2 ^ 31 \<Longrightarrow> max LONG_MIN (min LONG_MAX x) = x"
  by (rule long_clamp) (simp_all add: LONG_MIN_def LONG_MAX_def)

lemma long_clamp_nat: "n < 2 ^ 31 \<Longrightarrow> max LONG_MIN (min LONG_MAX (int n)) = int n"
  by (rule long_clamp_small) simp_all

lemma strto_scan_hex2:
  assumes "a < 16" "b < 16"
  shows "strto_scan 16 [hex_digit a, hex_digit b] = Some (False, a * 16 + b)"
  using assms
  by (simp add: strto_scan_def hex_digit_not_special split_sign_def skip_0x_def is_digit_hex_digit
      digits_value_def digit_val_hex_digit)

lemma starts_with_iff: "starts_with s p \<longleftrightarrow> (\<exists>r. s = p @ r)"
  by (induction s p rule: starts_with.induct) auto

lemma starts_with_append [simp]: "starts_with (p @ s) p"
  by (simp add: starts_with_iff)

lemma c_strstr_Some_iff: "(\<exists>r. c_strstr s p = Some r) \<longleftrightarrow> (\<exists>u v. s = u @ p @ v)"
proof (induction s)
  case Nil
  then show ?case by simp
next
  case (Cons c s)
  show ?case
  proof (cases "starts_with (c # s) p")
    case True
    then show ?thesis by (auto simp: starts_with_iff intro: exI [of _ "[]"])
  next
    case False
    have "(\<exists>u v. c # s = u @ p @ v) \<longleftrightarrow> (\<exists>u v. s = u @ p @ v)"
    proof
      assume "\<exists>u v. c # s = u @ p @ v"
      then obtain u v where uv: "c # s = u @ p @ v" by blast
      with False have "u \<noteq> []" by (auto simp: starts_with_iff)
      with uv show "\<exists>u v. s = u @ p @ v" by (cases u) auto
    next
      assume "\<exists>u v. s = u @ p @ v"
      then obtain u v where "s = u @ p @ v" by blast
      then have "c # s = (c # u) @ p @ v" by simp
      then show "\<exists>u v. c # s = u @ p @ v" by blast
    qed
    with False Cons.IH show ?thesis by simp
  qed
qed

lemma takeWhile_hit: "d \<notin> set xs \<Longrightarrow> takeWhile (\<lambda>c. c \<noteq> d) (xs @ d # ys) = xs"
  by (induction xs) auto

lemma dropWhile_hit: "d \<notin> set xs \<Longrightarrow> dropWhile (\<lambda>c. c \<noteq> d) (xs @ d # ys) = d # ys"
  by (induction xs) auto

lemma takeWhile_miss: "d \<notin> set xs \<Longrightarrow> takeWhile (\<lambda>c. c \<noteq> d) xs = xs"
  by (induction xs) auto

lemma dropWhile_miss: "d \<notin> set xs \<Longrightarrow> dropWhile (\<lambda>c. c \<noteq> d) xs = []"
  by (induction xs) auto

lemma c_strsep_hit:
  "d \<notin> set xs \<Longrightarrow> c_strsep d (Some (xs @ d # ys)) = (Some xs, Some ys)"
  by (simp add: c_strsep_def takeWhile_hit dropWhile_hit)

lemma c_strsep_miss:
  "d \<notin> set xs \<Longrightarrow> c_strsep d (Some xs) = (Some xs, None)"
  by (simp add: c_strsep_def takeWhile_miss dropWhile_miss)

lemma c_strchr_hit: "d \<notin> set xs \<Longrightarrow> c_strchr (xs @ d # ys) d = Some (d # ys)"
  by (induction xs) (auto simp: c_strchr_def)

lemma c_strchr_miss: "d \<notin> set xs \<Longrightarrow> c_strchr xs d = None"
  by (induction xs) (auto simp: c_strchr_def)

lemma length_hex2 [simp]: "length (hex2 b) = 2"
  by (simp add: hex2_def)

section \<open>Decimal numbers\<close>

lemma digit_char:
  assumes "d < 10"
  shows "digit_val (char_of (48 + d)) = Some d" and "is_digit_of 10 (char_of (48 + d))"
    and "c_isdigit (char_of (48 + d))"
  using assms by (simp_all add: digit_val_def is_digit_of_def c_isdigit_def ord_char_of)

lemma digits_value_snoc: "digits_value base (ds @ [c]) = digits_value base ds * base + the (digit_val c)"
  by (simp add: digits_value_def)

lemma show_nat_digits: "set (show_nat n) \<subseteq> {char_of (48 + d) | d :: nat. d < 10}"
proof (induction n rule: show_nat.induct)
  case (1 n)
  have "n mod 10 < 10" by simp
  then have "char_of (48 + n mod 10) \<in> {char_of (48 + d) | d :: nat. d < 10}"
    "n < 10 \<longrightarrow> char_of (48 + n) \<in> {char_of (48 + d) | d :: nat. d < 10}" by blast+
  with 1 show ?case by (subst show_nat.simps) (simp del: mem_Collect_eq)
qed

lemma show_nat_ne: "show_nat n \<noteq> []"
  by (subst show_nat.simps) simp

lemma show_nat_all_digits: "c \<in> set (show_nat n) \<Longrightarrow> is_digit_of 10 c \<and> c_isdigit c"
  using show_nat_digits [of n] by (force intro: digit_char)

lemma digits_value_show_nat: "digits_value 10 (show_nat n) = n"
proof (induction n rule: show_nat.induct)
  case (1 n)
  show ?case
  proof (cases "n < 10")
    case True
    then show ?thesis
      using digit_char(1) [OF True] by (subst show_nat.simps) (simp add: digits_value_def)
  next
    case False
    have m: "n mod 10 < 10" by simp
    from False 1 digit_char(1) [OF m] show ?thesis
      by (subst show_nat.simps) (simp add: digits_value_snoc)
  qed
qed

lemma c_isdigit_facts:
  assumes "c_isdigit c"
  shows "\<not> c_isspace c" "c \<noteq> CHR ''-''" "c \<noteq> CHR ''+''" "c \<noteq> CHR '',''" "c \<noteq> CHR 0x22" "c \<noteq> CHR '':''"
  using assms by (auto simp: c_isdigit_def c_isspace_def ord_of_def)

lemma strto_scan_digits:
  assumes "\<forall>c \<in> set ds. is_digit_of 10 c \<and> c_isdigit c" "ds \<noteq> []"
  shows "strto_scan 10 ds = Some (False, digits_value 10 ds)"
    and "strto_scan 10 (CHR ''-'' # ds) = Some (True, digits_value 10 ds)"
proof -
  obtain c r where ds: "ds = c # r" using assms(2) by (auto simp: neq_Nil_conv)
  then have c: "c_isdigit c" using assms(1) by simp
  have tw: "takeWhile (is_digit_of 10) ds = ds" using assms(1) by simp
  show "strto_scan 10 ds = Some (False, digits_value 10 ds)"
    using c_isdigit_facts [OF c] tw by (simp add: strto_scan_def split_sign_def ds)
  show "strto_scan 10 (CHR ''-'' # ds) = Some (True, digits_value 10 ds)"
    using assms(2) by (simp add: strto_scan_def split_sign_def c_isspace_def ord_of_def tw)
qed

lemma strtol_show_int:
  assumes "- (2 ^ 31) \<le> i" "i < 2 ^ 31"
  shows "c_strtol 10 (show_int i) = Some i"
proof -
  note d = strto_scan_digits [of "show_nat n" for n, unfolded digits_value_show_nat]
  have "strto_scan 10 (show_int i) = Some (i < 0, nat \<bar>i\<bar>)"
    using d [of "nat i"] d [of "nat (- i)"] show_nat_all_digits show_nat_ne
    by (auto simp: show_int_def)
  then show ?thesis
    using long_clamp_small [OF assms] by (simp add: c_strtol_def abs_if)
qed

lemma show_int_chars: "c \<in> set (show_int i) \<Longrightarrow> c = CHR ''-'' \<or> c_isdigit c"
  using show_nat_all_digits by (auto simp: show_int_def split: if_splits)

lemma show_int_Cons:
  obtains c r where "show_int i = c # r" "\<not> c_isspace c" "c \<noteq> CHR 0x22"
    "c = CHR ''-'' \<longrightarrow> (\<exists>d r'. r = d # r' \<and> c_isdigit d)"
proof (cases "i < 0")
  case True
  obtain d r' where n: "show_nat (nat (- i)) = d # r'"
    using show_nat_ne by (cases "show_nat (nat (- i))") auto
  then have "c_isdigit d" using show_nat_all_digits [of d "nat (- i)"] by simp
  with n True show ?thesis
    by (intro that [of "CHR ''-''" "d # r'"]) (simp_all add: show_int_def c_isspace_def ord_of_def)
next
  case False
  obtain d r' where n: "show_nat (nat i) = d # r'"
    using show_nat_ne by (cases "show_nat (nat i)") auto
  then have "c_isdigit d" using show_nat_all_digits [of d "nat i"] by simp
  with n False c_isdigit_facts [of d] show ?thesis
    by (intro that [of d r']) (simp_all add: show_int_def)
qed

section \<open>Hexadecimal numbers\<close>

fun show_hex :: "nat \<Rightarrow> string" where
  "show_hex n = (if n < 16 then [hex_digit n] else show_hex (n div 16) @ [hex_digit (n mod 16)])"

declare show_hex.simps [simp del]

lemma digits_value_show_hex: "digits_value 16 (show_hex n) = n"
proof (induction n rule: show_hex.induct)
  case (1 n)
  show ?case
  proof (cases "n < 16")
    case True
    then show ?thesis
      using digit_val_hex_digit [OF True] by (subst show_hex.simps) (simp add: digits_value_def)
  next
    case False
    have m: "n mod 16 < 16" by simp
    from False 1 digit_val_hex_digit [OF m] show ?thesis
      by (subst show_hex.simps) (simp add: digits_value_snoc)
  qed
qed

lemma hex_digit_cases: "d < 16 \<Longrightarrow> hex_digit d \<in> set ''0123456789abcdef''"
proof -
  have "\<forall>d \<in> set [0..<16]. hex_digit d \<in> set ''0123456789abcdef''" by code_simp
  then show "d < 16 \<Longrightarrow> hex_digit d \<in> set ''0123456789abcdef''" by simp
qed

lemma show_hex_digits: "c \<in> set (show_hex n) \<Longrightarrow> \<exists>d < 16. c = hex_digit d"
proof (induction n rule: show_hex.induct)
  case (1 n)
  show ?case
  proof (cases "n < 16")
    case True
    with "1.prems" show ?thesis by (subst (asm) show_hex.simps) auto
  next
    case False
    then have "c \<in> set (show_hex (n div 16)) \<or> c = hex_digit (n mod 16)"
      using "1.prems" by (subst (asm) show_hex.simps) auto
    moreover have "n mod 16 < 16" by simp
    ultimately show ?thesis using "1.IH" [OF False] by blast
  qed
qed

lemma show_hex_char:
  assumes "c \<in> set (show_hex n)"
  shows "c \<in> set ''0123456789abcdef''" and "is_digit_of 16 c"
  using show_hex_digits [OF assms] hex_digit_cases is_digit_hex_digit by blast+

lemma show_hex_ne: "show_hex n \<noteq> []"
  by (subst show_hex.simps) simp

lemma strto_scan_show_hex: "strto_scan 16 (show_hex n) = Some (False, n)"
proof -
  obtain c r where s: "show_hex n = c # r" using show_hex_ne by (meson list.exhaust)
  then have c: "c \<in> set ''0123456789abcdef''" using show_hex_char(1) [of c n] by simp
  have "\<not> c_isspace c" "c \<noteq> CHR ''-''" "c \<noteq> CHR ''+''"
    using c by (auto simp: c_isspace_def ord_of_def)
  moreover have "skip_0x (show_hex n) = show_hex n"
  proof -
    have "b \<noteq> CHR ''x'' \<and> b \<noteq> CHR ''X''" if "b \<in> set (show_hex n)" for b
      using show_hex_char(1) [OF that] by auto
    then show ?thesis by (auto simp: skip_0x_def split: list.split)
  qed
  moreover have "takeWhile (is_digit_of 16) (show_hex n) = show_hex n"
    using show_hex_char(2) by simp
  ultimately show ?thesis
    using show_hex_ne [of n] by (simp add: strto_scan_def split_sign_def s digits_value_show_hex [of n, unfolded s])
qed

end
