(* ===== verification/Serial.thy ===== *)
theory Serial
  imports C_Lib
begin

text \<open>
  \<^verbatim>\<open>ser2mqtt/src/serial.c\<close>: the serial port of the gateway. The global descriptor is an
  argument and a result; what the operating system does is an argument: the descriptor
  \<open>open\<close> returns, the settings \<open>tcgetattr\<close> reads, the value of \<open>write\<close>, and for
  reception the list of outcomes of \<open>select\<close>/\<open>read\<close>, one per call. When that list is
  used up, \<open>select\<close> times out.
\<close>

section \<open>Opening the port\<close>

record termios =
  c_iflag :: u32
  c_oflag :: u32
  c_cflag :: u32
  c_lflag :: u32
  c_ispeed :: u32
  c_ospeed :: u32

definition B9600 :: u32 where "B9600 = 0x0000D"
definition B19200 :: u32 where "B19200 = 0x0000E"
definition B38400 :: u32 where "B38400 = 0x0000F"
definition B57600 :: u32 where "B57600 = 0x01001"
definition B115200 :: u32 where "B115200 = 0x01002"
definition CSIZE :: u32 where "CSIZE = 0x30"
definition CS8 :: u32 where "CS8 = 0x30"
definition CSTOPB :: u32 where "CSTOPB = 0x40"
definition CREAD :: u32 where "CREAD = 0x80"
definition PARENB :: u32 where "PARENB = 0x100"
definition CLOCAL :: u32 where "CLOCAL = 0x800"
definition ISIG :: u32 where "ISIG = 0x01"
definition ICANON :: u32 where "ICANON = 0x02"
definition ECHO :: u32 where "ECHO = 0x08"
definition ECHOE :: u32 where "ECHOE = 0x10"
definition INPCK :: u32 where "INPCK = 0x10"
definition IGNCR :: u32 where "IGNCR = 0x80"
definition ICRNL :: u32 where "ICRNL = 0x100"
definition OPOST :: u32 where "OPOST = 0x01"

lemmas termios_bits = CSIZE_def CS8_def CSTOPB_def CREAD_def PARENB_def CLOCAL_def ISIG_def
  ICANON_def ECHO_def ECHOE_def INPCK_def IGNCR_def ICRNL_def OPOST_def

definition baud_const :: "int \<Rightarrow> u32" where
  "baud_const baud_rate =
     (if baud_rate = 9600 then B9600 else if baud_rate = 19200 then B19200
      else if baud_rate = 38400 then B38400 else if baud_rate = 57600 then B57600
      else if baud_rate = 115200 then B115200 else B115200)"

definition serial_options :: "int \<Rightarrow> termios \<Rightarrow> termios" where
  "serial_options baud_rate options =
     (let baud = baud_const baud_rate;
          o1 = options\<lparr>c_ispeed := baud, c_ospeed := baud\<rparr>;
          c1 = c_cflag o1 OR (CLOCAL OR CREAD);
          c2 = c1 AND NOT PARENB;
          c3 = c2 AND NOT CSTOPB;
          c4 = c3 AND NOT CSIZE;
          c5 = c4 OR CS8
      in o1\<lparr>c_cflag := c5,
            c_lflag := c_lflag o1 AND NOT (ICANON OR ECHO OR ECHOE OR ISIG),
            c_iflag := c_iflag o1 AND NOT (INPCK OR ICRNL OR IGNCR),
            c_oflag := c_oflag o1 AND NOT OPOST\<rparr>)"

text \<open>Result, new descriptor, and the settings passed to \<open>tcsetattr\<close>.\<close>

definition serial_init :: "int \<Rightarrow> termios \<Rightarrow> int \<Rightarrow> int \<times> int \<times> termios option" where
  "serial_init opened current baud_rate =
     (let serial_fd = opened in
      if serial_fd = -1 then (-1, serial_fd, None)
      else (0, serial_fd, Some (serial_options baud_rate current)))"

definition serial_close :: "int \<Rightarrow> int" where
  "serial_close serial_fd = (if serial_fd \<noteq> -1 then -1 else serial_fd)"

section \<open>Sending\<close>

definition strtol16_byte :: "string \<Rightarrow> byte" where
  "strtol16_byte s = (case c_strtol 16 s of None \<Rightarrow> 0 | Some v \<Rightarrow> word_of_int v)"

text \<open>The loop advances by two characters; a last single character is skipped, and the loop
  stops when \<open>max_bytes\<close> bytes are there.\<close>

fun hex_to_bytes :: "string \<Rightarrow> nat \<Rightarrow> bytes" where
  "hex_to_bytes (a # b # rest) max_bytes =
     (if max_bytes = 0 then []
      else strtol16_byte [a, b] # hex_to_bytes rest (max_bytes - 1))"
| "hex_to_bytes [a] max_bytes = []"
| "hex_to_bytes [] max_bytes = []"

text \<open>Result, and the bytes handed to \<open>write\<close>, which returns \<open>written\<close>.\<close>

definition serial_send_hex :: "int \<Rightarrow> int \<Rightarrow> string \<Rightarrow> int \<times> bytes option" where
  "serial_send_hex serial_fd written hex_string =
     (if serial_fd = -1 then (-1, None)
      else let bytes = hex_to_bytes hex_string 256 in
        if 0 < length bytes
        then if written < 0 then (-1, Some bytes) else (written, Some bytes)
        else (-1, None))"

section \<open>Receiving\<close>

type_synonym timeval = "int \<times> int"

text \<open>One call of \<open>select\<close>, and of \<open>read\<close> where the descriptor is ready. A byte comes with
  the two clock readings taken after it: \<open>last_byte_time\<close> and \<open>current_time\<close>.\<close>

datatype rx_event = Rx_Error | Rx_Timeout | Rx_Nothing | Rx_Byte byte timeval timeval

definition serial_receive_byte :: "int \<Rightarrow> rx_event \<Rightarrow> int \<times> byte option" where
  "serial_receive_byte serial_fd e =
     (if serial_fd = -1 then (-1, None)
      else case e of Rx_Error \<Rightarrow> (-1, None) | Rx_Timeout \<Rightarrow> (0, None)
        | Rx_Nothing \<Rightarrow> (0, None) | Rx_Byte b _ _ \<Rightarrow> (1, Some b))"

definition time_diff :: "rx_event \<Rightarrow> int" where
  "time_diff e = (case e of Rx_Byte _ (s0, us0) (s1, us1) \<Rightarrow>
       (s1 - s0) * 1000 + c_div (us1 - us0) 1000
     | _ \<Rightarrow> 0)"

text \<open>The receive loop with \<open>buffer\<close> filled so far; the result is the return value, the
  buffer and the outcomes not used.\<close>

fun rx_loop :: "int \<Rightarrow> int \<Rightarrow> bytes \<Rightarrow> rx_event list \<Rightarrow> int \<times> bytes \<times> rx_event list" where
  "rx_loop fd buffer_size buffer [] =
     (if int (length buffer) < buffer_size
      then (if 0 < length buffer then int (length buffer) else 0, buffer, [])
      else (int (length buffer), buffer, []))"
| "rx_loop fd buffer_size buffer (e # es) =
     (if int (length buffer) < buffer_size
      then case serial_receive_byte fd e of
          (r, Some b) \<Rightarrow>
            (let buffer' = buffer @ [b] in
             if 4 \<le> length buffer' \<and> 1 < time_diff e then (int (length buffer'), buffer', es)
             else rx_loop fd buffer_size buffer' es)
        | (r, None) \<Rightarrow>
            if r = 0 then (if 0 < length buffer then int (length buffer) else 0, buffer, es)
            else (-1, buffer, es)
      else (int (length buffer), buffer, e # es))"

definition serial_receive_modbus ::
    "int \<Rightarrow> int \<Rightarrow> rx_event list \<Rightarrow> int \<times> bytes \<times> rx_event list" where
  "serial_receive_modbus serial_fd buffer_size es =
     (if serial_fd = -1 then (-1, [], es) else rx_loop serial_fd buffer_size [] es)"

section \<open>Lemmas\<close>

text \<open>Bytes whose two clock readings are at most a millisecond apart.\<close>

definition prompt_byte :: "rx_event \<Rightarrow> bool" where
  "prompt_byte e \<longleftrightarrow> (\<exists>b t0 t1. e = Rx_Byte b t0 t1) \<and> time_diff e \<le> 1"

fun rx_byte :: "rx_event \<Rightarrow> byte" where
  "rx_byte (Rx_Byte b _ _) = b"
| "rx_byte _ = 0"

lemma rx_loop_prompt:
  assumes "fd \<noteq> -1" "\<forall>e \<in> set es. prompt_byte e" "int (length buffer + length es) < cap"
  shows "rx_loop fd cap buffer (es @ Rx_Timeout # rest) =
    (int (length buffer + length es), buffer @ map rx_byte es, rest)"
  using assms(2,3)
proof (induction es arbitrary: buffer)
  case Nil
  then show ?case using assms(1) by (simp add: serial_receive_byte_def)
next
  case (Cons e es)
  then obtain b t0 t1 where e: "e = Rx_Byte b t0 t1" and "time_diff e \<le> 1"
    by (auto simp: prompt_byte_def)
  then have "rx_loop fd cap buffer ((e # es) @ Rx_Timeout # rest)
      = rx_loop fd cap (buffer @ [b]) (es @ Rx_Timeout # rest)"
    using assms(1) Cons.prems by (simp add: serial_receive_byte_def)
  with Cons.IH [of "buffer @ [b]"] Cons.prems e show ?case by simp
qed

lemma rx_loop_bounds:
  assumes "rx_loop fd cap buffer es = (r, buf, es')" "int (length buffer) \<le> cap"
  shows "int (length buf) \<le> cap \<and> (r = int (length buf) \<or> r = -1)"
  using assms
proof (induction es arbitrary: buffer)
  case Nil
  then show ?case by (auto split: if_splits)
next
  case (Cons e es)
  show ?case
  proof (cases "int (length buffer) < cap")
    case False
    with Cons.prems show ?thesis by auto
  next
    case True
    show ?thesis
    proof (cases "serial_receive_byte fd e")
      case (Pair k ob)
      show ?thesis
      proof (cases ob)
        case None
        with Pair True Cons.prems show ?thesis by (auto split: if_splits)
      next
        case (Some b)
        show ?thesis
        proof (cases "4 \<le> length (buffer @ [b]) \<and> 1 < time_diff e")
          case stop: True
          with Pair Some True Cons.prems show ?thesis by auto
        next
          case False
          with Pair Some True Cons.prems
          have "rx_loop fd cap (buffer @ [b]) es = (r, buf, es')" by (auto simp: Let_def split: if_splits)
          moreover have "int (length (buffer @ [b])) \<le> cap" using True by simp
          ultimately show ?thesis by (rule Cons.IH)
        qed
      qed
    qed
  qed
qed

lemma strtol16_hex2: "strtol16_byte (hex2 b) = b"
proof -
  have v: "unat b div 16 < 16" "unat b mod 16 < 16"
    using unat_byte_lt [of b] by simp_all
  have s: "unat b div 16 * 16 + unat b mod 16 = unat b" by simp
  have "max LONG_MIN (min LONG_MAX (int (unat b))) = int (unat b)"
    by (rule long_clamp_nat) (rule less_trans [OF unat_byte_lt], simp)
  then show ?thesis
    unfolding strtol16_byte_def hex2_def c_strtol_def strto_scan_hex2 [OF v] s by simp
qed

lemma hex_to_bytes_hex2: "hex_to_bytes (concat (map hex2 bs)) n = take n bs"
proof (induction bs arbitrary: n)
  case Nil
  then show ?case by simp
next
  case (Cons b bs)
  obtain x y where xy: "hex2 b = [x, y]" by (simp add: hex2_def)
  with strtol16_hex2 [of b] have "strtol16_byte [x, y] = b" by simp
  with Cons.IH xy show ?case by (cases n) simp_all
qed

lemma hex_to_bytes_length: "length (hex_to_bytes s n) = min n (length s div 2)"
  by (induction s n rule: hex_to_bytes.induct) auto

section \<open>Properties\<close>

text \<open>The reception loop never fills more than the buffer it is given, and returns the
  number of bytes it stored or -1, whatever the device and the clock do.\<close>

theorem receive_within_buffer:
  assumes "serial_receive_modbus fd buffer_size es = (r, buf, es')" and "0 \<le> buffer_size"
  shows "int (length buf) \<le> buffer_size \<and> (r = int (length buf) \<or> r = -1)"
proof (cases "fd = -1")
  case True
  with assms show ?thesis by (simp add: serial_receive_modbus_def)
next
  case False
  with assms rx_loop_bounds [of fd buffer_size "[]" es r buf es'] show ?thesis
    by (simp add: serial_receive_modbus_def)
qed

theorem receive_within_buffer_witness:
  "int (length [7 :: byte, 8]) \<le> 2 \<and> (2 = int (length [7 :: byte, 8]) \<or> (2::int) = -1)"
proof (rule receive_within_buffer [of 3 2
      "[Rx_Byte 7 (0, 0) (0, 0), Rx_Byte 8 (0, 0) (0, 0), Rx_Byte 9 (0, 0) (0, 0)]"
      _ _ "[Rx_Byte 9 (0, 0) (0, 0)]"])
  show "serial_receive_modbus 3 2
      [Rx_Byte 7 (0, 0) (0, 0), Rx_Byte 8 (0, 0) (0, 0), Rx_Byte 9 (0, 0) (0, 0)] =
      (2, [7, 8], [Rx_Byte 9 (0, 0) (0, 0)])"
    by (simp add: serial_receive_modbus_def serial_receive_byte_def time_diff_def c_div_def)
  show "(0::int) \<le> 2" by simp
qed

text \<open>Opening the port leaves it in raw 8N1 mode whatever its settings were: eight
  data bits, no parity, one stop bit, receiver on, no line editing, echo or signals, no
  input or output translation, and the requested speed (115200 for an unknown one).\<close>

theorem serial_init_raw_8n1:
  assumes "serial_init opened current baud_rate = (0, fd, Some t)"
  shows "fd = opened \<and> c_cflag t AND CSIZE = CS8 \<and> c_cflag t AND PARENB = 0 \<and>
    c_cflag t AND CSTOPB = 0 \<and> c_cflag t AND CREAD = CREAD \<and> c_cflag t AND CLOCAL = CLOCAL \<and>
    c_lflag t AND (ICANON OR ECHO OR ECHOE OR ISIG) = 0 \<and>
    c_iflag t AND (INPCK OR ICRNL OR IGNCR) = 0 \<and> c_oflag t AND OPOST = 0 \<and>
    c_ispeed t = baud_const baud_rate \<and> c_ospeed t = c_ispeed t"
proof -
  have t: "t = serial_options baud_rate current" "fd = opened"
    using assms by (auto simp: serial_init_def Let_def split: if_splits)
  have or_mask: "(x OR y) AND m = (x AND m) OR (y AND m)" for x y m :: u32
    by (rule bit_word_eqI) (auto simp: bit_simps)
  have and_mask: "(x AND n) AND m = x AND (n AND m)" for x n m :: u32
    by (simp only: and.assoc)
  have clear: "(x AND NOT m) AND m = 0" for x m :: u32
    by (rule bit_word_eqI) (auto simp: bit_simps)
  show ?thesis
    unfolding t
    by (simp add: serial_options_def Let_def clear)
       (simp add: termios_bits or_mask and_mask)
qed

theorem serial_init_raw_8n1_witness:
  "c_cflag (serial_options 9600 \<lparr>c_iflag = 0x500, c_oflag = 5, c_cflag = 0xCBD, c_lflag = 0x8A3B,
      c_ispeed = 0, c_ospeed = 0\<rparr>) AND CSIZE = CS8"
  using serial_init_raw_8n1 [of 3 "\<lparr>c_iflag = 0x500, c_oflag = 5, c_cflag = 0xCBD,
      c_lflag = 0x8A3B, c_ispeed = 0, c_ospeed = 0\<rparr>" 9600 3
      "serial_options 9600 \<lparr>c_iflag = 0x500, c_oflag = 5, c_cflag = 0xCBD, c_lflag = 0x8A3B,
      c_ispeed = 0, c_ospeed = 0\<rparr>"]
  by (simp add: serial_init_def)

end
