(* ===== verification/Ser2mqtt.thy ===== *)
theory Ser2mqtt
  imports Modbus Serial
begin

text \<open>
  \<^verbatim>\<open>ser2mqtt/src/main.c\<close> and the publishing half of \<^verbatim>\<open>mqtt_client.c\<close>: the gateway's main
  loop, from the serial port to the broker. libmosquitto is outside the sources: what it
  is asked to publish is the output of the model. The buffer of the loop is 255 bytes, the
  hexadecimal string and the message have 512 bytes each, the topic 64.
\<close>

section \<open>Model\<close>

definition format_mac :: "bytes \<Rightarrow> string" where
  "format_mac mac = c_snprintf 18
     (hex2 (mac ! 0) @ '':'' @ hex2 (mac ! 1) @ '':'' @ hex2 (mac ! 2) @ '':'' @
      hex2 (mac ! 3) @ '':'' @ hex2 (mac ! 4) @ '':'' @ hex2 (mac ! 5))"

text \<open>\<open>sock\<close> is the result of \<open>socket\<close>, \<open>hw\<close> the six bytes \<open>ioctl\<close> delivers, if it
  succeeds.\<close>

definition get_mac_address :: "int \<Rightarrow> bytes option \<Rightarrow> string option" where
  "get_mac_address sock hw =
     (if sock = -1 then None
      else case hw of None \<Rightarrow> None | Some mac \<Rightarrow> Some (format_mac mac))"

text \<open>The loop that prints byte \<open>i\<close> at offset \<open>2 * i\<close> of the 512 byte string.\<close>

fun hex_loop :: "nat \<Rightarrow> bytes \<Rightarrow> string \<Rightarrow> string" where
  "hex_loop i [] acc = acc"
| "hex_loop i (b # bs) acc = hex_loop (Suc i) bs (acc @ c_snprintf (512 - i * 2) (hex2 b))"

definition build_message :: "string \<Rightarrow> string" where
  "build_message hex = c_snprintf 512 (''{'' @ [CHR 0x22] @ ''msg'' @ [CHR 0x22] @ '':'' @ [CHR 0x22]
     @ hex @ [CHR 0x22] @ ''}'')"

definition build_topic :: "string \<Rightarrow> string" where
  "build_topic mac_address = c_snprintf 64 (''/ser2mqtt/report/'' @ mac_address)"

record publication =
  topic :: string
  payload :: string

definition mqtt_publish :: "string \<Rightarrow> string \<Rightarrow> publication" where
  "mqtt_publish t m = \<lparr>topic = t, payload = m\<rparr>"

text \<open>One round of the loop: what it publishes, if anything, and the rest of the input.\<close>

definition gateway_round :: "int \<Rightarrow> string \<Rightarrow> rx_event list \<Rightarrow> publication option \<times> rx_event list" where
  "gateway_round fd mac_address es =
     (case serial_receive_modbus fd 255 es of (bytes_read, buf, es') \<Rightarrow>
       (if 0 < bytes_read
        then if check_modbus_rtu_format (take (nat bytes_read) buf) = 0
          then (Some (mqtt_publish (build_topic mac_address)
                  (build_message (hex_loop 0 (take (nat bytes_read) buf) []))), es')
          else (None, es')
        else (None, es')))"

text \<open>\<open>n\<close> rounds of \<open>while (1)\<close>.\<close>

primrec gateway :: "nat \<Rightarrow> int \<Rightarrow> string \<Rightarrow> rx_event list \<Rightarrow> publication list" where
  "gateway 0 fd mac es = []"
| "gateway (Suc n) fd mac es =
     (case gateway_round fd mac es of (p, es') \<Rightarrow>
       (case p of None \<Rightarrow> [] | Some x \<Rightarrow> [x]) @ gateway n fd mac es')"

text \<open>Start-up. A process that ends is \<open>Inl\<close> of its exit status: \<open>mqtt_init\<close> calls \<open>exit\<close>
  when libmosquitto gives no instance or cannot connect, \<open>main\<close> returns -1 without a MAC
  address or a serial port. \<open>created\<close> and \<open>rc\<close> are what libmosquitto returns
  (\<open>MOSQ_ERR_SUCCESS\<close> is 0); the endless loop runs for \<open>n\<close> rounds.\<close>

definition mqtt_init :: "bool \<Rightarrow> int \<Rightarrow> int + unit" where
  "mqtt_init created rc = (if \<not> created then Inl 1 else if rc \<noteq> 0 then Inl 1 else Inr ())"

definition on_connect :: "int \<Rightarrow> int + string" where
  "on_connect result = (if result = 0 then Inr ''/data/recv'' else Inl 1)"

definition ser2mqtt_main ::
  "bool \<Rightarrow> int \<Rightarrow> int \<Rightarrow> bytes option \<Rightarrow> int \<Rightarrow> termios \<Rightarrow> nat \<Rightarrow> rx_event list \<Rightarrow> int + publication list" where
  "ser2mqtt_main created rc sock hw opened current n es =
     (case mqtt_init created rc of Inl status \<Rightarrow> Inl status
      | Inr _ \<Rightarrow> (case get_mac_address sock hw of None \<Rightarrow> Inl (-1)
         | Some mac_address \<Rightarrow>
            (case serial_init opened current 115200 of (r, serial_fd, _) \<Rightarrow>
               (if r \<noteq> 0 then Inl (-1) else Inr (gateway n serial_fd mac_address es)))))"

section \<open>Lemmas\<close>

lemma length_concat_hex2 [simp]: "length (concat (map hex2 bs)) = 2 * length bs"
  by (induction bs) simp_all

lemma hex_digit_ne:
  assumes "d < 16" and "c \<notin> set ''0123456789abcdef''"
  shows "hex_digit d \<noteq> c"
proof -
  have "\<forall>d \<in> set [0..<16]. hex_digit d \<in> set ''0123456789abcdef''" by code_simp
  with assms show ?thesis by force
qed

lemma hex2_no_brace: "CHR ''}'' \<notin> set (concat (map hex2 bs))"
proof -
  have "CHR ''}'' \<notin> set (hex2 b)" for b
    using hex_digit_ne [of "unat b div 16" "CHR ''}''"] hex_digit_ne [of "unat b mod 16" "CHR ''}''"]
      unat_byte_lt [of b]
    by (auto simp: hex2_def div_less_iff_less_mult)
  then show ?thesis by auto
qed

lemma hex_loop_eq:
  "i + length bs \<le> 255 \<Longrightarrow> hex_loop i bs acc = acc @ concat (map hex2 bs)"
  by (induction bs arbitrary: i acc) (simp_all add: c_snprintf_def)

lemma build_message_fits:
  "length hex \<le> 501 \<Longrightarrow> build_message hex =
     ''{'' @ [CHR 0x22] @ ''msg'' @ [CHR 0x22] @ '':'' @ [CHR 0x22] @ hex @ [CHR 0x22] @ ''}''"
  by (simp add: build_message_def c_snprintf_def)

lemma build_message_cut:
  "502 \<le> length hex \<Longrightarrow> length (build_message hex) = 511 \<and>
     build_message hex = take 511 (''{'' @ [CHR 0x22] @ ''msg'' @ [CHR 0x22] @ '':'' @ [CHR 0x22]
       @ hex @ [CHR 0x22])"
proof (cases "length hex = 502")
  case False
  moreover assume "502 \<le> length hex"
  ultimately show ?thesis by (simp add: build_message_def c_snprintf_def)
qed (simp add: build_message_def c_snprintf_def)

text \<open>A run of the receiver over the bytes of \<open>d\<close>, each with a quiet clock, and a timeout.\<close>

definition arrival :: "bytes \<Rightarrow> rx_event list" where
  "arrival d = map (\<lambda>b. Rx_Byte b (0, 0) (0, 0)) d @ [Rx_Timeout]"

lemma receive_prompt:
  assumes "fd \<noteq> -1" "\<forall>e \<in> set es. prompt_byte e" "length es < 255"
  shows "serial_receive_modbus fd 255 (es @ Rx_Timeout # rest)
    = (int (length es), map rx_byte es, rest)"
  using rx_loop_prompt [of fd es "[]" 255 rest] assms by (simp add: serial_receive_modbus_def)

lemma gateway_round_prompt:
  assumes "fd \<noteq> -1" "\<forall>e \<in> set es. prompt_byte e" "length es < 255"
  shows "gateway_round fd mac (es @ Rx_Timeout # rest) =
    (if check_modbus_rtu_format (map rx_byte es) = 0
     then Some (mqtt_publish (build_topic mac) (build_message (concat (map hex2 (map rx_byte es)))))
     else None, rest)"
proof -
  have "check_modbus_rtu_format [] = -1" by (simp add: check_modbus_rtu_format_def)
  moreover have "hex_loop 0 (map rx_byte es) [] = concat (map hex2 (map rx_byte es))"
    using hex_loop_eq [of 0 "map rx_byte es" "[]"] assms(3) by simp
  ultimately show ?thesis
    using receive_prompt [OF assms]
    by (cases "es = []") (simp_all add: gateway_round_def)
qed

section \<open>Properties\<close>

text \<open>Property C24: a valid frame of at most 250 bytes that arrives without a pause is published once,
  under the gateway's topic, as the JSON object with its hexadecimal digits, and sending
  these digits to a serial port gives the bytes of the frame back.\<close>

theorem gateway_forwards_frame:
  assumes "fd \<noteq> -1" and "\<forall>e \<in> set es. prompt_byte e" and "length es \<le> 250"
    and "check_modbus_rtu_format (map rx_byte es) = 0"
  defines "hex \<equiv> concat (map hex2 (map rx_byte es))"
  shows "gateway_round fd mac (es @ Rx_Timeout # rest) =
     (Some \<lparr>topic = build_topic mac,
        payload = ''{'' @ [CHR 0x22] @ ''msg'' @ [CHR 0x22] @ '':'' @ [CHR 0x22] @ hex @ [CHR 0x22] @ ''}''\<rparr>,
      rest)
    \<and> hex_to_bytes hex 256 = map rx_byte es"
  using gateway_round_prompt [of fd es mac rest] assms
    build_message_fits [of hex] hex_to_bytes_hex2 [of "map rx_byte es" 256]
  unfolding hex_def mqtt_publish_def length_concat_hex2 length_map by simp

theorem gateway_forwards_frame_witness:
  "gateway_round 3 ''00:11:22:33:44:55''
      (map (\<lambda>b. Rx_Byte b (7, 0) (7, 900)) [0x01, 0x03, 0x00, 0x00, 0x00, 0x0A, 0xC5, 0xCD] @ Rx_Timeout # []) =
     (Some \<lparr>topic = ''/ser2mqtt/report/00:11:22:33:44:55'',
        payload = ''{'' @ [CHR 0x22] @ ''msg'' @ [CHR 0x22] @ '':'' @ [CHR 0x22]
          @ ''01030000000ac5cd'' @ [CHR 0x22] @ ''}''\<rparr>, [])"
proof -
  let ?es = "map (\<lambda>b. Rx_Byte b (7, 0) (7, 900)) [0x01, 0x03, 0x00, 0x00, 0x00, 0x0A, 0xC5, 0xCD]"
  have p: "\<forall>e \<in> set ?es. prompt_byte e"
    by (simp add: prompt_byte_def time_diff_def c_div_def)
  have c: "check_modbus_rtu_format (map rx_byte ?es) = 0"
    by code_simp
  have hx: "concat (map hex2 (map rx_byte ?es)) = ''01030000000ac5cd''"
    by code_simp
  have tp: "build_topic ''00:11:22:33:44:55'' = ''/ser2mqtt/report/00:11:22:33:44:55''"
    by code_simp
  show ?thesis
    using gateway_forwards_frame [of 3 ?es "''00:11:22:33:44:55''" "[]", OF _ p _ c]
    unfolding hx tp by simp
qed

text \<open>The gap between two frames is not seen: when the second frame follows within the
  receive timeout, both are collected into one buffer, which fails the check, and nothing
  is published. The millisecond test in the loop compares two clock readings taken after
  the same byte, so it does not help.\<close>

theorem gateway_loses_close_frames:
  assumes "fd \<noteq> -1" and "\<forall>e \<in> set (es1 @ es2). prompt_byte e" and "length es1 + length es2 < 255"
    and "check_modbus_rtu_format (map rx_byte es1) = 0"
    and "check_modbus_rtu_format (map rx_byte es2) = 0"
  shows "gateway_round fd mac ((es1 @ es2) @ Rx_Timeout # rest) = (None, rest)"
proof -
  have "check_modbus_rtu_format (map rx_byte (es1 @ es2)) = -1"
    using check_merged [OF assms(4,5)] by simp
  with gateway_round_prompt [of fd "es1 @ es2" mac rest] assms(1-3) show ?thesis
    by simp
qed

theorem gateway_loses_close_frames_witness:
  "gateway_round 3 ''m'' ((map (\<lambda>b. Rx_Byte b (0, 0) (0, 0)) [0x01, 0x03, 0x00, 0x00, 0x00, 0x0A, 0xC5, 0xCD]
     @ map (\<lambda>b. Rx_Byte b (0, 0) (0, 0)) [0x01, 0x03, 0x00, 0x00, 0x00, 0x0A, 0xC5, 0xCD]) @ Rx_Timeout # [])
   = (None, [])"
proof -
  let ?es = "map (\<lambda>b. Rx_Byte b (0, 0) (0, 0)) [0x01, 0x03, 0x00, 0x00, 0x00, 0x0A, 0xC5, 0xCD]"
  have p: "\<forall>e \<in> set (?es @ ?es). prompt_byte e"
    by (simp add: prompt_byte_def time_diff_def c_div_def)
  have c: "check_modbus_rtu_format (map rx_byte ?es) = 0"
    by code_simp
  show ?thesis
    by (rule gateway_loses_close_frames [OF _ p _ c c]) simp_all
qed

text \<open>A valid frame of 251 to 254 bytes is published as a message that is cut off after
  511 characters: it does not end the JSON object, and its payload is the same for frames
  that differ in their last bytes.\<close>

theorem gateway_truncates_long_frame:
  assumes "fd \<noteq> -1" and "\<forall>e \<in> set es. prompt_byte e" and "251 \<le> length es" and "length es < 255"
    and "check_modbus_rtu_format (map rx_byte es) = 0"
  shows "\<exists>m. gateway_round fd mac (es @ Rx_Timeout # rest) =
       (Some \<lparr>topic = build_topic mac, payload = m\<rparr>, rest) \<and> length m = 511 \<and>
     last m \<noteq> CHR ''}''"
proof -
  let ?hex = "concat (map hex2 (map rx_byte es))"
  let ?pre = "''{'' @ [CHR 0x22] @ ''msg'' @ [CHR 0x22] @ '':'' @ [CHR 0x22]"
  have len: "502 \<le> length ?hex" using assms(3) by (simp only: length_concat_hex2 length_map)
  have l511: "length (build_message ?hex) = 511"
    by (rule conjunct1 [OF build_message_cut [OF len]])
  have cut: "build_message ?hex = take 511 (?pre @ ?hex @ [CHR 0x22])"
    using conjunct2 [OF build_message_cut [OF len]] by (simp only: append.assoc)
  have "CHR ''}'' \<notin> set ?hex" by (rule hex2_no_brace)
  then have "CHR ''}'' \<notin> set (?pre @ ?hex @ [CHR 0x22])" by simp
  then have "CHR ''}'' \<notin> set (build_message ?hex)"
    unfolding cut by (blast dest: in_set_takeD)
  moreover have "build_message ?hex \<noteq> []" using l511 by (metis list.size(3) zero_neq_numeral)
  ultimately have "last (build_message ?hex) \<noteq> CHR ''}''"
    by (metis last_in_set)
  with gateway_round_prompt [of fd es mac rest] assms l511 show ?thesis
    by (simp add: mqtt_publish_def)
qed

theorem gateway_truncates_long_frame_witness:
  "\<exists>m. gateway_round 3 ''m'' (map (\<lambda>b. Rx_Byte b (0, 0) (0, 0)) (modbus_frame (replicate 250 0x03)) @ Rx_Timeout # []) =
       (Some \<lparr>topic = build_topic ''m'', payload = m\<rparr>, []) \<and> length m = 511 \<and> last m \<noteq> CHR ''}''"
proof -
  let ?es = "map (\<lambda>b. Rx_Byte b (0, 0) (0, 0)) (modbus_frame (replicate 250 0x03))"
  have p: "\<forall>e \<in> set ?es. prompt_byte e"
    by (auto simp: prompt_byte_def time_diff_def c_div_def)
  have "map rx_byte ?es = modbus_frame (replicate 250 0x03)" by (simp add: comp_def)
  moreover have "function_code_ok (replicate 250 0x03 ! 1)"
    by (simp add: function_code_ok_def MODBUS_READ_HOLDING_def)
  ultimately have c: "check_modbus_rtu_format (map rx_byte ?es) = 0"
    using check_modbus_frame [of "replicate 250 0x03"] by simp
  have l: "length ?es = 252" by (simp add: modbus_frame_def)
  show ?thesis
    using gateway_truncates_long_frame [of 3 ?es "''m''" "[]", OF _ p _ _ c] unfolding l by simp
qed

end
