(* ===== verification/At_Tok.thy ===== *)
theory At_Tok
  imports C_Lib
begin

text \<open>
  \<^verbatim>\<open>quectel_cm_5G/src/at_tok.c\<close>: the tokenizer of AT response lines. The cursor
  \<open>char **p_cur\<close> is the value \<open>*p_cur\<close>: \<open>None\<close> for NULL, else the text from the cursor to
  the end of the string. Every operation returns the cursor it leaves behind.
\<close>

section \<open>Model\<close>

type_synonym cursor = "string option"

definition at_tok_start :: "cursor \<Rightarrow> int \<times> cursor" where
  "at_tok_start cur = (case cur of None \<Rightarrow> (-1, None)
     | Some s \<Rightarrow> (case c_strchr s CHR '':'' of None \<Rightarrow> (-1, None) | Some r \<Rightarrow> (0, Some (tl r))))"

definition skipWhiteSpace :: "cursor \<Rightarrow> cursor" where
  "skipWhiteSpace cur = map_option (dropWhile c_isspace) cur"

definition skipNextComma :: "cursor \<Rightarrow> cursor" where
  "skipNextComma cur = map_option (\<lambda>s. case dropWhile (\<lambda>c. c \<noteq> CHR '','') s of [] \<Rightarrow> [] | _ # r \<Rightarrow> r) cur"

definition nextTok :: "cursor \<Rightarrow> string option \<times> cursor" where
  "nextTok cur = (case skipWhiteSpace cur of
       None \<Rightarrow> (None, None)
     | Some s \<Rightarrow> (case s of
           c # r \<Rightarrow> if c = CHR 0x22
             then (case c_strsep CHR 0x22 (Some r) of (ret, cur') \<Rightarrow> (ret, skipNextComma cur'))
             else c_strsep CHR '','' (Some s)
         | [] \<Rightarrow> c_strsep CHR '','' (Some s)))"

text \<open>The value written through \<open>p_out\<close> is the second component: it is written even when
  no digit was found, and not at all when there is no token.\<close>

definition at_tok_nextint_base :: "cursor \<Rightarrow> nat \<Rightarrow> bool \<Rightarrow> int \<times> int option \<times> cursor" where
  "at_tok_nextint_base cur base uns =
     (if cur = None then (-1, None, cur)
      else case nextTok cur of (ret, cur') \<Rightarrow>
        (case ret of None \<Rightarrow> (-1, None, cur')
         | Some t \<Rightarrow>
            (case (if uns then c_strtoul_as_long base t else c_strtol base t) of
               None \<Rightarrow> (-1, Some 0, cur')
             | Some l \<Rightarrow> (0, Some (c_int l), cur'))))"

definition at_tok_nextint :: "cursor \<Rightarrow> int \<times> int option \<times> cursor" where
  "at_tok_nextint cur = at_tok_nextint_base cur 10 False"

definition at_tok_nexthexint :: "cursor \<Rightarrow> int \<times> int option \<times> cursor" where
  "at_tok_nexthexint cur = at_tok_nextint_base cur 16 True"

definition at_tok_nextbool :: "cursor \<Rightarrow> int \<times> int option \<times> cursor" where
  "at_tok_nextbool cur =
     (case at_tok_nextint cur of (ret, result, cur') \<Rightarrow>
       (if ret < 0 then (-1, None, cur')
        else if \<not> (result = Some 0 \<or> result = Some 1) then (-1, None, cur')
        else (ret, result, cur')))"

definition at_tok_nextstr :: "cursor \<Rightarrow> int \<times> string option option \<times> cursor" where
  "at_tok_nextstr cur =
     (if cur = None then (-1, None, cur)
      else case nextTok cur of (t, cur') \<Rightarrow> (0, Some t, cur'))"

definition at_tok_hasmore :: "cursor \<Rightarrow> bool" where
  "at_tok_hasmore cur \<longleftrightarrow> \<not> (cur = None \<or> cur = Some [])"

definition at_tok_count :: "string option \<Rightarrow> nat" where
  "at_tok_count in_line = (case in_line of None \<Rightarrow> 0
     | Some s \<Rightarrow> foldl (\<lambda>commas c. if c = CHR '','' then Suc commas else commas) 0 s)"

text \<open>What \<open>at_tok_scanf\<close> stores through its variadic arguments: a list of pairs of the
  argument's position and the value, the last store first. A \<open>%s\<close> store is the token, or
  NULL (\<open>None\<close>).\<close>

datatype scan_val = SInt int | SBool int | SStr "string option"

type_synonym scan_out = "(nat \<times> scan_val) list"

text \<open>The \<open>switch\<close> on the directive; \<open>None\<close> is its default case.\<close>

definition scan_directive :: "char \<Rightarrow> cursor \<Rightarrow> (int \<times> scan_val option \<times> cursor) option" where
  "scan_directive q line =
     (if q = CHR ''d'' then (case at_tok_nextint line of (err, v, line') \<Rightarrow> Some (err, map_option SInt v, line'))
      else if q = CHR ''x'' then (case at_tok_nexthexint line of (err, v, line') \<Rightarrow> Some (err, map_option SInt v, line'))
      else if q = CHR ''b'' then (case at_tok_nextbool line of (err, v, line') \<Rightarrow> Some (err, map_option SBool v, line'))
      else if q = CHR ''s'' then (case at_tok_nextstr line of (err, v, line') \<Rightarrow> Some (err, map_option SStr v, line'))
      else None)"

text \<open>The \<open>for\<close> loop over the format. \<open>k\<close> counts the \<open>va_arg\<close> calls, \<open>n\<close> the
  conversions. A format whose last character is \<open>%\<close> would make the branch for an empty
  field read past its end; no format of the sources does, and the model ends there.\<close>

fun scanf_loop :: "string \<Rightarrow> cursor \<Rightarrow> nat \<Rightarrow> int \<Rightarrow> scan_out \<Rightarrow> int \<times> scan_out" where
  "scanf_loop [] line k n out = (n, out)"
| "scanf_loop (p # fmt) line k n out =
     (if p = CHR '','' \<or> p = CHR '' '' then scanf_loop fmt line k n out
      else if p \<noteq> CHR ''%'' then (n, out)
      else if \<not> at_tok_hasmore line then (n, out)
      else case fmt of
          [] \<Rightarrow> (n, out)
        | q # fmt' \<Rightarrow>
          (if starts_with (the line) ''-,''
           then scanf_loop fmt' (Some (drop 2 (the line))) (Suc k) (n + 1)
                  (if q = CHR ''d'' then (k, SInt (-1)) # out else out)
           else case scan_directive q line of
               None \<Rightarrow> (n, out)
             | Some (err, v, line') \<Rightarrow>
                 (let out' = (case v of None \<Rightarrow> out | Some x \<Rightarrow> (k, x) # out)
                  in if err < 0 then (n, out') else scanf_loop fmt' line' (Suc k) (n + 1) out')))"

definition at_tok_scanf :: "string option \<Rightarrow> string \<Rightarrow> int \<times> scan_out" where
  "at_tok_scanf in_line fmt = (case in_line of None \<Rightarrow> (0, [])
     | Some s \<Rightarrow> (case at_tok_start (Some (take 1023 s)) of (err, line) \<Rightarrow>
         (if err < 0 then (0, []) else scanf_loop fmt line 0 0 [])))"

text \<open>The value of argument \<open>k\<close> after the call: the last store, if any.\<close>

definition arg_int :: "scan_out \<Rightarrow> nat \<Rightarrow> int \<Rightarrow> int" where
  "arg_int out k dflt = (case map_of out k of Some (SInt i) \<Rightarrow> i | Some (SBool i) \<Rightarrow> i | _ \<Rightarrow> dflt)"

definition arg_str :: "scan_out \<Rightarrow> nat \<Rightarrow> string option \<Rightarrow> string option" where
  "arg_str out k dflt = (case map_of out k of Some (SStr t) \<Rightarrow> t | _ \<Rightarrow> dflt)"

section \<open>The response format, as a specification\<close>

text \<open>A modem's response line is a prefix, a colon and fields separated by commas: decimal
  numbers, quoted hexadecimal numbers or quoted strings, each possibly after some blanks.\<close>

datatype at_field = FInt int | FHex nat | FStr string

fun field_ok :: "at_field \<Rightarrow> bool" where
  "field_ok (FInt i) = (- (2 ^ 31) \<le> i \<and> i < 2 ^ 31)"
| "field_ok (FHex n) = (n < 2 ^ 32)"
| "field_ok (FStr s) = (CHR 0x22 \<notin> set s)"

fun render_field :: "at_field \<Rightarrow> string" where
  "render_field (FInt i) = show_int i"
| "render_field (FHex n) = CHR 0x22 # show_hex n @ [CHR 0x22]"
| "render_field (FStr s) = CHR 0x22 # s @ [CHR 0x22]"

fun field_fmt :: "at_field \<Rightarrow> string" where
  "field_fmt (FInt i) = ''%d''"
| "field_fmt (FHex n) = ''%x''"
| "field_fmt (FStr s) = ''%s''"

fun field_val :: "at_field \<Rightarrow> scan_val" where
  "field_val (FInt i) = SInt i"
| "field_val (FHex n) = SInt (c_int (int n))"
| "field_val (FStr s) = SStr (Some s)"

fun comma_sep :: "string list \<Rightarrow> string" where
  "comma_sep [] = []"
| "comma_sep [x] = x"
| "comma_sep (x # y # xs) = x @ CHR '','' # comma_sep (y # xs)"

definition blanks :: "nat \<Rightarrow> string" where
  "blanks m = replicate m CHR '' ''"

definition render_line :: "string \<Rightarrow> (nat \<times> at_field) list \<Rightarrow> string" where
  "render_line pre fs = pre @ CHR '':'' # comma_sep (map (\<lambda>(m, f). blanks m @ render_field f) fs)"

definition fields_fmt :: "(nat \<times> at_field) list \<Rightarrow> string" where
  "fields_fmt fs = concat (map (\<lambda>(m, f). field_fmt f) fs)"

section \<open>Lemmas\<close>

lemma skip_blanks: "dropWhile c_isspace (blanks m @ s) = dropWhile c_isspace s"
  by (induction m) (simp_all add: blanks_def c_isspace_def ord_of_def)

lemma show_int_no_comma: "CHR '','' \<notin> set (show_int i)"
  using show_int_chars [of "CHR '',''" i] c_isdigit_facts by fastforce

lemma nextTok_int:
  "nextTok (Some (blanks m @ show_int i @ CHR '','' # r)) = (Some (show_int i), Some r)"
  "nextTok (Some (blanks m @ show_int i)) = (Some (show_int i), None)"
proof -
  obtain c t where c: "show_int i = c # t" "\<not> c_isspace c" "c \<noteq> CHR 0x22"
    by (rule show_int_Cons)
  show "nextTok (Some (blanks m @ show_int i @ CHR '','' # r)) = (Some (show_int i), Some r)"
    using c c_strsep_hit [OF show_int_no_comma, of i r]
    by (simp add: nextTok_def skipWhiteSpace_def skip_blanks)
  show "nextTok (Some (blanks m @ show_int i)) = (Some (show_int i), None)"
    using c c_strsep_miss [OF show_int_no_comma, of i]
    by (simp add: nextTok_def skipWhiteSpace_def skip_blanks)
qed

lemma nextTok_str:
  assumes "CHR 0x22 \<notin> set s"
  shows "nextTok (Some (blanks m @ CHR 0x22 # s @ CHR 0x22 # CHR '','' # r)) = (Some s, Some r)"
    and "nextTok (Some (blanks m @ [CHR 0x22] @ s @ [CHR 0x22])) = (Some s, Some [])"
  using c_strsep_hit [OF assms, of "CHR '','' # r"] c_strsep_hit [OF assms, of "[]"]
  by (simp_all add: nextTok_def skipWhiteSpace_def skip_blanks c_isspace_def ord_of_def skipNextComma_def)

lemma no_dash_int: "\<not> starts_with (blanks m @ show_int i @ s) ''-,''"
proof (cases m)
  case 0
  obtain c t where c: "show_int i = c # t" "c = CHR ''-'' \<longrightarrow> (\<exists>d r'. t = d # r' \<and> c_isdigit d)"
    by (rule show_int_Cons)
  with 0 c_isdigit_facts(4) show ?thesis by (auto simp: blanks_def)
qed (simp add: blanks_def)

lemma no_dash_str: "\<not> starts_with (blanks m @ CHR 0x22 # s) ''-,''"
  by (cases m) (simp_all add: blanks_def)

lemma show_hex_no_quote: "CHR 0x22 \<notin> set (show_hex n)"
  using show_hex_char(1) [of "CHR 0x22" n] by auto

lemma strtoul_show_hex: "n < 2 ^ 32 \<Longrightarrow> c_strtoul_as_long 16 (show_hex n) = Some (int n)"
  by (simp add: c_strtoul_as_long_def strto_scan_show_hex signed_take_bit_int_eq_self)

lemma scanf_field_more:
  assumes "field_ok f"
  shows "scanf_loop (field_fmt f @ fmt) (Some (blanks m @ render_field f @ CHR '','' # r)) k n out
    = scanf_loop fmt (Some r) (Suc k) (n + 1) ((k, field_val f) # out)"
proof (cases f)
  case (FInt i)
  with assms strtol_show_int [of i] no_dash_int [of m i "CHR '','' # r"] nextTok_int(1) [of m i r]
  show ?thesis
    by (simp add: at_tok_hasmore_def scan_directive_def at_tok_nextint_def at_tok_nextint_base_def c_int_small)
next
  case (FHex h)
  with assms no_dash_str [of m "show_hex h @ CHR 0x22 # CHR '','' # r"]
    nextTok_str(1) [OF show_hex_no_quote, of m h r] strtoul_show_hex [of h]
  show ?thesis
    by (simp add: at_tok_hasmore_def scan_directive_def at_tok_nexthexint_def at_tok_nextint_base_def)
next
  case (FStr s)
  with assms no_dash_str [of m "s @ CHR 0x22 # CHR '','' # r"] nextTok_str(1) [of s m r]
  show ?thesis
    by (simp add: at_tok_hasmore_def scan_directive_def at_tok_nextstr_def)
qed

lemma scanf_field_last:
  assumes "field_ok f"
  shows "scanf_loop (field_fmt f) (Some (blanks m @ render_field f)) k n out
    = (n + 1, (k, field_val f) # out)"
proof (cases f)
  case (FInt i)
  have "show_int i \<noteq> []" by (rule show_int_Cons [of i]) simp
  with FInt assms strtol_show_int [of i] no_dash_int [of m i "[]"] nextTok_int(2) [of m i]
  show ?thesis
    by (simp add: at_tok_hasmore_def scan_directive_def at_tok_nextint_def at_tok_nextint_base_def c_int_small)
next
  case (FHex h)
  with assms no_dash_str [of m "show_hex h @ [CHR 0x22]"]
    nextTok_str(2) [OF show_hex_no_quote, of m h] strtoul_show_hex [of h]
  show ?thesis
    by (simp add: at_tok_hasmore_def scan_directive_def at_tok_nexthexint_def at_tok_nextint_base_def)
next
  case (FStr s)
  with assms no_dash_str [of m "s @ [CHR 0x22]"] nextTok_str(2) [of s m]
  show ?thesis
    by (simp add: at_tok_hasmore_def scan_directive_def at_tok_nextstr_def)
qed

lemma scanf_fields:
  assumes "\<forall>(m, f) \<in> set fs. field_ok f"
  shows "scanf_loop (fields_fmt fs) (Some (comma_sep (map (\<lambda>(m, f). blanks m @ render_field f) fs))) k n out
    = (n + int (length fs), rev (zip [k..<k + length fs] (map (field_val \<circ> snd) fs)) @ out)"
  using assms
proof (induction fs arbitrary: k n out rule: induct_list012)
  case 1
  then show ?case by (simp add: fields_fmt_def)
next
  case (2 x)
  then show ?case
    by (cases x) (simp add: fields_fmt_def scanf_field_last)
next
  case (3 x y zs)
  obtain m f where x: "x = (m, f)" by (cases x)
  have IH: "scanf_loop (fields_fmt (y # zs)) (Some (comma_sep (map (\<lambda>(m, f). blanks m @ render_field f) (y # zs)))) k n out
    = (n + int (length (y # zs)), rev (zip [k..<k + length (y # zs)] (map (field_val \<circ> snd) (y # zs))) @ out)"
    for k n out using "3.IH"(2) "3.prems" by (simp add: comp_def)
  have fmt: "fields_fmt (x # y # zs) = field_fmt f @ fields_fmt (y # zs)"
    by (simp add: fields_fmt_def x)
  have line: "comma_sep (map (\<lambda>(m, f). blanks m @ render_field f) (x # y # zs))
      = blanks m @ render_field f @ CHR '','' # comma_sep (map (\<lambda>(m, f). blanks m @ render_field f) (y # zs))"
    by (simp add: x)
  have up: "[k..<k + length (x # y # zs)] = k # [Suc k..<Suc k + length (y # zs)]"
    using upt_conv_Cons [of k "k + length (x # y # zs)"] by (simp del: upt_Suc)
  have ok: "field_ok f" using 3 x by simp
  show ?case
    unfolding fmt line scanf_field_more [OF ok] up by (simp only: IH) (simp add: x comp_def del: upt_Suc)
qed

text \<open>The loop converts and stores at most once per directive.\<close>

definition scan_within :: "string \<Rightarrow> nat \<Rightarrow> int \<Rightarrow> scan_out \<Rightarrow> int \<times> scan_out \<Rightarrow> bool" where
  "scan_within fmt k n out r \<longleftrightarrow> n \<le> fst r \<and> fst r \<le> n + int (count_list fmt CHR ''%'') \<and>
     fst ` set (snd r) \<subseteq> fst ` set out \<union> {k..<k + count_list fmt CHR ''%''}"

lemma scan_within_stop: "scan_within fmt k n out (n, out)"
  by (simp add: scan_within_def)

lemma scan_within_store: "scan_within (CHR ''%'' # fmt) k n out (n, (k, v) # out)"
  by (auto simp: scan_within_def)

lemma scan_within_skip: "scan_within fmt k n out r \<Longrightarrow> scan_within (c # fmt) k n out r"
  by (auto simp: scan_within_def)

lemma scan_within_next:
  assumes "scan_within fmt (Suc k) (n + 1) out' r" "out' = out \<or> (\<exists>v. out' = (k, v) # out)"
  shows "scan_within (CHR ''%'' # q # fmt) k n out r"
  using assms by (fastforce simp: scan_within_def)

lemma scanf_loop_within: "scan_within fmt k n out (scanf_loop fmt line k n out)"
proof (induction fmt line k n out rule: scanf_loop.induct)
  case (1 line k n out)
  then show ?case by (simp add: scan_within_stop)
next
  case (2 p fmt line k n out)
  show ?case
  proof (cases "p = CHR ''%'' \<and> at_tok_hasmore line \<and> fmt \<noteq> []")
    case False
    then show ?thesis
      using 2(1) by (auto simp: scan_within_stop scan_within_skip split: list.splits)
  next
    case True
    then obtain q fmt' where f: "p = CHR ''%''" "fmt = q # fmt'" by (cases fmt) auto
    show ?thesis
    proof (cases "starts_with (the line) ''-,''")
      case dash: True
      have "scan_within (CHR ''%'' # q # fmt') k n out (scanf_loop fmt' (Some (drop 2 (the line))) (Suc k) (n + 1)
          (if q = CHR ''d'' then (k, SInt (-1)) # out else out))"
        by (rule scan_within_next [OF "2.IH"(2)]) (use True f dash in auto)
      with True f dash show ?thesis by simp
    next
      case no_dash: False
      show ?thesis
      proof (cases "scan_directive q line")
        case None
        with True f no_dash show ?thesis by (simp add: scan_within_stop)
      next
        case (Some r)
        obtain err v line' where r: "r = (err, v, line')" by (cases r) auto
        define out' where "out' = (case v of None \<Rightarrow> out | Some x \<Rightarrow> (k, x) # out)"
        have "scan_within (CHR ''%'' # q # fmt') k n out (n, out')"
          by (simp add: out'_def scan_within_stop scan_within_store split: option.split)
        moreover have "scan_within (CHR ''%'' # q # fmt') k n out (scanf_loop fmt' line' (Suc k) (n + 1) out')"
          if "\<not> err < 0"
          by (rule scan_within_next [OF "2.IH"(3)])
             (use True f no_dash Some r that in \<open>auto simp: out'_def split: option.split\<close>)
        ultimately show ?thesis
          using True f no_dash Some r by (simp add: Let_def out'_def)
      qed
    qed
  qed
qed

lemma scanf_rendered:
  assumes "\<forall>(m, f) \<in> set fs. field_ok f" and "CHR '':'' \<notin> set pre"
    and "length (render_line pre fs) \<le> 1023"
  shows "at_tok_scanf (Some (render_line pre fs)) (fields_fmt fs)
    = (int (length fs), rev (zip [0..<length fs] (map (field_val \<circ> snd) fs)))"
proof -
  have "at_tok_start (Some (render_line pre fs))
    = (0, Some (comma_sep (map (\<lambda>(m, f). blanks m @ render_field f) fs)))"
    by (simp add: at_tok_start_def render_line_def c_strchr_hit [OF assms(2)])
  with scanf_fields [OF assms(1), of 0 0 "[]"] assms(3) show ?thesis
    by (simp add: at_tok_scanf_def)
qed

section \<open>Properties\<close>

text \<open>On any line and any format, \<open>at_tok_scanf\<close> counts at most one conversion per
  \<open>%\<close> of the format and stores only through the variadic arguments that belong to one, so a
  call that passes a pointer for every directive never writes anywhere else.\<close>

theorem scanf_stores_within_arguments:
  "0 \<le> fst (at_tok_scanf in_line fmt) \<and>
   fst (at_tok_scanf in_line fmt) \<le> int (count_list fmt CHR ''%'') \<and>
   fst ` set (snd (at_tok_scanf in_line fmt)) \<subseteq> {..<count_list fmt CHR ''%''}"
proof -
  have "scan_within fmt 0 0 [] (at_tok_scanf in_line fmt)"
    using scanf_loop_within [of fmt 0 0 "[]"]
    by (auto simp: at_tok_scanf_def scan_within_stop split: option.splits prod.splits)
  then show ?thesis by (auto simp: scan_within_def)
qed

text \<open>Property C38: \<open>at_tok_scanf\<close> inverts the format of response lines: from a line of at most 1023
  characters whose fields are decimal numbers, quoted hexadecimal numbers and quoted strings
  it reads, with the matching \<open>%d\<close>, \<open>%x\<close> and \<open>%s\<close> directives, every field, each into the argument of its position.\<close>

theorem scanf_reads_rendered_line:
  assumes "\<forall>(m, f) \<in> set fs. field_ok f" and "CHR '':'' \<notin> set pre"
    and "length (render_line pre fs) \<le> 1023"
  shows "at_tok_scanf (Some (render_line pre fs)) (fields_fmt fs)
    = (int (length fs), rev (zip [0..<length fs] (map (field_val \<circ> snd) fs)))"
  by (rule scanf_rendered [OF assms])

theorem scanf_reads_rendered_line_witness:
  "at_tok_scanf (Some (''+COPS: 0,2,'' @ [CHR 0x22] @ ''46001'' @ [CHR 0x22] @ '',-7'')) ''%d%d%s%d''
    = (4, [(3, SInt (-7)), (2, SStr (Some ''46001'')), (1, SInt 2), (0, SInt 0)])"
proof -
  let ?fs = "[(1, FInt 0), (0, FInt 2), (0, FStr ''46001''), (0, FInt (-7))]"
  have r: "render_line ''+COPS'' ?fs = ''+COPS: 0,2,'' @ [CHR 0x22] @ ''46001'' @ [CHR 0x22] @ '',-7''"
    by code_simp
  have f: "fields_fmt ?fs = ''%d%d%s%d''" by code_simp
  have z: "rev (zip [0..<length ?fs] (map (field_val \<circ> snd) ?fs))
    = [(3, SInt (-7)), (2, SStr (Some ''46001'')), (1, SInt 2), (0, SInt 0)]" by code_simp
  have l: "length (render_line ''+COPS'' ?fs) \<le> 1023" unfolding r by simp
  show ?thesis
    using scanf_reads_rendered_line [of ?fs "''+COPS''", OF _ _ l] unfolding r f z by simp
qed

end
