(* ===== verification/At_Reader.thy ===== *)
theory At_Reader
  imports C_Lib
begin

text \<open>
  The line reader of \<^verbatim>\<open>quectel_cm_5G/src/atchannel.c\<close> (\<open>readline\<close>, \<open>findNextEOL\<close>) on
  the bytes of its buffer. \<open>cm_recv_buf\<close> is the list \<open>mem\<close>, \<open>s_ATBufferCur\<close> the index
  \<open>pos\<close>; an access outside the buffer makes the operation \<open>None\<close>. The modem's side is
  the list of blocks that \<open>read\<close> can deliver; \<open>read\<close> takes no more than the room it is given
  and the rest stays for the next call; when the list is used up, or at an empty block, the
  channel is at its end. The second half relates the buffer to the text: the reader returns
  the lines of the text, however it was cut into blocks.
\<close>

section \<open>Model\<close>

definition MAX_AT_RESPONSE :: nat where "MAX_AT_RESPONSE = 4096"

definition NUL :: char where "NUL = CHR 0x00"

definition is_nl :: "char \<Rightarrow> bool" where
  "is_nl c \<longleftrightarrow> c = CHR 0x0D \<or> c = CHR 0x0A"

record reader =
  mem :: string
  pos :: nat

definition rdc :: "string \<Rightarrow> nat \<Rightarrow> char option" where
  "rdc m i = (if i < length m then Some (m ! i) else None)"

definition wrc :: "string \<Rightarrow> nat \<Rightarrow> char \<Rightarrow> string option" where
  "wrc m i c = (if i < length m then Some (m[i := c]) else None)"

definition wrs :: "string \<Rightarrow> nat \<Rightarrow> string \<Rightarrow> string option" where
  "wrs m i d = (if i + length d \<le> length m then Some (take i m @ d @ drop (i + length d) m) else None)"

function skip_newlines :: "string \<Rightarrow> nat \<Rightarrow> nat option" where
  "skip_newlines m c =
     (if c < length m then (if is_nl (m ! c) then skip_newlines m (Suc c) else Some c) else None)"
  by auto
termination by (relation "measure (\<lambda>(m, c). length m - c)") auto

declare skip_newlines.simps [simp del]

function scan_eol :: "string \<Rightarrow> nat \<Rightarrow> nat option option" where
  "scan_eol m c =
     (if c < length m
      then (if m ! c \<noteq> NUL \<and> \<not> is_nl (m ! c) then scan_eol m (Suc c)
            else if m ! c = NUL then Some None else Some (Some c))
      else None)"
  by auto
termination by (relation "measure (\<lambda>(m, c). length m - c)") auto

declare scan_eol.simps [simp del]

definition findNextEOL :: "string \<Rightarrow> nat \<Rightarrow> nat option option" where
  "findNextEOL m c = do {
     c0 \<leftarrow> rdc m c;
     prompt \<leftarrow> (if c0 = CHR ''>'' then do {
         c1 \<leftarrow> rdc m (c + 1);
         if c1 = CHR '' '' then do { c2 \<leftarrow> rdc m (c + 2); Some (c2 = NUL) } else Some False }
       else Some False);
     if prompt then Some (Some (c + 2)) else scan_eol m c }"

function strlen_at :: "string \<Rightarrow> nat \<Rightarrow> nat option" where
  "strlen_at m c =
     (if c < length m then (if m ! c = NUL then Some 0 else map_option Suc (strlen_at m (Suc c))) else None)"
  by auto
termination by (relation "measure (\<lambda>(m, c). length m - c)") auto

declare strlen_at.simps [simp del]

text \<open>One \<open>read\<close> into the buffer at \<open>p_read\<close>, and the search for the end of the line: the
  end, if there is one, the buffer, the new \<open>p_read\<close> and the blocks left.\<close>

definition read_block :: "reader \<Rightarrow> nat \<Rightarrow> string \<Rightarrow> string list \<Rightarrow> (nat option \<times> reader \<times> nat \<times> string list) option" where
  "read_block r p_read d ds =
     (let count = min (length d) (MAX_AT_RESPONSE - p_read);
          input' = (if count < length d then drop count d # ds else ds)
      in do {
        m1 \<leftarrow> wrs (mem r) p_read (take count d);
        m2 \<leftarrow> wrc m1 (p_read + count) NUL;
        c \<leftarrow> skip_newlines m2 (pos r);
        eol \<leftarrow> findNextEOL m2 c;
        Some (eol, \<lparr>mem = m2, pos = c\<rparr>, p_read + count, input') })"

text \<open>"Input line exceeded buffer": the buffer is emptied when there is no room left.\<close>

definition ditch :: "reader \<Rightarrow> nat \<Rightarrow> (reader \<times> nat) option" where
  "ditch r p_read = (if MAX_AT_RESPONSE - p_read = 0
     then do { m \<leftarrow> wrc (mem r) 0 NUL; Some (r\<lparr>mem := m, pos := 0\<rparr>, 0) }
     else Some (r, p_read))"

lemma ditch_room: "ditch r p = Some (r', p') \<Longrightarrow> p' < MAX_AT_RESPONSE"
  by (auto simp: ditch_def MAX_AT_RESPONSE_def split: if_splits bind_splits)

lemma read_block_consumes:
  "read_block r p d ds = Some (eol, r', p', input') \<Longrightarrow> p < MAX_AT_RESPONSE \<Longrightarrow> d \<noteq> [] \<Longrightarrow>
     sum_list (map length input') + length input' < sum_list (map length (d # ds)) + length (d # ds)"
  by (auto simp: read_block_def Let_def split: if_splits bind_splits)

text \<open>The \<open>while (p_eol == NULL)\<close> loop from \<open>p_read\<close>. The result is the index of the end of
  the line, \<open>None\<close> at the end of the channel, with the buffer and the blocks left.\<close>

function fill_loop :: "reader \<Rightarrow> nat \<Rightarrow> string list \<Rightarrow> (nat option \<times> reader \<times> string list) option" where
  "fill_loop r p_read input =
     (case ditch r p_read of None \<Rightarrow> None
      | Some (r1, p1) \<Rightarrow>
        (case input of
           [] \<Rightarrow> Some (None, r1, [])
         | d # ds \<Rightarrow>
            if d = [] then Some (None, r1, ds)
            else case read_block r1 p1 d ds of None \<Rightarrow> None
              | Some (eol, r2, p2, input') \<Rightarrow>
                 (case eol of Some e \<Rightarrow> Some (Some e, r2, input')
                  | None \<Rightarrow> fill_loop r2 p2 input')))"
  by auto
termination
  by (relation "measure (\<lambda>(r, p, input). sum_list (map length input) + length input)")
     (auto dest!: ditch_room read_block_consumes)

declare fill_loop.simps [simp del]

text \<open>The string that starts at \<open>i\<close>: up to the next NUL.\<close>

definition str_at :: "string \<Rightarrow> nat \<Rightarrow> string" where
  "str_at m i = takeWhile (\<lambda>c. c \<noteq> NUL) (drop i m)"

text \<open>The end of \<open>readline\<close>: the line end becomes NUL and the cursor goes behind it. The line
  is \<open>None\<close> where NULL is returned.\<close>

definition take_line :: "nat option \<times> reader \<times> string list \<Rightarrow> (string option \<times> reader \<times> string list) option" where
  "take_line out = (case out of (eol, r, input) \<Rightarrow>
     (case eol of
        None \<Rightarrow> Some (None, r, input)
      | Some e \<Rightarrow> do {
          m \<leftarrow> wrc (mem r) e NUL;
          Some (Some (str_at m (pos r)), \<lparr>mem = m, pos = e + 1\<rparr>, input) }))"

definition readline :: "reader \<Rightarrow> string list \<Rightarrow> (string option \<times> reader \<times> string list) option" where
  "readline r input = do {
     c0 \<leftarrow> rdc (mem r) (pos r);
     out \<leftarrow>
       (if c0 = NUL then do {
          m \<leftarrow> wrc (mem r) 0 NUL;
          fill_loop \<lparr>mem = m, pos = 0\<rparr> 0 input }
        else do {
          c \<leftarrow> skip_newlines (mem r) (pos r);
          eol \<leftarrow> findNextEOL (mem r) c;
          (case eol of
             Some e \<Rightarrow> Some (Some e, r\<lparr>pos := c\<rparr>, input)
           | None \<Rightarrow> do {
               len \<leftarrow> strlen_at (mem r) c;
               m \<leftarrow> wrs (mem r) 0 (take (len + 1) (drop c (mem r)));
               fill_loop \<lparr>mem = m, pos = 0\<rparr> len input }) });
     take_line out }"

text \<open>Calls of \<open>readline\<close> until it returns NULL, at most \<open>n\<close> of them.\<close>

primrec read_lines :: "nat \<Rightarrow> reader \<Rightarrow> string list \<Rightarrow> string list option" where
  "read_lines 0 r input = Some []"
| "read_lines (Suc n) r input = do {
     (line, r', input') \<leftarrow> readline r input;
     (case line of None \<Rightarrow> Some []
      | Some l \<Rightarrow> do { ls \<leftarrow> read_lines n r' input'; Some (l # ls) }) }"

definition initial_reader :: reader where
  "initial_reader = \<lparr>mem = replicate MAX_AT_RESPONSE NUL, pos = 0\<rparr>"

section \<open>The text, as a specification\<close>

abbreviation not_nl :: "char \<Rightarrow> bool" where "not_nl c \<equiv> \<not> is_nl c"

text \<open>The complete lines of a text: runs of line ends separate them, and what follows the
  last line end is not a line yet.\<close>

function lines_of :: "string \<Rightarrow> string list" where
  "lines_of t =
     (let s = dropWhile is_nl t; r = dropWhile not_nl s
      in if r = [] then [] else takeWhile not_nl s # lines_of (tl r))"
  by auto
termination
proof (relation "measure length", simp)
  fix t s r
  assume s: "s = dropWhile is_nl t" and r: "r = dropWhile not_nl s" "r \<noteq> []"
  have "length r \<le> length t"
    unfolding r s using length_dropWhile_le le_trans by blast
  with r(2) show "(tl r, t) \<in> measure length" by (cases r) simp_all
qed

declare lines_of.simps [simp del]

text \<open>The longest run of line ends followed by one line, anywhere in the text, has at most
  \<open>M\<close> characters.\<close>

definition head_block :: "string \<Rightarrow> nat" where
  "head_block t = length (takeWhile is_nl t) + length (takeWhile not_nl (dropWhile is_nl t))"

fun blocks_ok :: "nat \<Rightarrow> string \<Rightarrow> bool" where
  "blocks_ok M [] = True"
| "blocks_ok M (c # t) = (head_block (c # t) \<le> M \<and> blocks_ok M t)"

section \<open>The primitives on a laid-out buffer\<close>

lemma NUL_not_nl [simp]: "\<not> is_nl NUL"
  by (simp add: NUL_def is_nl_def)

lemma rdc_at: "rdc (pre @ c # rest) (length pre) = Some c"
  by (simp add: rdc_def)

lemma wrc_at: "wrc (pre @ c # rest) (length pre) d = Some (pre @ d # rest)"
  by (simp add: wrc_def)

lemma skip_newlines_at:
  "NUL \<notin> set p \<Longrightarrow> skip_newlines (pre @ p @ NUL # rest) (length pre)
     = Some (length pre + length (takeWhile is_nl p))"
proof (induction p arbitrary: pre)
  case Nil
  then show ?case by (subst skip_newlines.simps) simp
next
  case (Cons c p)
  show ?case
  proof (cases "is_nl c")
    case True
    with Cons.IH [of "pre @ [c]"] Cons.prems show ?thesis
      by (subst skip_newlines.simps) simp
  next
    case False
    then show ?thesis by (subst skip_newlines.simps) simp
  qed
qed

lemma scan_eol_at:
  "NUL \<notin> set p \<Longrightarrow> scan_eol (pre @ p @ NUL # rest) (length pre)
     = Some (if dropWhile not_nl p = [] then None else Some (length pre + length (takeWhile not_nl p)))"
proof (induction p arbitrary: pre)
  case Nil
  then show ?case by (subst scan_eol.simps) simp
next
  case (Cons c p)
  show ?case
  proof (cases "is_nl c")
    case True
    with Cons.prems show ?thesis by (subst scan_eol.simps) auto
  next
    case False
    with Cons.IH [of "pre @ [c]"] Cons.prems show ?thesis
      by (subst scan_eol.simps) auto
  qed
qed

lemma findNextEOL_at:
  assumes "NUL \<notin> set p" "CHR ''>'' \<notin> set p"
  shows "findNextEOL (pre @ p @ NUL # rest) (length pre)
     = Some (if dropWhile not_nl p = [] then None else Some (length pre + length (takeWhile not_nl p)))"
proof -
  obtain c q where c: "p @ NUL # rest = c # q" "c \<noteq> CHR ''>''"
    using assms(2) by (cases p) (auto simp: NUL_def)
  then show ?thesis
    using scan_eol_at [OF assms(1), of pre rest] by (simp add: findNextEOL_def rdc_at)
qed

lemma strlen_at_at:
  "NUL \<notin> set p \<Longrightarrow> strlen_at (pre @ p @ NUL # rest) (length pre) = Some (length p)"
proof (induction p arbitrary: pre)
  case Nil
  then show ?case by (subst strlen_at.simps) simp
next
  case (Cons c p)
  with Cons.IH [of "pre @ [c]"] show ?case by (subst strlen_at.simps) auto
qed

lemma str_at_at: "NUL \<notin> set p \<Longrightarrow> str_at (pre @ p @ NUL # rest) (length pre) = p"
  by (simp add: str_at_def takeWhile_hit)

section \<open>The loop delivers the next line\<close>

definition clean :: "string \<Rightarrow> bool" where
  "clean s \<longleftrightarrow> NUL \<notin> set s \<and> CHR ''>'' \<notin> set s"

lemma clean_append [simp]: "clean (a @ b) \<longleftrightarrow> clean a \<and> clean b"
  by (auto simp: clean_def)

lemma clean_dropWhile [intro]: "clean s \<Longrightarrow> clean (dropWhile P s)"
  by (auto simp: clean_def dest: set_dropWhileD)

lemma clean_takeWhile [intro]: "clean s \<Longrightarrow> clean (takeWhile P s)"
  by (auto simp: clean_def dest: set_takeWhileD)

lemma dropWhile_dropWhile_append: "dropWhile P (dropWhile P q @ z) = dropWhile P (q @ z)"
  by (induction q) auto

lemma takeWhile_hit_append: "dropWhile P q \<noteq> [] \<Longrightarrow> takeWhile P (q @ z) = takeWhile P q"
  by (induction q) auto

lemma dropWhile_hit_append: "dropWhile P q \<noteq> [] \<Longrightarrow> dropWhile P (q @ z) = dropWhile P q @ z"
  by (induction q) auto

lemma length_takeWhile_append: "length (takeWhile P q) \<le> length (takeWhile P (q @ z))"
  by (induction q) auto

lemma head_block_ge:
  assumes "\<forall>c \<in> set pre. is_nl c" "\<forall>c \<in> set p. \<not> is_nl c"
  shows "length pre + length p \<le> head_block (pre @ p @ z)"
proof (cases p)
  case Nil
  with assms show ?thesis by (simp add: head_block_def)
next
  case (Cons c q)
  with assms have "takeWhile is_nl (pre @ p @ z) = pre" "dropWhile is_nl (pre @ p @ z) = p @ z"
    by simp_all
  moreover have "takeWhile not_nl p = p" using assms(2) by simp
  ultimately show ?thesis
    using length_takeWhile_append [of not_nl p z] by (simp add: head_block_def)
qed

text \<open>What the loop leaves behind when the unread text is \<open>t\<close>.\<close>

definition filled :: "string \<Rightarrow> string list \<Rightarrow> nat option \<times> reader \<times> string list \<Rightarrow> bool" where
  "filled t input out = (case out of (eol, r, input') \<Rightarrow>
     (let s = dropWhile is_nl t; l = takeWhile not_nl s in
      if dropWhile not_nl s = [] then eol = None
      else \<exists>pre x tail rest. eol = Some (length pre + length l) \<and> pos r = length pre \<and>
        mem r = pre @ l @ x # tail @ NUL # rest \<and> length (mem r) = MAX_AT_RESPONSE \<and>
        x # tail @ concat input' = dropWhile not_nl s \<and> clean tail \<and> set input' \<subseteq> set input))"

lemma filledI:
  assumes "s = dropWhile is_nl t" "l = takeWhile not_nl s" "x # tail @ concat input' = dropWhile not_nl s"
    and "pos r = length pre" "mem r = pre @ l @ x # tail @ NUL # rest" "length (mem r) = MAX_AT_RESPONSE"
    and "clean tail" "set input' \<subseteq> set input" "e = length pre + length l"
  shows "filled t input (Some e, r, input')"
proof -
  have "dropWhile not_nl s \<noteq> []" using assms(3) by (metis list.distinct(1))
  with assms show ?thesis
    unfolding filled_def Let_def prod.case by (simp del: dropWhile_eq_Nil_conv) blast
qed

lemma filled_now:
  assumes "t = q @ concat ds" "dropWhile not_nl (dropWhile is_nl q) \<noteq> []" "clean q"
    and "length (pre @ q @ NUL # rest) = MAX_AT_RESPONSE" "set ds \<subseteq> set input"
  shows "filled t input
    (Some (length (pre @ takeWhile is_nl q) + length (takeWhile not_nl (dropWhile is_nl q))),
     \<lparr>mem = pre @ q @ NUL # rest, pos = length (pre @ takeWhile is_nl q)\<rparr>, ds)"
proof -
  have ne: "dropWhile is_nl q \<noteq> []" using assms(2) by (metis dropWhile.simps(1))
  have s: "dropWhile is_nl t = dropWhile is_nl q @ concat ds"
    using dropWhile_hit_append [OF ne, of "concat ds"] assms(1) by simp
  obtain x tail where x: "dropWhile not_nl (dropWhile is_nl q) = x # tail"
    using assms(2) by (meson list.exhaust)
  have q: "q = takeWhile is_nl q @ takeWhile not_nl (dropWhile is_nl q) @ x # tail"
    unfolding x [symmetric] by simp
  have "clean (x # tail)" unfolding x [symmetric] using assms(3) by blast
  then have "clean tail" by (simp add: clean_def)
  moreover have "pre @ q @ NUL # rest = (pre @ takeWhile is_nl q) @ takeWhile not_nl (dropWhile is_nl q) @ x # tail @ NUL # rest"
    using arg_cong [OF q, of "\<lambda>q. pre @ q @ NUL # rest"] by simp
  moreover have "takeWhile not_nl (dropWhile is_nl q @ concat ds) = takeWhile not_nl (dropWhile is_nl q)"
    by (rule takeWhile_hit_append [OF assms(2)])
  moreover have "dropWhile not_nl (dropWhile is_nl q @ concat ds) = x # tail @ concat ds"
    using dropWhile_hit_append [OF assms(2), of "concat ds"] x by simp
  ultimately show ?thesis
    by (intro filledI [OF s [symmetric], of _ x tail _ _ "pre @ takeWhile is_nl q" rest])
       (simp_all add: assms(4) [simplified] assms(5))
qed

lemma fill_step:
  assumes "length pre + length p + length d < MAX_AT_RESPONSE" "d \<noteq> []" "clean (p @ d)"
    and "length (pre @ p @ NUL # rest) = MAX_AT_RESPONSE"
  obtains rest' where "length (pre @ (p @ d) @ NUL # rest') = MAX_AT_RESPONSE"
    and "fill_loop \<lparr>mem = pre @ p @ NUL # rest, pos = length pre\<rparr> (length pre + length p) (d # ds) =
      (let q = p @ d; r = \<lparr>mem = pre @ q @ NUL # rest', pos = length (pre @ takeWhile is_nl q)\<rparr> in
       if dropWhile not_nl (dropWhile is_nl q) = []
       then fill_loop r (length pre + length q) ds
       else Some (Some (length (pre @ takeWhile is_nl q) + length (takeWhile not_nl (dropWhile is_nl q))), r, ds))"
proof -
  obtain y rest' where y: "drop (length d) (NUL # rest) = y # rest'"
    using assms(1,4) by (cases "drop (length d) (NUL # rest)") auto
  have len: "length (pre @ (p @ d) @ NUL # rest') = MAX_AT_RESPONSE"
    using assms(1,4) arg_cong [OF y, of length] by simp
  let ?q = "p @ d"
  have cq: "NUL \<notin> set ?q" using assms(3) by (simp add: clean_def)
  have cdq: "clean (dropWhile is_nl ?q)" using assms(3) by (rule clean_dropWhile)
  have w: "wrs (pre @ p @ NUL # rest) (length pre + length p) d = Some (pre @ ?q @ y # rest')"
    using assms(1,4) y by (simp add: wrs_def)
  have w2: "wrc (pre @ ?q @ y # rest') (length pre + length p + length d) NUL = Some (pre @ ?q @ NUL # rest')"
    using wrc_at [of "pre @ ?q" y rest' NUL] by (simp add: add.assoc)
  have sk: "skip_newlines (pre @ ?q @ NUL # rest') (length pre) = Some (length (pre @ takeWhile is_nl ?q))"
    using skip_newlines_at [OF cq, of pre rest'] by simp
  have split: "pre @ ?q @ NUL # rest' = (pre @ takeWhile is_nl ?q) @ dropWhile is_nl ?q @ NUL # rest'"
    by (metis append.assoc takeWhile_dropWhile_id)
  have eol: "findNextEOL (pre @ ?q @ NUL # rest') (length (pre @ takeWhile is_nl ?q)) =
      Some (if dropWhile not_nl (dropWhile is_nl ?q) = [] then None
            else Some (length (pre @ takeWhile is_nl ?q) + length (takeWhile not_nl (dropWhile is_nl ?q))))"
    unfolding split by (rule findNextEOL_at) (use cdq in \<open>simp_all add: clean_def\<close>)
  have cnt: "min (length d) (MAX_AT_RESPONSE - (length pre + length p)) = length d"
    using assms(1) by simp
  have "ditch \<lparr>mem = pre @ p @ NUL # rest, pos = length pre\<rparr> (length pre + length p)
      = Some (\<lparr>mem = pre @ p @ NUL # rest, pos = length pre\<rparr>, length pre + length p)"
    using assms(1) by (simp add: ditch_def)
  moreover have "read_block \<lparr>mem = pre @ p @ NUL # rest, pos = length pre\<rparr> (length pre + length p) d ds =
      Some (if dropWhile not_nl (dropWhile is_nl ?q) = [] then None
            else Some (length (pre @ takeWhile is_nl ?q) + length (takeWhile not_nl (dropWhile is_nl ?q))),
        \<lparr>mem = pre @ ?q @ NUL # rest', pos = length (pre @ takeWhile is_nl ?q)\<rparr>, length pre + length ?q, ds)"
    unfolding read_block_def cnt Let_def
    using w w2 sk eol by simp
  ultimately show thesis
    by (intro that [OF len], subst fill_loop.simps) (simp add: assms(2) Let_def del: dropWhile_eq_Nil_conv)
qed

text \<open>The condition under which nothing is lost: blocks of at most \<open>K\<close> characters, lines of at
  most \<open>M\<close> with the line ends before them, and room for both.\<close>

definition delivery_ok :: "nat \<Rightarrow> nat \<Rightarrow> string list \<Rightarrow> bool" where
  "delivery_ok K M input \<longleftrightarrow> M + K < MAX_AT_RESPONSE \<and> clean (concat input) \<and>
     (\<forall>d \<in> set input. d \<noteq> [] \<and> length d \<le> K)"

lemma delivery_ok_Cons:
  "delivery_ok K M (d # ds) \<longleftrightarrow> delivery_ok K M ds \<and> clean d \<and> d \<noteq> [] \<and> length d \<le> K"
  by (auto simp: delivery_ok_def)

lemma filled_mono: "filled t input out \<Longrightarrow> set input \<subseteq> set input2 \<Longrightarrow> filled t input2 out"
  unfolding filled_def by (auto simp: Let_def split: if_splits) blast+

lemma fill_loop_reads:
  assumes "delivery_ok K M input" and "clean p"
    and "\<forall>c \<in> set pre. is_nl c" and "\<forall>c \<in> set p. \<not> is_nl c"
    and "length (pre @ p @ NUL # rest) = MAX_AT_RESPONSE"
    and "head_block (pre @ p @ concat input) \<le> M"
  shows "\<exists>out. fill_loop \<lparr>mem = pre @ p @ NUL # rest, pos = length pre\<rparr> (length pre + length p) input = Some out
     \<and> filled (p @ concat input) input out"
  using assms
proof (induction input arbitrary: pre p rest)
  case Nil
  then have "dropWhile not_nl (dropWhile is_nl p) = []"
    by (metis dropWhile_eq_Nil_conv set_dropWhileD)
  moreover have "ditch \<lparr>mem = pre @ p @ NUL # rest, pos = length pre\<rparr> (length pre + length p)
      = Some (\<lparr>mem = pre @ p @ NUL # rest, pos = length pre\<rparr>, length pre + length p)"
    using Nil.prems(5) by (simp add: ditch_def)
  ultimately show ?case
    by (subst fill_loop.simps) (simp add: filled_def Let_def del: dropWhile_eq_Nil_conv)
next
  case (Cons d ds)
  let ?q = "p @ d"
  have d: "delivery_ok K M ds" "d \<noteq> []" "clean ?q" "length d \<le> K" "M + K < MAX_AT_RESPONSE"
    using Cons.prems(1,2) by (auto simp: delivery_ok_Cons delivery_ok_def)
  have "length pre + length p \<le> M"
    using head_block_ge [OF Cons.prems(3,4), of "concat (d # ds)"] Cons.prems(6) by linarith
  with d have room: "length pre + length p + length d < MAX_AT_RESPONSE" by linarith
  obtain rest' where len: "length (pre @ ?q @ NUL # rest') = MAX_AT_RESPONSE"
    and step: "fill_loop \<lparr>mem = pre @ p @ NUL # rest, pos = length pre\<rparr> (length pre + length p) (d # ds) =
      (let q = p @ d; r = \<lparr>mem = pre @ q @ NUL # rest', pos = length (pre @ takeWhile is_nl q)\<rparr> in
       if dropWhile not_nl (dropWhile is_nl q) = []
       then fill_loop r (length pre + length q) ds
       else Some (Some (length (pre @ takeWhile is_nl q) + length (takeWhile not_nl (dropWhile is_nl q))), r, ds))"
    by (rule fill_step [OF room d(2,3) Cons.prems(5)])
  show ?case
  proof (cases "dropWhile not_nl (dropWhile is_nl ?q) = []")
    case False
    have "filled (p @ concat (d # ds)) (d # ds)
      (Some (length (pre @ takeWhile is_nl ?q) + length (takeWhile not_nl (dropWhile is_nl ?q))),
       \<lparr>mem = pre @ ?q @ NUL # rest', pos = length (pre @ takeWhile is_nl ?q)\<rparr>, ds)"
      by (rule filled_now [OF _ False d(3) len]) auto
    with step False show ?thesis by (simp add: Let_def del: dropWhile_eq_Nil_conv)
  next
    case True
    let ?pre = "pre @ takeWhile is_nl ?q" and ?p = "dropWhile is_nl ?q"
    have eq: "?pre @ ?p @ s = pre @ ?q @ s" for s
      by (metis append.assoc takeWhile_dropWhile_id)
    have "\<exists>out. fill_loop \<lparr>mem = ?pre @ ?p @ NUL # rest', pos = length ?pre\<rparr> (length ?pre + length ?p) ds = Some out
        \<and> filled (?p @ concat ds) ds out"
    proof (rule Cons.IH [OF d(1)])
      show "clean ?p" using d(3) by (rule clean_dropWhile)
      show "\<forall>c \<in> set ?pre. is_nl c" using Cons.prems(3) by (auto dest: set_takeWhileD)
      show "\<forall>c \<in> set ?p. \<not> is_nl c" using True by (simp only: dropWhile_eq_Nil_conv)
      show "length (?pre @ ?p @ NUL # rest') = MAX_AT_RESPONSE" unfolding eq by (rule len)
      show "head_block (?pre @ ?p @ concat ds) \<le> M" unfolding eq using Cons.prems(6) by simp
    qed
    then obtain out where out: "fill_loop \<lparr>mem = ?pre @ ?p @ NUL # rest', pos = length ?pre\<rparr> (length ?pre + length ?p) ds = Some out"
      "filled (?p @ concat ds) ds out" by blast
    have "filled (p @ concat (d # ds)) (d # ds) out"
    proof -
      have "dropWhile is_nl (?p @ concat ds) = dropWhile is_nl (p @ concat (d # ds))"
        using dropWhile_dropWhile_append [of is_nl ?q "concat ds"] by simp
      with out(2) have "filled (p @ concat (d # ds)) ds out" by (simp add: filled_def)
      then show ?thesis by (rule filled_mono) auto
    qed
    moreover have lq: "length ?pre + length ?p = length pre + length ?q"
      by (metis add.assoc length_append takeWhile_dropWhile_id)
    moreover note out(1) [unfolded eq lq]
    moreover note step [unfolded Let_def if_P [OF True]]
    ultimately show ?thesis by metis
  qed
qed

section \<open>Calls of readline\<close>

definition holds_text :: "reader \<Rightarrow> string \<Rightarrow> bool" where
  "holds_text r p \<longleftrightarrow> (\<exists>pre rest. mem r = pre @ p @ NUL # rest \<and> pos r = length pre \<and>
     length (mem r) = MAX_AT_RESPONSE \<and> clean p)"

lemma blocks_ok_suffix: "blocks_ok M (a @ b) \<Longrightarrow> blocks_ok M b"
  by (induction a) auto

lemma blocks_ok_head: "blocks_ok M t \<Longrightarrow> head_block t \<le> M"
  by (cases t) (simp_all add: head_block_def)

lemma filledE:
  assumes "filled t input (eol, r, input')" "dropWhile not_nl (dropWhile is_nl t) \<noteq> []"
  obtains pre x tail rest where "eol = Some (length pre + length (takeWhile not_nl (dropWhile is_nl t)))"
    "pos r = length pre" "mem r = pre @ takeWhile not_nl (dropWhile is_nl t) @ x # tail @ NUL # rest"
    "length (mem r) = MAX_AT_RESPONSE" "x # tail @ concat input' = dropWhile not_nl (dropWhile is_nl t)"
    "clean tail" "set input' \<subseteq> set input"
  using assms(1) unfolding filled_def Let_def prod.case if_not_P [OF assms(2)] by blast

lemma filled_outcome:
  assumes "filled t input (eol, r, input')" "delivery_ok K M input" "clean t"
  shows "let s = dropWhile is_nl t in
     if dropWhile not_nl s = [] then \<exists>r'. take_line (eol, r, input') = Some (None, r', input')
     else \<exists>r' tail. take_line (eol, r, input') = Some (Some (takeWhile not_nl s), r', input') \<and> holds_text r' tail \<and>
        tail @ concat input' = tl (dropWhile not_nl s) \<and> delivery_ok K M input'"
proof (cases "dropWhile not_nl (dropWhile is_nl t) = []")
  case True
  with assms(1) show ?thesis by (simp add: filled_def Let_def take_line_def)
next
  case False
  let ?l = "takeWhile not_nl (dropWhile is_nl t)"
  obtain pre x tail rest where f: "eol = Some (length pre + length ?l)" "pos r = length pre"
    "mem r = pre @ ?l @ x # tail @ NUL # rest" "length (mem r) = MAX_AT_RESPONSE"
    "x # tail @ concat input' = dropWhile not_nl (dropWhile is_nl t)" "clean tail" "set input' \<subseteq> set input"
    by (rule filledE [OF assms(1) False])
  have "NUL \<notin> set ?l" using assms(3) by (auto simp: clean_def dest!: set_takeWhileD set_dropWhileD)
  have w: "wrc (mem r) (length pre + length ?l) NUL = Some (pre @ ?l @ NUL # tail @ NUL # rest)"
    using wrc_at [of "pre @ ?l" x "tail @ NUL # rest" NUL] f(3) by simp
  have s: "str_at (pre @ ?l @ NUL # tail @ NUL # rest) (length pre) = ?l"
    by (rule str_at_at [OF \<open>NUL \<notin> set ?l\<close>])
  have h: "holds_text \<lparr>mem = pre @ ?l @ NUL # tail @ NUL # rest, pos = length pre + length ?l + 1\<rparr> tail"
    unfolding holds_text_def
    using f(3,4,6) by (intro exI [of _ "pre @ ?l @ [NUL]"] exI [of _ rest]) simp
  have "delivery_ok K M input'"
    using assms(2) f(7) unfolding delivery_ok_def by (auto simp: clean_def)
  moreover have "tail @ concat input' = tl (dropWhile not_nl (dropWhile is_nl t))"
    using f(5) by (metis list.sel(3))
  ultimately show ?thesis
    using False w s h f(1,2) by (simp add: Let_def take_line_def del: dropWhile_eq_Nil_conv) blast
qed

lemma readline_reads:
  assumes "delivery_ok K M input" "holds_text r p" "blocks_ok M (p @ concat input)"
  defines "s \<equiv> dropWhile is_nl (p @ concat input)"
  shows "if dropWhile not_nl s = [] then \<exists>r' input'. readline r input = Some (None, r', input')
     else \<exists>r' input' tail. readline r input = Some (Some (takeWhile not_nl s), r', input') \<and> holds_text r' tail \<and>
        tail @ concat input' = tl (dropWhile not_nl s) \<and> delivery_ok K M input'"
proof -
  obtain pre rest where r: "mem r = pre @ p @ NUL # rest" "pos r = length pre"
    "length (mem r) = MAX_AT_RESPONSE" "clean p"
    using assms(2) by (auto simp: holds_text_def)
  have t: "clean (p @ concat input)" using assms(1) r(4) by (auto simp: delivery_ok_def)
  have "\<exists>out. filled (p @ concat input) input out \<and> readline r input = take_line out"
  proof (cases "p = []")
    case True
    have "mem r \<noteq> []" using r(1) by simp
    then obtain y m where y: "mem r = y # m" by (meson list.exhaust)
    have w: "wrc (y # m) 0 NUL = Some (NUL # m)" by (simp add: wrc_def)
    have "length ([] @ [] @ NUL # m) = MAX_AT_RESPONSE" using r(3) y by simp
    moreover have "head_block ([] @ [] @ concat input) \<le> M"
      using assms(3) True blocks_ok_head by simp
    ultimately obtain out where "fill_loop \<lparr>mem = NUL # m, pos = 0\<rparr> 0 input = Some out" "filled (concat input) input out"
      using fill_loop_reads [OF assms(1), of "[]" "[]" m] by (auto simp: clean_def)
    moreover have "rdc (mem r) (pos r) = Some NUL" using r(1,2) True rdc_at [of pre NUL rest] by simp
    ultimately show ?thesis
      using True w y by (intro exI [of _ out]) (simp add: readline_def)
  next
    case False
    then obtain c0 q where p: "p = c0 # q" by (cases p) auto
    let ?pre = "pre @ takeWhile is_nl p" and ?p = "dropWhile is_nl p"
    have "c0 \<noteq> NUL" using r(4) p by (auto simp: clean_def)
    moreover have "rdc (mem r) (pos r) = Some c0" using r(1,2) p rdc_at [of pre c0 "q @ NUL # rest"] by simp
    moreover have sk: "skip_newlines (mem r) (pos r) = Some (length ?pre)"
      using skip_newlines_at [of p pre rest] r by (simp add: clean_def)
    moreover have eq: "mem r = ?pre @ ?p @ NUL # rest"
      unfolding r(1) by (metis append.assoc takeWhile_dropWhile_id)
    have cp: "NUL \<notin> set ?p" "CHR ''>'' \<notin> set ?p" using clean_dropWhile [OF r(4)] by (simp_all add: clean_def)
    moreover have eol: "findNextEOL (mem r) (length ?pre) =
        Some (if dropWhile not_nl ?p = [] then None else Some (length ?pre + length (takeWhile not_nl ?p)))"
      unfolding eq by (rule findNextEOL_at [OF cp])
    ultimately have rl: "readline r input =
        do { out \<leftarrow> (case (if dropWhile not_nl ?p = [] then None else Some (length ?pre + length (takeWhile not_nl ?p))) of
           Some e \<Rightarrow> Some (Some e, r\<lparr>pos := length ?pre\<rparr>, input)
         | None \<Rightarrow> do { len \<leftarrow> strlen_at (mem r) (length ?pre);
             m \<leftarrow> wrs (mem r) 0 (take (len + 1) (drop (length ?pre) (mem r)));
             fill_loop \<lparr>mem = m, pos = 0\<rparr> len input });
          take_line out }"
      by (simp add: readline_def del: dropWhile_eq_Nil_conv)
    show ?thesis
    proof (cases "dropWhile not_nl ?p = []")
      case no_eol: False
      have f: "filled (p @ concat input) input
        (Some (length ?pre + length (takeWhile not_nl ?p)), \<lparr>mem = pre @ p @ NUL # rest, pos = length ?pre\<rparr>, input)"
        by (rule filled_now [OF refl no_eol r(4) r(3) [unfolded r(1)] order_refl])
      show ?thesis
        unfolding rl if_not_P [OF no_eol]
        by (rule exI, rule conjI [OF f]) (cases r, use r(1) in simp)
    next
      case no_line: True
      let ?m = "?p @ NUL # drop (length ?p + 1) (mem r)"
      have len: "length ?p + 1 \<le> length (mem r)" unfolding eq by simp
      have sl: "strlen_at (mem r) (length ?pre) = Some (length ?p)"
        unfolding eq by (rule strlen_at_at [OF cp(1)])
      have tk: "take (length ?p + 1) (drop (length ?pre) (mem r)) = ?p @ [NUL]"
        unfolding eq by simp
      have w: "wrs (mem r) 0 (?p @ [NUL]) = Some ?m" using len by (simp add: wrs_def)
      have "\<exists>out. fill_loop \<lparr>mem = [] @ ?m, pos = length ([] :: string)\<rparr> (length ([] :: string) + length ?p) input = Some out
          \<and> filled (?p @ concat input) input out"
      proof (rule fill_loop_reads [OF assms(1), where pre = "[]" and p = ?p])
        show "clean ?p" using r(4) by (rule clean_dropWhile)
        show "\<forall>c \<in> set ?p. \<not> is_nl c" using no_line by (simp only: dropWhile_eq_Nil_conv)
        show "length ([] @ ?m) = MAX_AT_RESPONSE" using len r(3) by simp
        have "blocks_ok M (?p @ concat input)"
          by (rule blocks_ok_suffix [of M "takeWhile is_nl p"])
             (simp only: append.assoc [symmetric] takeWhile_dropWhile_id assms(3))
        then show "head_block ([] @ ?p @ concat input) \<le> M" by (simp add: blocks_ok_head)
      qed simp
      then obtain eol r1 input1 where out: "fill_loop \<lparr>mem = ?m, pos = 0\<rparr> (length ?p) input = Some (eol, r1, input1)"
        "filled (?p @ concat input) input (eol, r1, input1)" by auto
      then have f: "filled (p @ concat input) input (eol, r1, input1)"
        using dropWhile_dropWhile_append [of is_nl p "concat input"] by (simp add: filled_def)
      have "readline r input = take_line (eol, r1, input1)"
        unfolding rl if_P [OF no_line] option.case sl bind.bind_lunit tk w out(1) prod.case ..
      with f show ?thesis by blast
    qed
  qed
  then obtain eol r1 input1 where out: "filled (p @ concat input) input (eol, r1, input1)"
    "readline r input = take_line (eol, r1, input1)" by (metis prod_cases3)
  show ?thesis
  proof (cases "dropWhile not_nl s = []")
    case True
    with filled_outcome [OF out(1) assms(1) t] show ?thesis
      unfolding s_def Let_def if_P [OF True [unfolded s_def]] out(2) by blast
  next
    case False
    with filled_outcome [OF out(1) assms(1) t] show ?thesis
      unfolding s_def Let_def if_not_P [OF False [unfolded s_def]] out(2) by blast
  qed
qed

lemma holds_text_initial: "holds_text initial_reader []"
proof -
  have "MAX_AT_RESPONSE = Suc (MAX_AT_RESPONSE - 1)" by (simp add: MAX_AT_RESPONSE_def)
  then have "replicate MAX_AT_RESPONSE NUL = [] @ [] @ NUL # replicate (MAX_AT_RESPONSE - 1) NUL"
    by (metis append_Nil replicate_Suc)
  then show ?thesis
    unfolding holds_text_def initial_reader_def
    by (intro exI [of _ "[]"] exI [of _ "replicate (MAX_AT_RESPONSE - 1) NUL"]) (simp add: clean_def MAX_AT_RESPONSE_def)
qed

lemma read_lines_reads:
  assumes "delivery_ok K M input" "holds_text r p" "blocks_ok M (p @ concat input)"
    and "length (p @ concat input) < n"
  shows "read_lines n r input = Some (lines_of (p @ concat input))"
  using assms
proof (induction n arbitrary: r p input)
  case 0
  then show ?case by simp
next
  case (Suc n)
  let ?t = "p @ concat input"
  let ?s = "dropWhile is_nl ?t"
  note rd = readline_reads [OF Suc.prems(1-3)]
  show ?case
  proof (cases "dropWhile not_nl ?s = []")
    case True
    obtain r' input' where "readline r input = Some (None, r', input')"
      using rd [unfolded if_P [OF True]] by blast
    with True show ?thesis by (subst lines_of.simps) (simp add: Let_def del: dropWhile_eq_Nil_conv)
  next
    case False
    obtain r' input' tail where r': "readline r input = Some (Some (takeWhile not_nl ?s), r', input')"
      "holds_text r' tail" "tail @ concat input' = tl (dropWhile not_nl ?s)" "delivery_ok K M input'"
      using rd [unfolded if_not_P [OF False]] by blast
    obtain x where x: "dropWhile not_nl ?s = x # tail @ concat input'"
      using False r'(3) by (metis list.exhaust_sel)
    have t: "?t = (takeWhile is_nl ?t @ takeWhile not_nl ?s @ [x]) @ tail @ concat input'"
      using x by (metis append.assoc append_Cons append_Nil takeWhile_dropWhile_id)
    have b: "blocks_ok M (tail @ concat input')"
      using Suc.prems(3) t by (metis blocks_ok_suffix)
    have "length (tail @ concat input') < n"
      using Suc.prems(4) arg_cong [OF t, of length] by simp
    from Suc.IH [OF r'(4) r'(2) b this]
    have "read_lines n r' input' = Some (lines_of (tail @ concat input'))" .
    then show ?thesis
      using False r'(1) x by (subst lines_of.simps) (simp add: Let_def del: dropWhile_eq_Nil_conv)
  qed
qed

section \<open>Properties\<close>


definition crlf :: string where "crlf = [CHR 0x0D, CHR 0x0A]"


text \<open>When the modem sends so much that one \<open>read\<close> fills the empty buffer, the NUL that
  ends the text is written one byte behind it: the room given to \<open>read\<close> leaves none for it.\<close>

theorem readline_full_block_overflows:
  assumes "4096 \<le> length d"
  shows "readline initial_reader (d # ds) = None"
proof -
  let ?m = "replicate MAX_AT_RESPONSE NUL"
  have room: "MAX_AT_RESPONSE - 0 \<noteq> 0" "0 < MAX_AT_RESPONSE" by (simp_all add: MAX_AT_RESPONSE_def)
  have init: "rdc ?m 0 = Some NUL" "wrc ?m 0 NUL = Some ?m"
    using room by (simp_all add: rdc_def wrc_def list_update_same_conv)
  have "min (length d) (MAX_AT_RESPONSE - 0) = MAX_AT_RESPONSE" "d \<noteq> []"
    using assms by (auto simp: MAX_AT_RESPONSE_def)
  moreover have "wrs ?m 0 (take MAX_AT_RESPONSE d) = Some (take MAX_AT_RESPONSE d)"
    using assms by (simp add: wrs_def MAX_AT_RESPONSE_def)
  moreover have "wrc (take MAX_AT_RESPONSE d) (0 + MAX_AT_RESPONSE) NUL = None"
    by (simp add: wrc_def)
  ultimately have "read_block \<lparr>mem = ?m, pos = 0\<rparr> 0 d ds = None"
    by (simp add: read_block_def Let_def)
  then have "fill_loop \<lparr>mem = ?m, pos = 0\<rparr> 0 (d # ds) = None"
    using room \<open>d \<noteq> []\<close> by (subst fill_loop.simps) (simp add: ditch_def)
  then show ?thesis using init by (simp add: readline_def initial_reader_def)
qed

theorem readline_full_block_overflows_witness:
  "readline initial_reader [replicate 4096 CHR ''A''] = None"
  by (rule readline_full_block_overflows) simp

lemma readline_prompt:
  assumes "mem r = NUL # a # b # z" "pos r = 0"
  shows "readline r (''> '' # input) = Some (Some ''> '', \<lparr>mem = ''> '' @ NUL # z, pos = 3\<rparr>, input)"
proof -
  have r: "r = \<lparr>mem = NUL # a # b # z, pos = 0\<rparr>" using assms by (cases r) simp
  have "skip_newlines (CHR ''>'' # CHR '' '' # NUL # z) 0 = Some 0"
    using skip_newlines_at [of "''> ''" "[]" z] by (simp add: NUL_def is_nl_def)
  then have "read_block r 0 ''> '' input = Some (Some 2, \<lparr>mem = ''> '' @ NUL # z, pos = 0\<rparr>, 2, input)"
    unfolding r by (simp add: read_block_def wrs_def wrc_def MAX_AT_RESPONSE_def findNextEOL_def rdc_def)
  then have "fill_loop r 0 (''> '' # input) = Some (Some 2, \<lparr>mem = ''> '' @ NUL # z, pos = 0\<rparr>, input)"
    by (subst fill_loop.simps) (simp add: ditch_def MAX_AT_RESPONSE_def)
  moreover have "take_line (Some 2, \<lparr>mem = ''> '' @ NUL # z, pos = 0\<rparr>, input)
      = Some (Some ''> '', \<lparr>mem = ''> '' @ NUL # z, pos = 3\<rparr>, input)"
    using str_at_at [of "''> ''" "[]" z] by (simp add: take_line_def wrc_def NUL_def)
  ultimately show ?thesis
    unfolding r by (simp add: readline_def rdc_def wrc_def)
qed

text \<open>After the SMS prompt the cursor stands one byte behind the NUL that ended the
  text. If an earlier line left characters there, the reader takes them for the start of
  the modem's next line: from then on it returns the lines of a text the modem never sent.\<close>

theorem prompt_leaves_stale_text:
  assumes "mem r = NUL # a # b # w @ NUL # rest" "pos r = 0" "length (mem r) = MAX_AT_RESPONSE" "clean w"
    and "delivery_ok K M input" "blocks_ok M (w @ concat input)" "length (w @ concat input) < n"
  shows "read_lines (Suc n) r (''> '' # input) = Some (''> '' # lines_of (w @ concat input))"
proof -
  have "holds_text \<lparr>mem = ''> '' @ NUL # w @ NUL # rest, pos = 3\<rparr> w"
    unfolding holds_text_def using assms(1,3,4)
    by (intro exI [of _ "''> '' @ [NUL]"] exI [of _ rest]) simp
  from read_lines_reads [OF assms(5) this assms(6,7)] readline_prompt [OF assms(1,2)]
  show ?thesis by simp
qed

theorem prompt_leaves_stale_text_witness:
  "read_lines 31 \<lparr>mem = NUL # CHR ''B'' # CHR ''1'' # ''2'' @ NUL # replicate 4091 NUL, pos = 0\<rparr>
     (''> '' # [''+CMGS: 5'' @ crlf]) = Some [''> '', ''2+CMGS: 5'']"
proof -
  let ?r = "\<lparr>mem = NUL # CHR ''B'' # CHR ''1'' # ''2'' @ NUL # replicate 4091 NUL, pos = 0\<rparr>"
  have d: "delivery_ok 2000 2000 [''+CMGS: 5'' @ crlf]"
    by (simp add: delivery_ok_def clean_def crlf_def NUL_def MAX_AT_RESPONSE_def)
  have b: "blocks_ok 2000 (''2'' @ concat [''+CMGS: 5'' @ crlf])" by code_simp
  have l: "lines_of (''2'' @ concat [''+CMGS: 5'' @ crlf]) = [''2+CMGS: 5'']" by code_simp
  have m: "mem ?r = NUL # CHR ''B'' # CHR ''1'' # ''2'' @ NUL # replicate 4091 NUL" "pos ?r = 0"
    "length (mem ?r) = MAX_AT_RESPONSE" "clean ''2''"
    by (simp_all add: MAX_AT_RESPONSE_def clean_def NUL_def)
  have n: "length (''2'' @ concat [''+CMGS: 5'' @ crlf]) < 30" by (simp add: crlf_def)
  have s: "Suc 30 = 31" by simp
  show ?thesis using prompt_leaves_stale_text [OF m d b n] unfolding l s .
qed

end
