(* ===== verification/At_Channel.thy ===== *)
theory At_Channel
  imports At_Tok At_Reader
begin

text \<open>
  \<^verbatim>\<open>quectel_cm_5G/src/atchannel.c\<close> above the line reader: the pending command, the reader
  thread's treatment of each line, and the calls that send a command and wait for its
  response. The file's static variables are the record \<open>channel\<close>; the text written to the
  modem and the callbacks made are its fields \<open>s_sent\<close> and \<open>s_log\<close>; \<open>s_wr\<close> holds the outcomes
  of \<open>write\<close> and \<open>poll\<close> still to come (when it is used up, they succeed). What the two
  threads do while a command waits is an explicit list of events; \<open>None\<close> is the access
  through a null pointer.
\<close>

section \<open>State\<close>

datatype at_command_type = NO_RESULT | NUMERIC | SINGLELINE | MULTILINE

record at_response =
  success :: bool
  finalResponse :: "string option"
  p_intermediates :: "string list"

datatype wr_result = Wr_N nat | Wr_Intr | Wr_Err | Poll_Fail

datatype callback = Unsol string "string option" | On_Timeout | On_Reader_Closed

record channel =
  s_fd :: int
  s_atc_proxy :: bool
  s_unsolHandler :: bool
  s_onTimeout :: bool
  s_onReaderClosed :: bool
  s_readerClosed :: bool
  s_type :: at_command_type
  s_responsePrefix :: "string option"
  s_smsPDU :: "string option"
  s_raw_data :: "string option"
  sp_response :: "at_response option"
  s_line1 :: "string option"
  s_sent :: string
  s_wr :: "wr_result list"
  s_log :: "callback list"

definition AT_ERROR_GENERIC :: int where "AT_ERROR_GENERIC = -1"
definition AT_ERROR_COMMAND_PENDING :: int where "AT_ERROR_COMMAND_PENDING = -2"
definition AT_ERROR_CHANNEL_CLOSED :: int where "AT_ERROR_CHANNEL_CLOSED = -3"
definition AT_ERROR_TIMEOUT :: int where "AT_ERROR_TIMEOUT = -4"
definition AT_ERROR_INVALID_THREAD :: int where "AT_ERROR_INVALID_THREAD = -5"
definition AT_ERROR_INVALID_RESPONSE :: int where "AT_ERROR_INVALID_RESPONSE = -6"

lemmas at_errors = AT_ERROR_GENERIC_def AT_ERROR_COMMAND_PENDING_def AT_ERROR_CHANNEL_CLOSED_def
  AT_ERROR_TIMEOUT_def AT_ERROR_INVALID_THREAD_def AT_ERROR_INVALID_RESPONSE_def

section \<open>Classification of lines\<close>

fun strStartsWith :: "string \<Rightarrow> string \<Rightarrow> bool" where
  "strStartsWith (l # line) (p # prefix) = (if l \<noteq> p then False else strStartsWith line prefix)"
| "strStartsWith line prefix = (prefix = [])"

definition s_finalResponsesError :: "string list" where
  "s_finalResponsesError = [''ERROR'', ''+CMS ERROR:'', ''+CME ERROR:'', ''NO CARRIER'',
     ''NO ANSWER'', ''NO DIALTONE'', ''COMMAND NOT SUPPORT'']"

definition isFinalResponseError :: "string \<Rightarrow> bool" where
  "isFinalResponseError line \<longleftrightarrow> list_ex (strStartsWith line) s_finalResponsesError"

definition quoted :: "string \<Rightarrow> string" where
  "quoted s = CHR 0x22 # s @ [CHR 0x22]"

definition s_finalResponsesSuccess :: "string list" where
  "s_finalResponsesSuccess = [''OK'', ''+QIND: '' @ quoted ''FOTA'' @ '','' @ quoted ''END'' @ '',0'', ''CONNECT'']"

definition isFinalResponseSuccess :: "string \<Rightarrow> bool" where
  "isFinalResponseSuccess line \<longleftrightarrow> list_ex (strStartsWith line) s_finalResponsesSuccess"

definition s_smsUnsoliciteds :: "string list" where
  "s_smsUnsoliciteds = [''+CMT:'', ''+CDS:'', ''+CBM:'', ''+CMTI:'']"

definition isSMSUnsolicited :: "string \<Rightarrow> bool" where
  "isSMSUnsolicited line \<longleftrightarrow> list_ex (strStartsWith line) s_smsUnsoliciteds"

section \<open>Writing to the modem\<close>

text \<open>The \<open>while (cur < len)\<close> loop: the result (0 or the error), what was written, and the
  outcomes left. Only \<open>writeraw\<close> polls, so another write skips a poll outcome.\<close>

fun write_all :: "wr_result list \<Rightarrow> string \<Rightarrow> int \<times> string \<times> wr_result list" where
  "write_all ws [] = (0, [], ws)"
| "write_all [] s = (0, s, [])"
| "write_all (w # ws) s = (case w of
       Wr_Err \<Rightarrow> (AT_ERROR_GENERIC, [], ws)
     | Wr_N k \<Rightarrow> (case write_all ws (drop k s) of (r, out, ws') \<Rightarrow> (r, take k s @ out, ws'))
     | Wr_Intr \<Rightarrow> write_all ws s
     | Poll_Fail \<Rightarrow> write_all ws s)"

text \<open>The channel after writing \<open>s\<close>.\<close>

definition put :: "channel \<Rightarrow> string \<Rightarrow> int \<times> channel" where
  "put ch s = (case write_all (s_wr ch) s of (r, out, ws') \<Rightarrow>
     (r, ch\<lparr>s_sent := s_sent ch @ out, s_wr := ws'\<rparr>))"

definition writeline :: "channel \<Rightarrow> string \<Rightarrow> int \<times> channel" where
  "writeline ch s =
     (if s_fd ch < 0 \<or> s_readerClosed ch then (AT_ERROR_CHANNEL_CLOSED, ch)
      else if length s < 64 - 1 then put ch (s @ [CHR 0x0D])
      else case put ch s of (r, ch') \<Rightarrow>
        if r < 0 then (r, ch') else put ch' [CHR 0x0D])"

definition writeCtrlZ :: "channel \<Rightarrow> string \<Rightarrow> int \<times> channel" where
  "writeCtrlZ ch s =
     (if s_fd ch < 0 \<or> s_readerClosed ch then (AT_ERROR_CHANNEL_CLOSED, ch)
      else case put ch s of (r, ch') \<Rightarrow>
        if r < 0 then (r, ch') else put ch' [CHR 0x1A])"

text \<open>\<open>writeraw\<close> asks \<open>poll\<close> before each round of the loop and gives up when that fails;
  \<open>polled\<close> tells the inner loop that repeats an interrupted \<open>write\<close>. Its result is not used.\<close>

fun write_raw :: "bool \<Rightarrow> wr_result list \<Rightarrow> string \<Rightarrow> string \<times> wr_result list" where
  "write_raw polled ws [] = ([], ws)"
| "write_raw polled [] s = (s, [])"
| "write_raw polled (w # ws) s = (case w of
       Poll_Fail \<Rightarrow> if polled then write_raw polled ws s else ([], ws)
     | Wr_Err \<Rightarrow> ([], ws)
     | Wr_N k \<Rightarrow> (case write_raw False ws (drop k s) of (out, ws') \<Rightarrow> (take k s @ out, ws'))
     | Wr_Intr \<Rightarrow> write_raw True ws s)"

definition writeraw :: "channel \<Rightarrow> string \<Rightarrow> channel" where
  "writeraw ch s =
     (if s_fd ch < 0 \<or> s_readerClosed ch then ch
      else case write_raw False (s_wr ch) s of (out, ws') \<Rightarrow>
        ch\<lparr>s_sent := s_sent ch @ out, s_wr := ws'\<rparr>)"

section \<open>The reader thread\<close>

definition at_response_new :: at_response where
  "at_response_new = \<lparr>success = False, finalResponse = None, p_intermediates = []\<rparr>"

definition addIntermediate :: "channel \<Rightarrow> at_response \<Rightarrow> string \<Rightarrow> channel" where
  "addIntermediate ch p line = ch\<lparr>sp_response := Some (p\<lparr>p_intermediates := line # p_intermediates p\<rparr>)\<rparr>"

definition handleFinalResponse :: "channel \<Rightarrow> at_response \<Rightarrow> string \<Rightarrow> channel" where
  "handleFinalResponse ch p line = ch\<lparr>sp_response := Some (p\<lparr>finalResponse := Some line\<rparr>)\<rparr>"

definition handleUnsolicited :: "channel \<Rightarrow> string \<Rightarrow> channel" where
  "handleUnsolicited ch line =
     (if s_unsolHandler ch then ch\<lparr>s_log := s_log ch @ [Unsol line None]\<rparr> else ch)"

text \<open>A line with a final response is also handed on when the channel serves a proxy.\<close>

definition proxy_copy :: "channel \<Rightarrow> string \<Rightarrow> channel" where
  "proxy_copy ch line = (if s_atc_proxy ch then handleUnsolicited ch line else ch)"

definition startsWithPrefix :: "channel \<Rightarrow> string \<Rightarrow> bool option" where
  "startsWithPrefix ch line = map_option (strStartsWith line) (s_responsePrefix ch)"

definition processLine :: "channel \<Rightarrow> string \<Rightarrow> channel option" where
  "processLine ch line = (case sp_response ch of
       None \<Rightarrow> Some (handleUnsolicited ch line)
     | Some p \<Rightarrow>
        (if s_raw_data ch \<noteq> None \<and> line = ''CONNECT''
         then Some ((writeraw ch (the (s_raw_data ch)))\<lparr>s_raw_data := None\<rparr>)
         else if isFinalResponseSuccess line
         then Some (handleFinalResponse (proxy_copy ch line) (p\<lparr>success := True\<rparr>) line)
         else if isFinalResponseError line
         then Some (handleFinalResponse (proxy_copy ch line) (p\<lparr>success := False\<rparr>) line)
         else if s_smsPDU ch \<noteq> None \<and> line = ''> ''
         then Some ((snd (writeCtrlZ ch (the (s_smsPDU ch))))\<lparr>s_smsPDU := None\<rparr>)
         else case s_type ch of
             NO_RESULT \<Rightarrow> Some (handleUnsolicited ch line)
           | NUMERIC \<Rightarrow> Some (if p_intermediates p = [] \<and> line \<noteq> [] \<and> c_isdigit (hd line)
               then addIntermediate ch p line else handleUnsolicited ch line)
           | SINGLELINE \<Rightarrow>
              (if p_intermediates p = []
               then do { m \<leftarrow> startsWithPrefix ch line;
                 Some (if m then addIntermediate ch p line else handleUnsolicited ch line) }
               else Some (handleUnsolicited ch line))
           | MULTILINE \<Rightarrow>
              do { m \<leftarrow> startsWithPrefix ch line;
                 Some (if m then addIntermediate ch p line else handleUnsolicited ch line) }))"

definition onReaderClosed :: "channel \<Rightarrow> channel" where
  "onReaderClosed ch =
     (if s_onReaderClosed ch \<and> \<not> s_readerClosed ch
      then ch\<lparr>s_readerClosed := True, s_log := s_log ch @ [On_Reader_Closed]\<rparr> else ch)"

text \<open>One line in \<open>readerLoop\<close>: the first line of an SMS waits in \<open>s_line1\<close> for the second.
  \<open>reader_end\<close> is \<open>readline\<close> returning NULL.\<close>

definition reader_line :: "channel \<Rightarrow> string \<Rightarrow> channel option" where
  "reader_line ch line = (case s_line1 ch of
       Some line1 \<Rightarrow> Some (ch\<lparr>s_line1 := None,
           s_log := (if s_unsolHandler ch then s_log ch @ [Unsol line1 (Some line)] else s_log ch)\<rparr>)
     | None \<Rightarrow> if isSMSUnsolicited line then Some (ch\<lparr>s_line1 := Some line\<rparr>) else processLine ch line)"

definition reader_end :: "channel \<Rightarrow> channel" where
  "reader_end ch = onReaderClosed (ch\<lparr>s_line1 := None\<rparr>)"

section \<open>Opening, closing and the pending command\<close>

text \<open>The static variables as the program starts.\<close>

definition channel_init :: channel where
  "channel_init = \<lparr>s_fd = -1, s_atc_proxy = False, s_unsolHandler = False, s_onTimeout = False,
     s_onReaderClosed = False, s_readerClosed = False, s_type = NO_RESULT, s_responsePrefix = None,
     s_smsPDU = None, s_raw_data = None, sp_response = None, s_line1 = None, s_sent = [], s_wr = [], s_log = []\<rparr>"

definition at_open :: "channel \<Rightarrow> int \<Rightarrow> bool \<Rightarrow> bool \<Rightarrow> channel" where
  "at_open ch fd h proxy = ch\<lparr>s_fd := fd, s_unsolHandler := h, s_readerClosed := False, s_atc_proxy := proxy,
     s_responsePrefix := None, s_smsPDU := None, sp_response := None\<rparr>"

definition at_set_on_timeout :: "channel \<Rightarrow> bool \<Rightarrow> channel" where
  "at_set_on_timeout ch f = ch\<lparr>s_onTimeout := f\<rparr>"

definition at_set_on_reader_closed :: "channel \<Rightarrow> bool \<Rightarrow> channel" where
  "at_set_on_reader_closed ch f = ch\<lparr>s_onReaderClosed := f\<rparr>"

definition at_close :: "channel \<Rightarrow> channel" where
  "at_close ch = ch\<lparr>s_fd := -1, s_readerClosed := True\<rparr>"

definition clearPendingCommand :: "channel \<Rightarrow> channel" where
  "clearPendingCommand ch = ch\<lparr>sp_response := None, s_responsePrefix := None, s_smsPDU := None\<rparr>"

definition reverseIntermediates :: "at_response \<Rightarrow> at_response" where
  "reverseIntermediates p = p\<lparr>p_intermediates := foldl (\<lambda>acc l. l # acc) [] (p_intermediates p)\<rparr>"

section \<open>Sending a command\<close>

text \<open>What happens while the command thread sleeps: the reader gets a line or the end of the
  channel, another thread calls \<open>at_close\<close>, the sleeping thread is woken, or its time is
  over. When the list is used up nothing more happens: the thread wakes if it has been
  signalled, else its time is over.\<close>

datatype ch_event = Ev_Line string | Ev_End | Ev_Close | Ev_Wake | Ev_Timeout

definition command_done :: "channel \<Rightarrow> bool" where
  "command_done ch \<longleftrightarrow>
     \<not> ((case sp_response ch of Some p \<Rightarrow> finalResponse p = None | None \<Rightarrow> True) \<and> \<not> s_readerClosed ch)"

text \<open>The thread sleeps in \<open>pthread_cond_timeout_np\<close>; the result is \<open>True\<close> for ETIMEDOUT.\<close>

fun sleep_loop :: "channel \<Rightarrow> ch_event list \<Rightarrow> (bool \<times> channel \<times> ch_event list) option" where
  "sleep_loop ch [] = Some (\<not> command_done ch, ch, [])"
| "sleep_loop ch (e # es) = (case e of
       Ev_Line l \<Rightarrow> (case reader_line ch l of None \<Rightarrow> None | Some ch' \<Rightarrow> sleep_loop ch' es)
     | Ev_End \<Rightarrow> sleep_loop (reader_end ch) es
     | Ev_Close \<Rightarrow> sleep_loop (at_close ch) es
     | Ev_Wake \<Rightarrow> if command_done ch then Some (False, ch, es) else sleep_loop ch es
     | Ev_Timeout \<Rightarrow> Some (True, ch, es))"

definition wait_response :: "channel \<Rightarrow> ch_event list \<Rightarrow> (bool \<times> channel \<times> ch_event list) option" where
  "wait_response ch es = (if command_done ch then Some (False, ch, es) else sleep_loop ch es)"

text \<open>The result, the response stored through \<open>pp_outResponse\<close> if one is (\<open>want\<close> tells that the
  pointer is not null), the channel and the events left.\<close>

type_synonym sent = "int \<times> at_response option \<times> channel \<times> ch_event list"

definition at_send_command_full_nolock ::
  "channel \<Rightarrow> string option \<Rightarrow> at_command_type \<Rightarrow> string option \<Rightarrow> string option \<Rightarrow> bool \<Rightarrow> ch_event list \<Rightarrow> sent option" where
  "at_send_command_full_nolock ch command type responsePrefix smspdu want es =
     (if sp_response ch \<noteq> None then Some (AT_ERROR_COMMAND_PENDING, None, clearPendingCommand ch, es)
      else case (case command of None \<Rightarrow> (0, ch) | Some c \<Rightarrow> writeline ch c) of (err, ch1) \<Rightarrow>
        if err < 0 then Some (err, None, clearPendingCommand ch1, es)
        else do {
          (timeout, ch2, es') \<leftarrow> wait_response (ch1\<lparr>s_type := type, s_responsePrefix := responsePrefix,
              s_smsPDU := smspdu, sp_response := Some at_response_new\<rparr>) es;
          (if timeout then Some (AT_ERROR_TIMEOUT, None, clearPendingCommand ch2, es')
           else let out = (if want then map_option reverseIntermediates (sp_response ch2) else None);
                    ch3 = clearPendingCommand ch2
             in if s_readerClosed ch3 then Some (AT_ERROR_CHANNEL_CLOSED, out, ch3, es')
                else Some (0, out, ch3, es')) })"

definition at_send_command_full ::
  "bool \<Rightarrow> channel \<Rightarrow> string option \<Rightarrow> at_command_type \<Rightarrow> string option \<Rightarrow> string option \<Rightarrow> bool \<Rightarrow> ch_event list \<Rightarrow> sent option" where
  "at_send_command_full on_reader ch command type responsePrefix smspdu want es =
     (if on_reader then Some (AT_ERROR_INVALID_THREAD, None, ch, es)
      else do {
        (err, out, ch', es') \<leftarrow> at_send_command_full_nolock ch command type responsePrefix smspdu want es;
        (if err = AT_ERROR_TIMEOUT \<and> s_onTimeout ch'
         then Some (err, out, ch'\<lparr>s_log := s_log ch' @ [On_Timeout]\<rparr>, es')
         else Some (err, out, ch', es')) })"

text \<open>The command thread's calls; \<open>on_reader\<close> is false there.\<close>

definition at_send_command :: "channel \<Rightarrow> string \<Rightarrow> bool \<Rightarrow> ch_event list \<Rightarrow> sent option" where
  "at_send_command ch command want es = at_send_command_full False ch (Some command) NO_RESULT None None want es"

text \<open>A successful response without its line is an error, and the response is freed.\<close>

definition need_intermediate :: "bool \<Rightarrow> sent \<Rightarrow> sent option" where
  "need_intermediate want r = (case r of (err, out, ch, es) \<Rightarrow>
     (if err = 0 \<and> want
      then (case out of None \<Rightarrow> None
        | Some p \<Rightarrow> if success p \<and> p_intermediates p = []
            then Some (AT_ERROR_INVALID_RESPONSE, None, ch, es) else Some r)
      else Some r))"

definition at_send_command_singleline :: "channel \<Rightarrow> string \<Rightarrow> string \<Rightarrow> bool \<Rightarrow> ch_event list \<Rightarrow> sent option" where
  "at_send_command_singleline ch command responsePrefix want es = do {
     r \<leftarrow> at_send_command_full False ch (Some command) SINGLELINE (Some responsePrefix) None want es;
     need_intermediate want r }"

definition at_send_command_numeric :: "channel \<Rightarrow> string \<Rightarrow> bool \<Rightarrow> ch_event list \<Rightarrow> sent option" where
  "at_send_command_numeric ch command want es = do {
     r \<leftarrow> at_send_command_full False ch (Some command) NUMERIC None None want es;
     need_intermediate want r }"

definition at_send_command_sms :: "channel \<Rightarrow> string \<Rightarrow> string \<Rightarrow> string \<Rightarrow> bool \<Rightarrow> ch_event list \<Rightarrow> sent option" where
  "at_send_command_sms ch command pdu responsePrefix want es = do {
     r \<leftarrow> at_send_command_full False ch (Some command) SINGLELINE (Some responsePrefix) (Some pdu) want es;
     need_intermediate want r }"

definition at_send_command_multiline :: "channel \<Rightarrow> string \<Rightarrow> string \<Rightarrow> bool \<Rightarrow> ch_event list \<Rightarrow> sent option" where
  "at_send_command_multiline ch command responsePrefix want es =
     at_send_command_full False ch (Some command) MULTILINE (Some responsePrefix) None want es"

definition at_send_command_raw :: "channel \<Rightarrow> string \<Rightarrow> string \<Rightarrow> string \<Rightarrow> bool \<Rightarrow> ch_event list \<Rightarrow> sent option" where
  "at_send_command_raw ch command raw_data responsePrefix want es =
     at_send_command_full False (ch\<lparr>s_raw_data := Some raw_data\<rparr>) (Some command) SINGLELINE (Some responsePrefix) None want es"

definition HANDSHAKE_RETRY_COUNT :: nat where "HANDSHAKE_RETRY_COUNT = 8"

primrec handshake_loop :: "nat \<Rightarrow> int \<Rightarrow> channel \<Rightarrow> ch_event list \<Rightarrow> (int \<times> channel \<times> ch_event list) option" where
  "handshake_loop 0 err ch es = Some (err, ch, es)"
| "handshake_loop (Suc n) err ch es = do {
     (err', out, ch', es') \<leftarrow> at_send_command_full_nolock ch (Some ''ATE0Q0V1'') NO_RESULT None None False es;
     (if err' = 0 then Some (err', ch', es') else handshake_loop n err' ch' es') }"

definition at_handshake :: "bool \<Rightarrow> channel \<Rightarrow> ch_event list \<Rightarrow> (int \<times> channel \<times> ch_event list) option" where
  "at_handshake on_reader ch es =
     (if on_reader then Some (AT_ERROR_INVALID_THREAD, ch, es)
      else handshake_loop HANDSHAKE_RETRY_COUNT 0 ch es)"

definition CME_ERROR_NON_CME :: int where "CME_ERROR_NON_CME = -1"
definition CME_SUCCESS :: int where "CME_SUCCESS = 0"

definition at_get_cme_error :: "at_response option \<Rightarrow> int" where
  "at_get_cme_error p_response = (case p_response of
       None \<Rightarrow> CME_ERROR_NON_CME
     | Some p \<Rightarrow>
        if success p then CME_SUCCESS
        else case finalResponse p of
            None \<Rightarrow> CME_ERROR_NON_CME
          | Some f \<Rightarrow>
             if \<not> strStartsWith f ''+CME ERROR:'' then CME_ERROR_NON_CME
             else case at_tok_start (Some f) of (err, p_cur) \<Rightarrow>
               if err < 0 then CME_ERROR_NON_CME
               else case at_tok_nextint p_cur of (err, ret, p_cur') \<Rightarrow>
                 if err < 0 then CME_ERROR_NON_CME else the ret)"

section \<open>Which lines belong to a response, as a specification\<close>

fun wanted :: "at_command_type \<Rightarrow> string \<Rightarrow> string \<Rightarrow> bool" where
  "wanted NO_RESULT pre l = False"
| "wanted NUMERIC pre l = (l \<noteq> [] \<and> c_isdigit (hd l))"
| "wanted SINGLELINE pre l = starts_with l pre"
| "wanted MULTILINE pre l = starts_with l pre"

text \<open>The intermediate lines and the unsolicited ones: a multiline command takes every wanted
  line, the others the first only.\<close>

definition response_lines :: "at_command_type \<Rightarrow> string \<Rightarrow> string list \<Rightarrow> string list" where
  "response_lines type pre ls = (if type = MULTILINE then filter (wanted type pre) ls
     else take 1 (filter (wanted type pre) ls))"

definition unsolicited_lines :: "at_command_type \<Rightarrow> string \<Rightarrow> string list \<Rightarrow> string list" where
  "unsolicited_lines type pre ls = (if type = MULTILINE then filter (\<lambda>l. \<not> wanted type pre l) ls
     else takeWhile (\<lambda>l. \<not> wanted type pre l) ls @ tl (dropWhile (\<lambda>l. \<not> wanted type pre l) ls))"

definition plain_line :: "string \<Rightarrow> bool" where
  "plain_line l \<longleftrightarrow> \<not> isFinalResponseSuccess l \<and> \<not> isFinalResponseError l \<and> \<not> isSMSUnsolicited l"

fun event_lines :: "ch_event list \<Rightarrow> string list" where
  "event_lines [] = []"
| "event_lines (Ev_Line l # es) = l # event_lines es"
| "event_lines (e # es) = event_lines es"

definition quiet_event :: "ch_event \<Rightarrow> bool" where
  "quiet_event e \<longleftrightarrow> (case e of Ev_Line l \<Rightarrow> plain_line l | Ev_Wake \<Rightarrow> True | _ \<Rightarrow> False)"

text \<open>A channel that is open, has no command pending and whose writes succeed.\<close>

definition ready :: "channel \<Rightarrow> bool" where
  "ready ch \<longleftrightarrow> 0 \<le> s_fd ch \<and> \<not> s_readerClosed ch \<and> sp_response ch = None \<and> s_raw_data ch = None \<and>
     s_line1 ch = None \<and> s_wr ch = []"

definition notify :: "channel \<Rightarrow> string list \<Rightarrow> channel" where
  "notify ch ls = (if s_unsolHandler ch then ch\<lparr>s_log := s_log ch @ map (\<lambda>l. Unsol l None) ls\<rparr> else ch)"

section \<open>Lemmas\<close>

lemma starts_with_Nil: "starts_with [] p \<longleftrightarrow> p = []"
  by (cases p) simp_all

lemma strStartsWith_eq: "strStartsWith l p = starts_with l p"
  by (induction l p rule: strStartsWith.induct) (auto simp: starts_with_Nil)

lemma foldl_rev: "foldl (\<lambda>acc l. l # acc) acc xs = rev xs @ acc"
  by (induction xs arbitrary: acc) auto

lemma reverseIntermediates_eq: "reverseIntermediates p = p\<lparr>p_intermediates := rev (p_intermediates p)\<rparr>"
  by (simp add: reverseIntermediates_def foldl_rev)

lemma put_clear: "s_wr ch = [] \<Longrightarrow> put ch s = (0, ch\<lparr>s_sent := s_sent ch @ s\<rparr>)"
  by (cases s; cases ch) (simp_all add: put_def)

lemma writeline_clear:
  assumes "0 \<le> s_fd ch" "\<not> s_readerClosed ch" "s_wr ch = []"
  shows "writeline ch c = (0, ch\<lparr>s_sent := s_sent ch @ c @ [CHR 0x0D]\<rparr>)"
  using assms by (simp add: writeline_def put_clear)

text \<open>The collection as the reader does it, one line at a time; \<open>taken\<close> is whether there
  already is an intermediate line.\<close>

fun sort_lines :: "at_command_type \<Rightarrow> string \<Rightarrow> bool \<Rightarrow> string list \<Rightarrow> string list \<times> string list" where
  "sort_lines type pre taken [] = ([], [])"
| "sort_lines type pre taken (l # ls) =
     (if wanted type pre l \<and> (type = MULTILINE \<or> \<not> taken)
      then (case sort_lines type pre True ls of (i, u) \<Rightarrow> (l # i, u))
      else (case sort_lines type pre taken ls of (i, u) \<Rightarrow> (i, l # u)))"

lemma wanted_prefix:
  "wanted SINGLELINE pre = (\<lambda>l. starts_with l pre)" "wanted MULTILINE pre = (\<lambda>l. starts_with l pre)"
  by (rule ext, simp)+

lemma sort_lines_taken: "type \<noteq> MULTILINE \<Longrightarrow> sort_lines type pre True ls = ([], ls)"
  by (induction ls) auto

lemma sort_lines_multi:
  "sort_lines MULTILINE pre taken ls = (filter (wanted MULTILINE pre) ls, filter (\<lambda>l. \<not> wanted MULTILINE pre l) ls)"
  by (induction ls arbitrary: taken) auto

lemma sort_lines_eq:
  "sort_lines type pre False ls = (response_lines type pre ls, unsolicited_lines type pre ls)"
proof (cases "type = MULTILINE")
  case True
  then show ?thesis by (simp add: sort_lines_multi response_lines_def unsolicited_lines_def)
next
  case False
  then show ?thesis
    by (induction ls) (auto simp: response_lines_def unsolicited_lines_def sort_lines_taken)
qed

lemma processLine_plain:
  assumes "sp_response ch = Some p" "s_raw_data ch = None" "s_smsPDU ch = None" "plain_line l"
    and "s_responsePrefix ch = Some pre"
  shows "processLine ch l = Some
     (if wanted (s_type ch) pre l \<and> (s_type ch = MULTILINE \<or> p_intermediates p = [])
      then addIntermediate ch p l else handleUnsolicited ch l)"
  using assms
  by (cases "s_type ch")
     (auto simp: processLine_def plain_line_def startsWithPrefix_def strStartsWith_eq)

lemma sleep_collects:
  assumes "\<forall>e \<in> set evs. quiet_event e"
    and "s_raw_data ch = None" "s_smsPDU ch = None" "s_line1 ch = None" "\<not> s_readerClosed ch"
    and "s_responsePrefix ch = Some pre" "sp_response ch = Some \<lparr>success = False, finalResponse = None, p_intermediates = acc\<rparr>"
  shows "sleep_loop ch (evs @ rest) =
    (case sort_lines (s_type ch) pre (acc \<noteq> []) (event_lines evs) of (i, u) \<Rightarrow>
      sleep_loop (notify ch u
        \<lparr>sp_response := Some \<lparr>success = False, finalResponse = None, p_intermediates = rev i @ acc\<rparr>\<rparr>) rest)"
  using assms
proof (induction evs arbitrary: ch acc)
  case Nil
  then show ?case by (cases ch) (simp add: notify_def)
next
  case (Cons e evs)
  show ?case
  proof (cases e)
    case Ev_Wake
    moreover from Cons.prems have "\<not> command_done ch" by (simp add: command_done_def)
    ultimately show ?thesis using Cons by simp
  next
    case (Ev_Line l)
    let ?p = "\<lparr>success = False, finalResponse = None, p_intermediates = acc\<rparr>"
    have pl: "plain_line l" using Cons.prems(1) Ev_Line by (simp add: quiet_event_def)
    then have "\<not> isSMSUnsolicited l" by (simp add: plain_line_def)
    with processLine_plain [OF Cons.prems(7) Cons.prems(2,3) pl Cons.prems(6)] Cons.prems(4)
    have step: "reader_line ch l = Some
      (if wanted (s_type ch) pre l \<and> (s_type ch = MULTILINE \<or> acc = [])
       then addIntermediate ch ?p l else handleUnsolicited ch l)"
      by (simp add: reader_line_def)
    have quiet: "\<forall>e \<in> set evs. quiet_event e" using Cons.prems(1) by simp
    show ?thesis
    proof (cases "wanted (s_type ch) pre l \<and> (s_type ch = MULTILINE \<or> acc = [])")
      case True
      with step Ev_Line have "sleep_loop ch ((e # evs) @ rest) = sleep_loop (addIntermediate ch ?p l) (evs @ rest)"
        by simp
      also have "\<dots> = (case sort_lines (s_type ch) pre True (event_lines evs) of (i, u) \<Rightarrow>
          sleep_loop (notify (addIntermediate ch ?p l) u
            \<lparr>sp_response := Some \<lparr>success = False, finalResponse = None, p_intermediates = rev i @ l # acc\<rparr>\<rparr>) rest)"
        using Cons.IH [OF quiet, of "addIntermediate ch ?p l" "l # acc"] Cons.prems
        by (simp add: addIntermediate_def)
      finally show ?thesis
        using True Ev_Line
        by (auto simp: addIntermediate_def notify_def split: prod.split)
    next
      case False
      with step Ev_Line have "sleep_loop ch ((e # evs) @ rest) = sleep_loop (handleUnsolicited ch l) (evs @ rest)"
        by simp
      also have "\<dots> = (case sort_lines (s_type ch) pre (acc \<noteq> []) (event_lines evs) of (i, u) \<Rightarrow>
          sleep_loop (notify (handleUnsolicited ch l) u
            \<lparr>sp_response := Some \<lparr>success = False, finalResponse = None, p_intermediates = rev i @ acc\<rparr>\<rparr>) rest)"
        using Cons.IH [OF quiet, of "handleUnsolicited ch l" acc] Cons.prems
        by (simp add: handleUnsolicited_def)
      finally show ?thesis
        using False Ev_Line
        by (auto simp: handleUnsolicited_def notify_def split: prod.split)
    qed
  qed (use Cons.prems in \<open>simp_all add: quiet_event_def\<close>)
qed

text \<open>While a command waits there is a response to fill, and a prefix where the type needs one.\<close>

definition pending_ok :: "channel \<Rightarrow> bool" where
  "pending_ok ch \<longleftrightarrow> sp_response ch \<noteq> None \<and>
     (s_type ch = SINGLELINE \<or> s_type ch = MULTILINE \<longrightarrow> s_responsePrefix ch \<noteq> None)"

lemma pending_ok_upd [simp]:
  "pending_ok (ch\<lparr>s_log := x\<rparr>) = pending_ok ch" "pending_ok (ch\<lparr>s_sent := y\<rparr>) = pending_ok ch"
  "pending_ok (ch\<lparr>s_wr := w\<rparr>) = pending_ok ch" "pending_ok (ch\<lparr>s_line1 := z\<rparr>) = pending_ok ch"
  "pending_ok (ch\<lparr>s_raw_data := z\<rparr>) = pending_ok ch" "pending_ok (ch\<lparr>s_smsPDU := z\<rparr>) = pending_ok ch"
  "pending_ok (ch\<lparr>s_fd := f\<rparr>) = pending_ok ch" "pending_ok (ch\<lparr>s_readerClosed := c\<rparr>) = pending_ok ch"
  by (simp_all add: pending_ok_def)

lemma pending_ok_put: "put ch s = (r, ch') \<Longrightarrow> pending_ok ch' = pending_ok ch"
  by (auto simp: put_def split: prod.splits)

lemma pending_ok_writeCtrlZ: "pending_ok (snd (writeCtrlZ ch s)) = pending_ok ch"
  by (auto simp: writeCtrlZ_def split: prod.split)
     (metis pending_ok_put prod.collapse)+

lemma pending_ok_writeraw: "pending_ok (writeraw ch s) = pending_ok ch"
  by (simp add: writeraw_def split: prod.split)

lemma pending_ok_handle [simp]:
  "pending_ok (handleUnsolicited ch l) = pending_ok ch"
  "pending_ok ch \<Longrightarrow> pending_ok (addIntermediate ch p l)"
  "pending_ok (proxy_copy ch l) = pending_ok ch"
  "pending_ok ch \<Longrightarrow> pending_ok (handleFinalResponse ch p l)"
  by (simp_all add: handleUnsolicited_def addIntermediate_def proxy_copy_def handleFinalResponse_def)
     (simp_all add: pending_ok_def)

lemma processLine_total:
  assumes "pending_ok ch"
  shows "\<exists>ch'. processLine ch l = Some ch' \<and> pending_ok ch'"
proof -
  obtain p where p: "sp_response ch = Some p" using assms by (auto simp: pending_ok_def)
  have "startsWithPrefix ch l \<noteq> None" if "s_type ch = SINGLELINE \<or> s_type ch = MULTILINE"
    using assms that by (auto simp: pending_ok_def startsWithPrefix_def)
  with assms show ?thesis
    by (cases "s_type ch")
       (auto simp: processLine_def p pending_ok_writeraw pending_ok_writeCtrlZ)
qed

lemma reader_line_total: "pending_ok ch \<Longrightarrow> \<exists>ch'. reader_line ch l = Some ch' \<and> pending_ok ch'"
  using processLine_total by (auto simp: reader_line_def split: option.split)

lemma sleep_total:
  "pending_ok ch \<Longrightarrow> \<exists>t ch' es'. sleep_loop ch es = Some (t, ch', es') \<and> pending_ok ch' \<and> (t \<or> command_done ch')"
proof (induction es arbitrary: ch)
  case Nil
  then show ?case by simp
next
  case (Cons e es)
  show ?case
  proof (cases e)
    case (Ev_Line l)
    with Cons reader_line_total [OF Cons.prems, of l] show ?thesis by auto
  next
    case Ev_End
    have "pending_ok (reader_end ch)"
      using Cons.prems by (simp add: reader_end_def onReaderClosed_def)
    with Ev_End Cons.IH show ?thesis by simp
  next
    case Ev_Close
    with Cons show ?thesis by (simp add: at_close_def)
  next
    case Ev_Wake
    with Cons show ?thesis by (cases "command_done ch") auto
  qed (use Cons.prems in auto)
qed

lemma wait_total:
  assumes "pending_ok ch"
  shows "\<exists>t ch' es'. wait_response ch es = Some (t, ch', es') \<and> pending_ok ch' \<and> (t \<or> command_done ch')"
  using sleep_total [OF assms, of es] assms by (auto simp: wait_response_def)

lemma write_all_result: "write_all ws s = (r, out, ws') \<Longrightarrow> r = 0 \<or> r = AT_ERROR_GENERIC"
  by (induction ws s arbitrary: out rule: write_all.induct)
     (auto split: wr_result.splits prod.splits)

lemma writeline_result:
  "writeline ch s = (r, ch') \<Longrightarrow> r = 0 \<or> r = AT_ERROR_GENERIC \<or> r = AT_ERROR_CHANNEL_CLOSED"
  by (auto simp: writeline_def put_def split: if_splits prod.splits dest: write_all_result)

lemma ready_open: "0 \<le> fd \<Longrightarrow> ready (at_open channel_init fd h proxy)"
  by (simp add: ready_def at_open_def channel_init_def)

lemma attempt_timeout:
  assumes "ready ch"
  shows "at_send_command_full_nolock ch (Some c) type pre pdu want (Ev_Timeout # es) =
     Some (AT_ERROR_TIMEOUT, None, ch\<lparr>s_sent := s_sent ch @ c @ [CHR 0x0D], s_type := type,
        s_responsePrefix := None, s_smsPDU := None\<rparr>, es)"
proof -
  have "writeline ch c = (0, ch\<lparr>s_sent := s_sent ch @ c @ [CHR 0x0D]\<rparr>)"
    by (rule writeline_clear) (use assms in \<open>simp_all add: ready_def\<close>)
  with assms show ?thesis
    by (simp add: ready_def at_send_command_full_nolock_def wait_response_def command_done_def
        at_response_new_def clearPendingCommand_def)
qed

lemma attempt_ok:
  assumes "ready ch"
  shows "at_send_command_full_nolock ch (Some c) NO_RESULT pre None False (Ev_Line ''OK'' # Ev_Wake # es) =
     Some (0, None, (proxy_copy (ch\<lparr>s_sent := s_sent ch @ c @ [CHR 0x0D]\<rparr>) ''OK'')
        \<lparr>s_type := NO_RESULT, s_responsePrefix := None, s_smsPDU := None\<rparr>, es)"
proof -
  have "writeline ch c = (0, ch\<lparr>s_sent := s_sent ch @ c @ [CHR 0x0D]\<rparr>)"
    by (rule writeline_clear) (use assms in \<open>simp_all add: ready_def\<close>)
  moreover have "isFinalResponseSuccess ''OK''" "\<not> isSMSUnsolicited ''OK''" by code_simp+
  ultimately show ?thesis using assms
    by (simp add: ready_def at_send_command_full_nolock_def wait_response_def command_done_def reader_line_def
        processLine_def at_response_new_def clearPendingCommand_def handleFinalResponse_def proxy_copy_def
        handleUnsolicited_def)
qed

lemma ready_after: "ready ch \<Longrightarrow> ready (ch\<lparr>s_sent := x, s_type := t, s_responsePrefix := a, s_smsPDU := b\<rparr>)"
  by (simp add: ready_def)

definition attempts :: "channel \<Rightarrow> nat \<Rightarrow> channel" where
  "attempts ch k = (if k = 0 then ch else ch\<lparr>s_sent := s_sent ch @ concat (replicate k (''ATE0Q0V1'' @ [CHR 0x0D])),
     s_type := NO_RESULT, s_responsePrefix := None, s_smsPDU := None\<rparr>)"

lemma attempts_Suc:
  "attempts (ch\<lparr>s_sent := s_sent ch @ ''ATE0Q0V1'' @ [CHR 0x0D], s_type := NO_RESULT,
      s_responsePrefix := None, s_smsPDU := None\<rparr>) k = attempts ch (Suc k)"
  by (simp add: attempts_def)

lemma concat_replicate_Suc: "concat (replicate (Suc k) x) = concat (replicate k x) @ x"
  by (induction k) simp_all

lemma attempts_next:
  "attempts ch (Suc k) = (attempts ch k)\<lparr>s_sent := s_sent (attempts ch k) @ ''ATE0Q0V1'' @ [CHR 0x0D],
     s_type := NO_RESULT, s_responsePrefix := None, s_smsPDU := None\<rparr>"
  unfolding attempts_def concat_replicate_Suc by simp

lemma ready_attempts: "ready ch \<Longrightarrow> ready (attempts ch k)"
  by (simp add: attempts_def ready_def)

lemma handshake_timeouts:
  "ready ch \<Longrightarrow> handshake_loop (k + n) err ch (replicate k Ev_Timeout @ es) =
     handshake_loop n (if k = 0 then err else AT_ERROR_TIMEOUT) (attempts ch k) es"
proof (induction k arbitrary: ch err)
  case 0
  then show ?case by (simp add: attempts_def)
next
  case (Suc k)
  let ?c = "ch\<lparr>s_sent := s_sent ch @ ''ATE0Q0V1'' @ [CHR 0x0D], s_type := NO_RESULT,
      s_responsePrefix := None, s_smsPDU := None\<rparr>"
  have "handshake_loop (Suc k + n) err ch (replicate (Suc k) Ev_Timeout @ es)
      = handshake_loop (k + n) AT_ERROR_TIMEOUT ?c (replicate k Ev_Timeout @ es)"
    using attempt_timeout [OF Suc.prems, of "''ATE0Q0V1''" NO_RESULT None None False "replicate k Ev_Timeout @ es"]
    by (simp add: AT_ERROR_TIMEOUT_def)
  also have "\<dots> = handshake_loop n AT_ERROR_TIMEOUT (attempts ch (Suc k)) es"
    using Suc.IH [OF ready_after [OF Suc.prems]] attempts_Suc by simp
  finally show ?case by simp
qed

text \<open>Raw data that no CONNECT took stays behind: a later command's CONNECT, which is its
  success, sends the old data and ends nothing.\<close>

lemma stale_raw_data:
  assumes "s_raw_data ch = Some d" "pending_ok ch" "s_line1 ch = None"
  shows "reader_line ch ''CONNECT'' = Some ((writeraw ch d)\<lparr>s_raw_data := None\<rparr>)"
proof -
  have "\<not> isSMSUnsolicited ''CONNECT''" by code_simp
  with assms show ?thesis
    by (auto simp: reader_line_def processLine_def pending_ok_def)
qed

lemma send_command_total:
  assumes "type = SINGLELINE \<or> type = MULTILINE \<longrightarrow> prefix \<noteq> None"
  shows "\<exists>err out ch' es'.
     at_send_command_full_nolock ch command type prefix smspdu want es = Some (err, out, ch', es') \<and>
     sp_response ch' = None \<and> s_responsePrefix ch' = None \<and> s_smsPDU ch' = None \<and>
     err \<in> {0, AT_ERROR_GENERIC, AT_ERROR_COMMAND_PENDING, AT_ERROR_CHANNEL_CLOSED, AT_ERROR_TIMEOUT} \<and>
     (err = 0 \<and> want \<longrightarrow> (\<exists>p. out = Some p \<and> finalResponse p \<noteq> None))"
proof (cases "sp_response ch = None")
  case False
  then show ?thesis by (simp add: at_send_command_full_nolock_def clearPendingCommand_def at_errors)
next
  case True
  obtain err ch1 where w: "(case command of None \<Rightarrow> (0, ch) | Some c \<Rightarrow> writeline ch c) = (err, ch1)"
    by (meson surj_pair)
  then have err: "err = 0 \<or> err = AT_ERROR_GENERIC \<or> err = AT_ERROR_CHANNEL_CLOSED"
    by (auto split: option.splits dest: writeline_result)
  let ?ch = "ch1\<lparr>s_type := type, s_responsePrefix := prefix, s_smsPDU := smspdu, sp_response := Some at_response_new\<rparr>"
  have "pending_ok ?ch" using assms by (simp add: pending_ok_def)
  from wait_total [OF this, of es] obtain t ch2 es' where
    t: "wait_response ?ch es = Some (t, ch2, es')" "pending_ok ch2" "t \<or> command_done ch2" by blast
  then obtain p where p: "sp_response ch2 = Some p" by (auto simp: pending_ok_def)
  have fin: "finalResponse p \<noteq> None" if "\<not> t" "\<not> s_readerClosed ch2"
    using t(3) that p by (simp add: command_done_def)
  show ?thesis
  proof (cases "err < 0")
    case neg: True
    with err True w show ?thesis
      by (auto simp: at_send_command_full_nolock_def clearPendingCommand_def)
  next
    case False
    with True w t(1) p fin show ?thesis
      by (auto simp: at_send_command_full_nolock_def clearPendingCommand_def Let_def at_errors
          reverseIntermediates_eq)
  qed
qed

lemma command_collects:
  assumes "ready ch" and "\<forall>e \<in> set evs. quiet_event e"
    and "isFinalResponseSuccess f \<or> isFinalResponseError f" and "\<not> isSMSUnsolicited f"
  shows "at_send_command_full False ch (Some command) type (Some pre) None True (evs @ Ev_Line f # Ev_Wake # es) =
    Some (0, Some \<lparr>success = isFinalResponseSuccess f, finalResponse = Some f,
        p_intermediates = response_lines type pre (event_lines evs)\<rparr>,
      notify (ch\<lparr>s_sent := s_sent ch @ command @ [CHR 0x0D], s_type := type, s_responsePrefix := None, s_smsPDU := None\<rparr>)
        (unsolicited_lines type pre (event_lines evs) @ (if s_atc_proxy ch then [f] else [])), es)"
proof -
  let ?c1 = "ch\<lparr>s_sent := s_sent ch @ command @ [CHR 0x0D], s_type := type, s_responsePrefix := Some pre,
      s_smsPDU := None, sp_response := Some at_response_new\<rparr>"
  let ?u = "unsolicited_lines type pre (event_lines evs)" and ?i = "response_lines type pre (event_lines evs)"
  let ?c2 = "notify ?c1 ?u \<lparr>sp_response := Some \<lparr>success = False, finalResponse = None, p_intermediates = rev ?i\<rparr>\<rparr>"
  have r: "0 \<le> s_fd ch" "\<not> s_readerClosed ch" "sp_response ch = None" "s_raw_data ch = None"
    "s_line1 ch = None" "s_wr ch = []" using assms(1) by (simp_all add: ready_def)
  have w: "writeline ch command = (0, ch\<lparr>s_sent := s_sent ch @ command @ [CHR 0x0D]\<rparr>)"
    by (rule writeline_clear) (use r in simp_all)
  have "wait_response ?c1 (evs @ Ev_Line f # Ev_Wake # es) = sleep_loop ?c1 (evs @ Ev_Line f # Ev_Wake # es)"
    using r by (simp add: wait_response_def command_done_def at_response_new_def)
  also have "\<dots> = sleep_loop ?c2 (Ev_Line f # Ev_Wake # es)"
    using sleep_collects [OF assms(2), of ?c1 pre "[]" "Ev_Line f # Ev_Wake # es"] r
    by (simp add: at_response_new_def sort_lines_eq)
  also have "\<dots> = Some (False, handleFinalResponse (proxy_copy ?c2 f)
      \<lparr>success = isFinalResponseSuccess f, finalResponse = None, p_intermediates = rev ?i\<rparr> f, es)"
    using assms(3,4) r
    by (auto simp: reader_line_def processLine_def notify_def command_done_def handleFinalResponse_def
        proxy_copy_def handleUnsolicited_def)
  finally show ?thesis
    using w r
    by (auto simp: at_send_command_full_def at_send_command_full_nolock_def handleFinalResponse_def
        proxy_copy_def handleUnsolicited_def notify_def clearPendingCommand_def reverseIntermediates_eq
        AT_ERROR_TIMEOUT_def Let_def)
qed

section \<open>Properties\<close>


text \<open>Property C1: a command on an open, idle channel is written with a carriage return and collects
  its response. A multi-line command gets the wanted lines in the order they came, a
  single-line one the first of them (and is an error if the modem tells success without
  one); every other line goes to the unsolicited handler in order. The result tells
  success from error, and wake-ups in between change nothing.\<close>

theorem command_collects_response:
  fixes command :: string
  assumes "ready ch" and "\<forall>e \<in> set evs. quiet_event e"
    and "isFinalResponseSuccess f \<or> isFinalResponseError f" and "\<not> isSMSUnsolicited f"
  defines "ls \<equiv> event_lines evs" and "late \<equiv> (if s_atc_proxy ch then [f] else [])"
    and "after \<equiv> \<lambda>type. ch\<lparr>s_sent := s_sent ch @ command @ [CHR 0x0D], s_type := type,
        s_responsePrefix := None, s_smsPDU := None\<rparr>"
  shows "at_send_command_multiline ch command pre True (evs @ Ev_Line f # Ev_Wake # es) =
      Some (0, Some \<lparr>success = isFinalResponseSuccess f, finalResponse = Some f,
          p_intermediates = filter (\<lambda>l. starts_with l pre) ls\<rparr>,
        notify (after MULTILINE) (filter (\<lambda>l. \<not> starts_with l pre) ls @ late), es)
    \<and> at_send_command_singleline ch command pre True (evs @ Ev_Line f # Ev_Wake # es) =
      (let i = take 1 (filter (\<lambda>l. starts_with l pre) ls);
           c = notify (after SINGLELINE) (takeWhile (\<lambda>l. \<not> starts_with l pre) ls @
             tl (dropWhile (\<lambda>l. \<not> starts_with l pre) ls) @ late)
       in if isFinalResponseSuccess f \<and> i = [] then Some (AT_ERROR_INVALID_RESPONSE, None, c, es)
          else Some (0, Some \<lparr>success = isFinalResponseSuccess f, finalResponse = Some f, p_intermediates = i\<rparr>, c, es))"
  using command_collects [OF assms(1-4), of command MULTILINE pre es]
    command_collects [OF assms(1-4), of command SINGLELINE pre es]
  by (simp add: at_send_command_multiline_def at_send_command_singleline_def need_intermediate_def Let_def
      response_lines_def unsolicited_lines_def ls_def late_def after_def wanted_prefix)

theorem command_collects_response_witness:
  "at_send_command_singleline (at_open channel_init 3 True False) ''AT+CREG?'' ''+CREG:'' True
     ([Ev_Line ''RING'', Ev_Wake, Ev_Line ''+CREG: 0,1''] @ Ev_Line ''OK'' # Ev_Wake # []) =
    Some (0, Some \<lparr>success = True, finalResponse = Some ''OK'', p_intermediates = [''+CREG: 0,1'']\<rparr>,
      (at_open channel_init 3 True False)\<lparr>s_sent := ''AT+CREG?'' @ [CHR 0x0D], s_type := SINGLELINE,
        s_log := [Unsol ''RING'' None]\<rparr>, [])"
proof -
  let ?e = "[Ev_Line ''RING'', Ev_Wake, Ev_Line ''+CREG: 0,1'']"
  have q: "\<forall>e \<in> set ?e. quiet_event e" by code_simp
  have f: "isFinalResponseSuccess ''OK''" "\<not> isSMSUnsolicited ''OK''" by code_simp+
  show ?thesis
    using command_collects_response [OF ready_open [of 3 True False] q disjI1 [OF f(1)] f(2),
        where command = "''AT+CREG?''" and pre = "''+CREG:''" and es = "[]"]
    by (simp add: f notify_def at_open_def channel_init_def Let_def)
qed


text \<open>The handshake sends its command at most eight times: when the modem answers OK after
  \<open>k\<close> silent attempts it succeeds if \<open>k < 8\<close>, having sent the command \<open>k + 1\<close> times, and
  fails with the timeout error after eight otherwise.\<close>

theorem handshake_attempts:
  assumes "ready ch" and "\<not> s_atc_proxy ch"
  shows "at_handshake False ch (replicate k Ev_Timeout @ Ev_Line ''OK'' # Ev_Wake # es) =
     (if k < 8 then Some (0, attempts ch (Suc k), es)
      else Some (AT_ERROR_TIMEOUT, attempts ch 8, replicate (k - 8) Ev_Timeout @ Ev_Line ''OK'' # Ev_Wake # es))"
proof (cases "k < 8")
  case True
  then obtain n where n: "HANDSHAKE_RETRY_COUNT = k + Suc n"
    unfolding HANDSHAKE_RETRY_COUNT_def by (metis add_Suc_right less_imp_Suc_add)
  have "proxy_copy (c\<lparr>s_sent := x\<rparr>) l = c\<lparr>s_sent := x\<rparr>" if "\<not> s_atc_proxy c" for c x l
    using that by (simp add: proxy_copy_def)
  moreover have "\<not> s_atc_proxy (attempts ch k)" using assms(2) by (simp add: attempts_def)
  moreover note attempts_next [of ch k]
  ultimately show ?thesis
    using True handshake_timeouts [OF assms(1), of k "Suc n" 0 "Ev_Line ''OK'' # Ev_Wake # es"]
      attempt_ok [OF ready_attempts [OF assms(1)], of k "''ATE0Q0V1''" None es]
    by (simp add: at_handshake_def n)
next
  case False
  then obtain j where j: "k = 8 + j" by (metis le_add_diff_inverse not_less)
  then have "replicate k Ev_Timeout = replicate 8 Ev_Timeout @ replicate j Ev_Timeout"
    by (simp only: replicate_add)
  with handshake_timeouts [OF assms(1), of 8 0 0 "replicate j Ev_Timeout @ Ev_Line ''OK'' # Ev_Wake # es"] False j
  show ?thesis by (simp add: at_handshake_def HANDSHAKE_RETRY_COUNT_def)
qed

theorem handshake_attempts_witness:
  "at_handshake False (at_open channel_init 3 False False)
     (replicate 2 Ev_Timeout @ Ev_Line ''OK'' # Ev_Wake # [Ev_End])
   = Some (0, attempts (at_open channel_init 3 False False) 3, [Ev_End])"
proof -
  have p: "\<not> s_atc_proxy (at_open channel_init 3 False False)" by (simp add: at_open_def)
  show ?thesis
    using handshake_attempts [OF ready_open [of 3 False False] p, of 2 "[Ev_End]"] by simp
qed

text \<open>The error number of a \<open>+CME ERROR\<close> response is read back from it, a successful
  response is 0, and any other is -1.\<close>

theorem cme_error_decoded:
  assumes "- (2 ^ 31) \<le> n" "n < 2 ^ 31"
  shows "at_get_cme_error (Some \<lparr>success = False, finalResponse = Some (''+CME ERROR: '' @ show_int n), p_intermediates = is\<rparr>) = n
    \<and> at_get_cme_error (Some \<lparr>success = True, finalResponse = f, p_intermediates = is\<rparr>) = 0
    \<and> at_get_cme_error (Some \<lparr>success = False, finalResponse = Some (''+CMS ERROR: '' @ show_int n), p_intermediates = is\<rparr>) = -1"
proof -
  have "nextTok (Some (CHR '' '' # show_int n)) = (Some (show_int n), None)"
    using nextTok_int(2) [of 1 n] by (simp add: blanks_def)
  then show ?thesis
    using strtol_show_int [OF assms] assms
    by (simp add: at_get_cme_error_def CME_ERROR_NON_CME_def CME_SUCCESS_def at_tok_start_def c_strchr_def
        at_tok_nextint_def at_tok_nextint_base_def c_int_small)
qed

theorem cme_error_decoded_witness:
  "at_get_cme_error (Some \<lparr>success = False, finalResponse = Some (''+CME ERROR: '' @ show_int 10), p_intermediates = []\<rparr>) = 10"
  using cme_error_decoded [of 10 "[]" None] by simp

end
