(* ===== verification/Profile.thy ===== *)
theory Profile
  imports C_Lib
begin

text \<open>
  Data shared by the connection manager (\<^verbatim>\<open>quectel_cm_5G/src/QMIThread.h\<close>): the profile of
  a connection, the SIM states, the events a request thread sends to the main loop, and
  the values of a data call's state. A \<open>const char *\<close> field is a \<open>string option\<close>, a
  character array a string; of the profile the fields the modelled code reads or writes
  are kept.
\<close>

record ipv4_t =
  Address :: u32
  Gateway :: u32
  SubnetMask :: u32
  DnsPrimary :: u32
  DnsSecondary :: u32
  Mtu :: u32

record ipv6_t =
  Address6 :: bytes
  Gateway6 :: bytes
  SubnetMask6 :: bytes
  DnsPrimary6 :: bytes
  DnsSecondary6 :: bytes
  PrefixLengthIPAddr :: byte
  PrefixLengthGateway :: byte
  Mtu6 :: u32

text \<open>What the driver reports of its QMAP interface (\<open>RMNET_INFO\<close>).\<close>

record rmnet_info =
  ri_size :: u32
  ri_rx_urb_size :: u32
  ri_ep_type :: u32
  ri_iface_id :: u32
  ri_qmap_mode :: u32
  ri_qmap_version :: u32
  ri_dl_minimum_padding :: u32
  ri_ifname :: "string list"
  ri_mux_id :: "byte list"

record profile =
  apn :: "string option"
  user :: "string option"
  password :: "string option"
  auth :: int
  iptype :: int
  pincode :: "string option"
  proxy :: string
  pdp :: int
  enable_bridge :: bool
  enable_ipv4 :: bool
  enable_ipv6 :: bool
  logfile :: "string option"
  usblogfile :: "string option"
  expect_adapter :: string
  kill_pdp :: int
  replication_factor :: int
  qmichannel :: string
  usbnet_adapter :: string
  qmapnet_adapter :: string
  driver_name :: string
  qmap_mode :: int
  qmap_size :: int
  qmap_version :: int
  curIpFamily :: int
  rawIP :: int
  muxid :: int
  wda_client :: int
  ipv4 :: ipv4_t
  ipv6 :: ipv6_t
  PCSCFIpv4Addr1 :: u32
  PCSCFIpv4Addr2 :: u32
  PCSCFIpv6Addr1 :: bytes
  PCSCFIpv6Addr2 :: bytes
  reattach_flag :: bool
  hardware_interface :: int
  software_interface :: int
  loopback_state :: int
  BaseBandVersion :: string
  old_apn :: string
  old_user :: string
  old_password :: string
  old_auth :: int
  old_iptype :: int
  rmnet :: rmnet_info

definition ipv4_zero :: ipv4_t where
  "ipv4_zero = \<lparr>Address = 0, Gateway = 0, SubnetMask = 0, DnsPrimary = 0, DnsSecondary = 0, Mtu = 0\<rparr>"

definition ipv6_zero :: ipv6_t where
  "ipv6_zero = \<lparr>Address6 = replicate 16 0, Gateway6 = replicate 16 0, SubnetMask6 = replicate 16 0,
     DnsPrimary6 = replicate 16 0, DnsSecondary6 = replicate 16 0,
     PrefixLengthIPAddr = 0, PrefixLengthGateway = 0, Mtu6 = 0\<rparr>"

definition rmnet_zero :: rmnet_info where
  "rmnet_zero = \<lparr>ri_size = 0, ri_rx_urb_size = 0, ri_ep_type = 0, ri_iface_id = 0, ri_qmap_mode = 0, ri_qmap_version = 0,
     ri_dl_minimum_padding = 0, ri_ifname = replicate 8 [], ri_mux_id = replicate 8 0\<rparr>"

text \<open>The profile in which every field is zero.\<close>

definition profile_zero :: profile where
  "profile_zero = \<lparr>apn = None, user = None, password = None, auth = 0, iptype = 0, pincode = None, proxy = [],
     pdp = 0, enable_bridge = False, enable_ipv4 = False, enable_ipv6 = False, logfile = None, usblogfile = None,
     expect_adapter = [], kill_pdp = 0, replication_factor = 0, qmichannel = [],
     usbnet_adapter = [], qmapnet_adapter = [], driver_name = [], qmap_mode = 0, qmap_size = 0, qmap_version = 0, curIpFamily = 0, rawIP = 0, muxid = 0,
     wda_client = 0, ipv4 = ipv4_zero, ipv6 = ipv6_zero, PCSCFIpv4Addr1 = 0, PCSCFIpv4Addr2 = 0,
     PCSCFIpv6Addr1 = replicate 16 0, PCSCFIpv6Addr2 = replicate 16 0, reattach_flag = False,
     hardware_interface = 0, software_interface = 0, loopback_state = 0, BaseBandVersion = [], old_apn = [], old_user = [],
     old_password = [], old_auth = 0, old_iptype = 0, rmnet = rmnet_zero\<rparr>"

datatype sim_status = SIM_ABSENT | SIM_NOT_READY | SIM_READY | SIM_PIN | SIM_PUK
  | SIM_NETWORK_PERSONALIZATION | SIM_BAD

datatype main_event = RIL_REQUEST_QUIT | RIL_INDICATE_DEVICE_CONNECTED | RIL_INDICATE_DEVICE_DISCONNECTED
  | RIL_UNSOL_RESPONSE_VOICE_NETWORK_STATE_CHANGED | RIL_UNSOL_DATA_CALL_LIST_CHANGED
  | MODEM_REPORT_RESET_EVENT | RIL_UNSOL_LOOPBACK_CONFIG_IND

text \<open>The kinds of driver and of bus a modem is found with.\<close>

definition SOFTWARE_QMI :: int where "SOFTWARE_QMI = 1"
definition SOFTWARE_MBIM :: int where "SOFTWARE_MBIM = 2"
definition SOFTWARE_ECM_RNDIS_NCM :: int where "SOFTWARE_ECM_RNDIS_NCM = 3"
definition SOFTWARE_QRTR :: int where "SOFTWARE_QRTR = 4"
definition HARDWARE_PCIE :: int where "HARDWARE_PCIE = 5"
definition HARDWARE_USB :: int where "HARDWARE_USB = 6"

text \<open>The error number of a wait that timed out.\<close>

definition ETIMEDOUT :: int where "ETIMEDOUT = 110"

definition QWDS_PKT_DATA_UNKNOW :: byte where "QWDS_PKT_DATA_UNKNOW = 0x00"
definition QWDS_PKT_DATA_DISCONNECTED :: byte where "QWDS_PKT_DATA_DISCONNECTED = 0x01"
definition QWDS_PKT_DATA_CONNECTED :: byte where "QWDS_PKT_DATA_CONNECTED = 0x02"

lemmas pkt_data_defs = QWDS_PKT_DATA_UNKNOW_def QWDS_PKT_DATA_DISCONNECTED_def QWDS_PKT_DATA_CONNECTED_def

definition IpFamilyV4 :: int where "IpFamilyV4 = 4"
definition IpFamilyV6 :: int where "IpFamilyV6 = 6"

text \<open>A string pointer that may be null, with \<open>""\<close> in its place: \<open>p ? p : ""\<close>.\<close>

definition str_or_empty :: "string option \<Rightarrow> string" where
  "str_or_empty s = (case s of None \<Rightarrow> [] | Some t \<Rightarrow> t)"

end
