(* ===== verification/Atc.thy ===== *)
theory Atc
  imports At_Channel Profile
begin

text \<open>
  \<^verbatim>\<open>quectel_cm_5G/src/atc.c\<close>: the requests of the connection manager over AT commands. The
  state \<open>atc\<close> has the channel, the file's static variables and the events sent to the main
  loop. What the modem does is the script: one event list per command. What is left of a
  command's list when it has returned happens while no command is pending; when the script
  is used up, nothing comes any more. \<open>None\<close> is an access through a null or an unset pointer.
  Of the requests for log output the commands and the result are kept, not the log.
\<close>

section \<open>State and the AT calls\<close>

record atc =
  chan :: channel
  script :: "ch_event list list"
  asr_style_atc :: bool
  s_pdp :: int
  donot_exit :: bool
  to_main :: "main_event list"

definition onUnsolicited :: "string \<Rightarrow> main_event option" where
  "onUnsolicited s =
     (if strStartsWith s ''+QNETDEVSTATUS:'' then Some RIL_UNSOL_DATA_CALL_LIST_CHANGED
      else if strStartsWith s ''+CGREG:'' \<or> strStartsWith s ''+CEREG:'' \<or> strStartsWith s ''+C5GREG:''
      then Some RIL_UNSOL_RESPONSE_VOICE_NETWORK_STATE_CHANGED
      else None)"

definition callback_event :: "callback \<Rightarrow> main_event option" where
  "callback_event c = (case c of Unsol s _ \<Rightarrow> onUnsolicited s | _ \<Rightarrow> None)"

text \<open>Events while no command is pending: there is nothing to wake or to time out.\<close>

fun idle_events :: "channel \<Rightarrow> ch_event list \<Rightarrow> channel option" where
  "idle_events c [] = Some c"
| "idle_events c (e # es) = (case e of
       Ev_Line l \<Rightarrow> do { c' \<leftarrow> reader_line c l; idle_events c' es }
     | Ev_End \<Rightarrow> idle_events (reader_end c) es
     | Ev_Close \<Rightarrow> idle_events (at_close c) es
     | Ev_Wake \<Rightarrow> idle_events c es
     | Ev_Timeout \<Rightarrow> idle_events c es)"

definition new_events :: "channel \<Rightarrow> channel \<Rightarrow> main_event list" where
  "new_events c c' = List.map_filter callback_event (drop (length (s_log c)) (s_log c'))"

definition at_call :: "atc \<Rightarrow> (channel \<Rightarrow> ch_event list \<Rightarrow> sent option) \<Rightarrow> (int \<times> at_response option \<times> atc) option" where
  "at_call w f = do {
     (err, out, c, es) \<leftarrow> f (chan w) (case script w of [] \<Rightarrow> [] | e # _ \<Rightarrow> e);
     c' \<leftarrow> idle_events c es;
     Some (err, out, w\<lparr>chan := c', script := tl (script w), to_main := to_main w @ new_events (chan w) c'\<rparr>) }"

definition send_cmd :: "atc \<Rightarrow> string \<Rightarrow> bool \<Rightarrow> (int \<times> at_response option \<times> atc) option" where
  "send_cmd w cmd want = at_call w (\<lambda>c es. at_send_command c cmd want es)"

definition send_single :: "atc \<Rightarrow> string \<Rightarrow> string \<Rightarrow> bool \<Rightarrow> (int \<times> at_response option \<times> atc) option" where
  "send_single w cmd pre want = at_call w (\<lambda>c es. at_send_command_singleline c cmd pre want es)"

definition send_multi :: "atc \<Rightarrow> string \<Rightarrow> string \<Rightarrow> bool \<Rightarrow> (int \<times> at_response option \<times> atc) option" where
  "send_multi w cmd pre want = at_call w (\<lambda>c es. at_send_command_multiline c cmd pre want es)"

definition at_response_error :: "int \<Rightarrow> at_response option \<Rightarrow> bool" where
  "at_response_error err p_response \<longleftrightarrow> err \<noteq> 0 \<or>
     (case p_response of None \<Rightarrow> True | Some p \<Rightarrow> finalResponse p = None \<or> \<not> success p)"

text \<open>\<open>p_response->p_intermediates->line\<close>.\<close>

definition first_line :: "at_response option \<Rightarrow> string option" where
  "first_line p_response = (case p_response of None \<Rightarrow> None
     | Some p \<Rightarrow> (case p_intermediates p of [] \<Rightarrow> None | l # _ \<Rightarrow> Some l))"

definition lines :: "at_response option \<Rightarrow> string list" where
  "lines p_response = (case p_response of None \<Rightarrow> [] | Some p \<Rightarrow> p_intermediates p)"

section \<open>Numbers in addresses\<close>

text \<open>One \<open>%d\<close> of \<open>sscanf\<close>: the value and the rest of the string.\<close>

definition scan_d :: "string \<Rightarrow> (int \<times> string) option" where
  "scan_d s =
     (let t = dropWhile c_isspace s; (neg, r) = split_sign t; ds = takeWhile c_isdigit r
      in if ds = [] then None
         else Some (c_int (if neg then - int (digits_value 10 ds) else int (digits_value 10 ds)), drop (length ds) r))"

text \<open>One \<open>%02X\<close>: at most two characters.\<close>

definition scan_X2 :: "string \<Rightarrow> (int \<times> string) option" where
  "scan_X2 s =
     (let t = dropWhile c_isspace s; ds = takeWhile (is_digit_of 16) (take 2 t)
      in if ds = [] then None else Some (int (digits_value 16 ds), drop (length ds) t))"

definition literal_dot :: "string \<Rightarrow> string option" where
  "literal_dot s = (case s of [] \<Rightarrow> None | c # r \<Rightarrow> if c = CHR ''.'' then Some r else None)"

fun scan_dotted :: "nat \<Rightarrow> string \<Rightarrow> int list" where
  "scan_dotted 0 s = []"
| "scan_dotted (Suc n) s = (case scan_d s of None \<Rightarrow> []
     | Some (v, r) \<Rightarrow> v # (case literal_dot r of None \<Rightarrow> [] | Some r' \<Rightarrow> scan_dotted n r'))"

fun scan_hex_bytes :: "nat \<Rightarrow> string \<Rightarrow> int list" where
  "scan_hex_bytes 0 s = []"
| "scan_hex_bytes (Suc n) s = (case scan_X2 s of None \<Rightarrow> [] | Some (v, r) \<Rightarrow> v # scan_hex_bytes n r)"

text \<open>\<open>int addr[4] = {0, 0, 0, 0}\<close> with the values that were converted.\<close>

definition fill4 :: "int list \<Rightarrow> int list" where
  "fill4 vs = take 4 (vs @ [0, 0, 0, 0])"

definition pack_addr :: "int list \<Rightarrow> u32" where
  "pack_addr a = word_of_int (a ! 0) OR push_bit 8 (word_of_int (a ! 1)) OR
     push_bit 16 (word_of_int (a ! 2)) OR push_bit 24 (word_of_int (a ! 3))"

section \<open>Requests\<close>

definition requestBaseBandVersion :: "atc \<Rightarrow> profile \<Rightarrow> (int \<times> profile \<times> atc) option" where
  "requestBaseBandVersion w profile = do {
     (err, p_response, w) \<leftarrow> send_multi w ''AT+CGMR'' [] True;
     (if at_response_error err p_response then Some (-1, profile, w)
      else case first_line p_response of
          Some l \<Rightarrow> Some (0, profile\<lparr>BaseBandVersion := take 63 l\<rparr>, w)
        | None \<Rightarrow> Some (-1, profile, w)) }"

text \<open>The status is \<open>None\<close> where \<open>*pSIMStatus\<close> is not written.\<close>

definition cpin_status :: "string \<Rightarrow> sim_status option" where
  "cpin_status cpinResult =
     (if cpinResult = ''SIM PIN'' then Some SIM_PIN
      else if cpinResult = ''SIM PUK'' then Some SIM_PUK
      else if cpinResult = ''PH-NET PIN'' then None
      else if cpinResult \<noteq> ''READY'' then Some SIM_ABSENT
      else Some SIM_READY)"

definition requestGetSIMStatus :: "atc \<Rightarrow> (int \<times> sim_status option \<times> atc) option" where
  "requestGetSIMStatus w = do {
     (err, p_response, w) \<leftarrow> send_single w ''AT+CPIN?'' ''+CPIN:'' True;
     (if at_response_error err p_response then Some (err, Some SIM_NOT_READY, w)
      else let cme = at_get_cme_error p_response in
        if cme \<noteq> CME_SUCCESS
        then Some (err, Some (if cme = 10 \<or> cme = 3 \<or> cme = 13 then SIM_ABSENT else SIM_NOT_READY), w)
        else do {
          cpinLine \<leftarrow> first_line p_response;
          (case at_tok_start (Some cpinLine) of (err, cur) \<Rightarrow>
            if err < 0 then Some (err, Some SIM_NOT_READY, w)
            else case at_tok_nextstr cur of (err, res, cur') \<Rightarrow>
              if err < 0 then Some (err, Some SIM_NOT_READY, w)
              else do {
                r \<leftarrow> res; cpinResult \<leftarrow> r;
                (case cpin_status cpinResult of
                   None \<Rightarrow> Some (5, None, w)
                 | Some st \<Rightarrow> Some (err, Some st, w)) }) }) }"

text \<open>The response is not asked for, so \<open>p_response\<close> stays null.\<close>

definition requestEnterSimPin :: "atc \<Rightarrow> string \<Rightarrow> (int \<times> atc) option" where
  "requestEnterSimPin w pPinCode = do {
     (err, _, w) \<leftarrow> send_cmd w (''AT+CPIN='' @ pPinCode) False;
     Some (if \<not> at_response_error err None then 0 else -1, w) }"

definition ipStr :: "int \<Rightarrow> string option" where
  "ipStr i = (if i = 0 then Some ''NULL'' else if i = 1 then Some ''IPV4'' else if i = 2 then Some ''IPV6''
     else if i = 3 then Some ''IPV4V6'' else None)"

definition qicsgp_cmd :: "int \<Rightarrow> int \<Rightarrow> string \<Rightarrow> string \<Rightarrow> string \<Rightarrow> int \<Rightarrow> string" where
  "qicsgp_cmd n ip a u p au = ''AT+QICSGP='' @ show_int n @ '','' @ show_int ip @ '','' @
     quoted a @ '','' @ quoted u @ '','' @ quoted p @ '','' @ show_int au"

definition requestSetProfile :: "atc \<Rightarrow> profile \<Rightarrow> (int \<times> atc) option" where
  "requestSetProfile w profile = do {
     ip \<leftarrow> ipStr (iptype profile);
     (let new_apn = str_or_empty (apn profile); new_user = str_or_empty (user profile);
          new_password = str_or_empty (password profile)
      in if old_apn profile = new_apn \<and> old_user profile = new_user \<and> old_password profile = new_password \<and>
            old_iptype profile = iptype profile \<and> old_auth profile = auth profile
         then Some (0, w)
         else do {
           (err, p_response, w) \<leftarrow> send_cmd w
              (qicsgp_cmd (pdp profile) (iptype profile) new_apn new_user new_password (auth profile)) True;
           (if at_response_error err p_response
            then do {
              (_, _, w) \<leftarrow> send_cmd w (''AT+CGDCONT='' @ show_int (pdp profile) @ '','' @ quoted ip @ '','' @ quoted new_apn) True;
              Some (1, w) }
            else Some (1, w)) }) }"

text \<open>\<open>_re_check\<close>: when the modem answers without its line, empty settings are written and the
  question is asked again, at most \<open>n\<close> times here.\<close>

primrec qicsgp_query :: "nat \<Rightarrow> atc \<Rightarrow> profile \<Rightarrow> (int \<times> at_response option \<times> atc) option" where
  "qicsgp_query 0 w profile = None"
| "qicsgp_query (Suc n) w profile = do {
     (err, p_response, w) \<leftarrow> send_single w (''AT+QICSGP='' @ show_int (pdp profile)) ''+QICSGP:'' True;
     (if err = AT_ERROR_INVALID_RESPONSE \<and> p_response = None
      then do {
        (err, p_response, w) \<leftarrow> send_cmd w (qicsgp_cmd (pdp profile) (iptype profile) [] [] [] 0) True;
        (if \<not> at_response_error err p_response then qicsgp_query n w profile else Some (err, p_response, w)) }
      else Some (err, p_response, w)) }"

text \<open>The search for the context in the answer to \<open>AT+CGDCONT?\<close>: \<open>pdp\<close> is what the variable
  holds, and the result is the IP type and the APN.\<close>

fun cgdcont_search :: "string list \<Rightarrow> int \<Rightarrow> int \<Rightarrow> string option \<Rightarrow> (int \<times> string option) option" where
  "cgdcont_search [] want ip a = Some (ip, a)"
| "cgdcont_search (l # ls) want ip a =
     (case at_tok_scanf (Some l) ''%d%s%s'' of (err, out) \<Rightarrow>
       (if err = 3 \<and> arg_int out 0 0 = want
        then do {
          t \<leftarrow> arg_str out 1 None;
          Some (if c_strcasecmp_eq t ''IPV4V6'' then 3 else if c_strcasecmp_eq t ''IPV6'' then 2 else 1,
            arg_str out 2 a) }
        else cgdcont_search ls want ip None))"

definition choose_iptype :: "profile \<Rightarrow> int" where
  "choose_iptype profile = (if enable_ipv4 profile \<and> enable_ipv6 profile then 3
     else if enable_ipv6 profile then 2 else 1)"

text \<open>The end of the function: the values go to the profile; the IP type indexes the table of
  names for the log.\<close>

definition store_old :: "profile \<Rightarrow> string option \<Rightarrow> string option \<Rightarrow> string option \<Rightarrow> int \<Rightarrow> int \<Rightarrow> profile option" where
  "store_old profile a u p au ip = do {
     _ \<leftarrow> ipStr ip;
     Some (profile\<lparr>
       old_apn := take 64 (str_or_empty a), old_user := take 64 (str_or_empty u),
       old_password := take 64 (str_or_empty p), old_auth := au, old_iptype := ip\<rparr>) }"

text \<open>\<open>junk\<close> is the indeterminate value of the local \<open>pdp\<close>, which nothing sets before the first
  test. The \<open>AT+QICSGP\<close> line gives all five values to the profile whatever the result is.\<close>

definition requestGetProfile :: "int \<Rightarrow> atc \<Rightarrow> profile \<Rightarrow> (int \<times> profile \<times> atc) option" where
  "requestGetProfile junk w profile =
     (let profile = profile\<lparr>iptype := choose_iptype profile\<rparr> in do {
       (err, p_response, w) \<leftarrow> qicsgp_query (length (script w) + 1) w profile;
       (if \<not> at_response_error err p_response
        then do {
          l \<leftarrow> first_line p_response;
          (case at_tok_scanf (Some l) ''%d%s%s%s%d'' of (err, out) \<Rightarrow> do {
            profile' \<leftarrow> store_old profile (arg_str out 1 (Some [])) (arg_str out 2 (Some [])) (arg_str out 3 (Some []))
                (arg_int out 4 0) (arg_int out 0 1);
            Some (if err \<noteq> 4 \<or> junk \<noteq> pdp profile then -1 else 0, profile', w) }) }
        else do {
          (err, p_response, w) \<leftarrow> send_multi w ''AT+CGDCONT?'' ''+CGDCONT:'' True;
          (if at_response_error err p_response
           then do {
             profile' \<leftarrow> store_old profile (Some []) (Some []) (Some []) 0 1;
             Some (-1, profile', w) }
           else do {
             (ip, a) \<leftarrow> cgdcont_search (lines p_response) (pdp profile) 1 (Some []);
             profile' \<leftarrow> store_old profile a (Some []) (Some []) 0 ip;
             Some (0, profile', w) }) }) })"

text \<open>The registration query that fits the radio technology in use.\<close>

definition reg_command :: "int \<Rightarrow> (string \<times> string) option" where
  "reg_command cops_act =
     (if cops_act = 2 \<or> cops_act = 4 \<or> cops_act = 5 \<or> cops_act = 6 then Some (''AT+CGREG?'', ''+CGREG:'')
      else if cops_act = 7 \<or> cops_act = 13 then Some (''AT+CEREG?'', ''+CEREG:'')
      else if cops_act = 10 \<or> cops_act = 11 \<or> cops_act = 12 then Some (''AT+C5GREG?'', ''+C5GREG:'')
      else None)"

text \<open>The value of \<open>state\<close> after the line has been read, \<open>None\<close> on \<open>goto error\<close>.\<close>

definition reg_state :: "string \<Rightarrow> int option" where
  "reg_state line =
     (let commas = at_tok_count (Some line) in
      if commas = 0 then (case at_tok_nextint (Some line) of (err, v, _) \<Rightarrow> if err < 0 then None else v)
      else if commas = 1 then (case at_tok_scanf (Some line) ''%d%d'' of (err, out) \<Rightarrow>
        if err \<noteq> 2 then None else Some (arg_int out 1 0))
      else if commas = 2 then (case at_tok_scanf (Some line) ''%d%x%x'' of (err, out) \<Rightarrow>
        if err \<noteq> 3 then None else Some (arg_int out 1 0))
      else if commas = 3 then (case at_tok_scanf (Some line) ''%d%d%x%x'' of (err, out) \<Rightarrow>
        if err \<noteq> 4 then None else Some (arg_int out 1 0))
      else if commas \<le> 7 then (case at_tok_scanf (Some line) ''%d%d%x%x%d'' of (err, out) \<Rightarrow>
        if err \<noteq> 5 then None else Some (arg_int out 1 0))
      else None)"

definition COPS_QUERY :: string where
  "COPS_QUERY = ''AT+COPS=3,0;+COPS?;+COPS=3,1;+COPS?;+COPS=3,2;+COPS?''"

text \<open>The loop over the operator lines leaves after the first; \<open>None\<close> is its \<open>goto error\<close>.\<close>

definition cops_access :: "string list \<Rightarrow> int option" where
  "cops_access ls = (case ls of [] \<Rightarrow> Some (-1)
     | l # _ \<Rightarrow> (case at_tok_scanf (Some l) ''%d%d%s%d'' of (err, out) \<Rightarrow>
         if err \<noteq> 4 then None else Some (arg_int out 3 (-1))))"

text \<open>The second question and its answer: result, \<open>*pPSAttachedState\<close>, and the state.\<close>

definition reg_query :: "atc \<Rightarrow> string \<Rightarrow> string \<Rightarrow> (int \<times> byte \<times> atc) option" where
  "reg_query w cmd pre = do {
     (err, p_response, w) \<leftarrow> send_single w cmd pre True;
     (if at_response_error err p_response then Some (0, 0, w)
      else case first_line p_response of None \<Rightarrow> Some (0, 0, w)
        | Some line \<Rightarrow> (case reg_state line of None \<Rightarrow> Some (0, 0, w)
           | Some st \<Rightarrow> Some (0, if st = 1 \<or> st = 5 then 1 else 0, w))) }"

definition requestRegistrationState :: "atc \<Rightarrow> (int \<times> byte \<times> atc) option" where
  "requestRegistrationState w = do {
     (err, p_response, w) \<leftarrow> send_multi w COPS_QUERY ''+COPS:'' True;
     (if at_response_error err p_response then Some (-1, 0, w)
      else case cops_access (lines p_response) of None \<Rightarrow> Some (0, 0, w)
        | Some cops_act \<Rightarrow>
          (case reg_command cops_act of None \<Rightarrow> Some (0, 0, w)
           | Some (cmd, pre) \<Rightarrow> reg_query w cmd pre)) }"

text \<open>The search in the answer to \<open>AT+CGACT?\<close>: the state of the context \<open>pdp\<close>. \<open>cid\<close> is what
  the variable holds where the line does not set it.\<close>

fun cgact_search :: "string list \<Rightarrow> int \<Rightarrow> int \<Rightarrow> int \<Rightarrow> bool \<Rightarrow> int" where
  "cgact_search [] n st cid fresh = st"
| "cgact_search (l # ls) n st cid fresh =
     (case at_tok_scanf (Some l) ''%d%d'' of (err, out) \<Rightarrow>
       let cid' = arg_int out 0 (if fresh then 0 else cid); st' = arg_int out 1 0 in
       if cid' = n then st' else cgact_search ls n 0 cid' fresh)"

definition netdevctl_cmd :: "bool \<Rightarrow> int \<Rightarrow> int \<Rightarrow> string" where
  "netdevctl_cmd asr n op = ''AT+QNETDEVCTL='' @
     (if asr then show_int op @ '','' @ show_int n else show_int n @ '','' @ show_int op) @ '','' @ show_int op"

text \<open>At most 15 questions for the device status, one second apart. \<open>Inl\<close> is an error of the
  call itself.\<close>

primrec poll_netdev :: "nat \<Rightarrow> int \<Rightarrow> int \<Rightarrow> atc \<Rightarrow> (int \<times> bool \<times> atc) option" where
  "poll_netdev 0 n err w = Some (err, True, w)"
| "poll_netdev (Suc t) n err w = do {
     (err, p_response, w) \<leftarrow> send_single w (''AT+QNETDEVSTATUS='' @ show_int n) ''+QNETDEVSTATUS'' True;
     (if err \<noteq> 0 then Some (err, False, w)
      else if \<not> at_response_error err p_response then Some (err, True, w)
      else poll_netdev t n err w) }"

definition send_event :: "atc \<Rightarrow> main_event \<Rightarrow> atc" where
  "send_event w e = w\<lparr>to_main := to_main w @ [e]\<rparr>"

text \<open>The activation of the context, for modems in ASR style: \<open>Inl\<close> on \<open>goto _error\<close>.\<close>

definition activate_context :: "atc \<Rightarrow> int \<Rightarrow> ((int \<times> atc) + atc) option" where
  "activate_context w n = do {
     (err, p_response, w) \<leftarrow> send_multi w ''AT+CGACT?'' ''+CGACT:'' True;
     (if at_response_error err p_response then Some (Inl (err, w))
      else if cgact_search (lines p_response) n 0 0 True = 0
      then do {
        (err, p_response, w) \<leftarrow> send_cmd w (''AT+CGACT=1,'' @ show_int n) True;
        Some (if at_response_error err p_response then Inl (err, w) else Inr w) }
      else Some (Inr w)) }"

definition requestSetupDataCall :: "atc \<Rightarrow> profile \<Rightarrow> int \<Rightarrow> (int \<times> atc) option" where
  "requestSetupDataCall w profile fam =
     (let n = pdp profile; asr = asr_style_atc w in do {
       r \<leftarrow> (if asr then activate_context w n else Some (Inr w));
       (case r of Inl (err, w) \<Rightarrow> Some (err, w)
        | Inr w \<Rightarrow> do {
            (err, p_response, w) \<leftarrow> send_cmd w (netdevctl_cmd asr n 1) True;
            (if at_response_error err p_response then Some (err, w)
             else do {
               (err, go_on, w) \<leftarrow> (if asr then Some (err, True, w) else poll_netdev 15 n err w);
               Some (err, if go_on then send_event w RIL_UNSOL_DATA_CALL_LIST_CHANGED else w) }) }) })"

text \<open>The first address field of the status line: dotted or eight hexadecimal digits.\<close>

definition netdev_address :: "string option \<Rightarrow> u32" where
  "netdev_address ipv4_address = (case ipv4_address of None \<Rightarrow> 0
     | Some s \<Rightarrow> if s = [] then 0
         else if c_strstr s ''.'' \<noteq> None then pack_addr (fill4 (scan_dotted 4 s))
         else pack_addr (rev (fill4 (scan_hex_bytes 4 s))))"

definition at_netdevstatus :: "atc \<Rightarrow> int \<Rightarrow> (int \<times> u32 \<times> atc) option" where
  "at_netdevstatus w n = do {
     (err, p_response, w) \<leftarrow> send_single w (''AT+QNETDEVSTATUS='' @ show_int n) ''+QNETDEVSTATUS'' True;
     (if at_response_error err p_response then Some (0, 0, w)
      else case first_line p_response of None \<Rightarrow> Some (0, 0, w)
        | Some l \<Rightarrow> (case at_tok_scanf (Some l) ''%s%s%s%s%s%s%s%s%s%s'' of (err, out) \<Rightarrow>
            Some (0, if 0 < err then netdev_address (arg_str out 0 None) else 0, w))) }"

text \<open>The loop over the \<open>+QNETDEVCTL\<close> lines: \<open>bind\<close>, \<open>cid\<close> and \<open>state\<close> keep their values from
  one line to the next. \<open>cid\<close> starts indeterminate.\<close>

fun netdevctl_scan :: "string list \<Rightarrow> int \<Rightarrow> int \<Rightarrow> int \<Rightarrow> int \<Rightarrow> int \<times> int \<times> int" where
  "netdevctl_scan [] n b cid st = (b, cid, st)"
| "netdevctl_scan (l # ls) n b cid st =
     (case at_tok_scanf (Some l) ''%d%d%d%d'' of (err, out) \<Rightarrow>
       let b' = arg_int out 0 b; cid' = arg_int out 1 cid; st' = arg_int out 3 st in
       if err \<noteq> 4 \<or> cid' \<noteq> n then netdevctl_scan ls n b' cid' st'
       else netdevctl_scan ls n (if b' \<noteq> 1 then 0 else b') cid' st')"

definition requestQueryDataCall :: "int \<Rightarrow> atc \<Rightarrow> int \<Rightarrow> (int \<times> byte \<times> atc) option" where
  "requestQueryDataCall junk w fam =
     (let n = s_pdp w in
      if \<not> asr_style_atc w
      then do {
        (err, v4Addr, w) \<leftarrow> at_netdevstatus w n;
        Some (err, if err = 0 \<and> v4Addr \<noteq> 0 then QWDS_PKT_DATA_CONNECTED else QWDS_PKT_DATA_DISCONNECTED, w) }
      else do {
        (err, p_response, w) \<leftarrow> send_multi w ''AT+QNETDEVCTL?'' ''+QNETDEVCTL:'' True;
        (if at_response_error err p_response then Some (0, QWDS_PKT_DATA_DISCONNECTED, w)
         else case netdevctl_scan (lines p_response) n 0 junk 0 of (b, cid, st) \<Rightarrow>
           if b = 0 \<or> st = 0 then Some (0, QWDS_PKT_DATA_DISCONNECTED, w)
           else do {
             (err, p_response, w) \<leftarrow> send_multi w ''AT+CGACT?'' ''+CGACT:'' True;
             (if at_response_error err p_response then Some (0, QWDS_PKT_DATA_DISCONNECTED, w)
              else Some (0, if cgact_search (lines p_response) n st cid False \<noteq> 0
                then QWDS_PKT_DATA_CONNECTED else QWDS_PKT_DATA_DISCONNECTED, w)) }) })"

definition requestDeactivateDefaultPDP :: "atc \<Rightarrow> profile \<Rightarrow> int \<Rightarrow> (int \<times> atc) option" where
  "requestDeactivateDefaultPDP w profile fam = do {
     (_, _, w) \<leftarrow> send_cmd w (netdevctl_cmd (asr_style_atc w) (pdp profile) 0) False;
     Some (0, w) }"

text \<open>The loop over the \<open>+CGPADDR\<close> lines; \<open>n\<close> is the variable \<open>pdp\<close> the lines overwrite.\<close>

fun cgpaddr_search :: "string list \<Rightarrow> int \<Rightarrow> int \<Rightarrow> u32" where
  "cgpaddr_search [] want n = 0"
| "cgpaddr_search (l # ls) want n =
     (case at_tok_scanf (Some l) ''%d%s%s'' of (err, out) \<Rightarrow>
       let n' = arg_int out 0 n in
       if err < 2 \<or> n' \<noteq> want then cgpaddr_search ls want n'
       else case arg_str out 1 None of
           Some ip \<Rightarrow> pack_addr (fill4 (scan_dotted 4 ip))
         | None \<Rightarrow> cgpaddr_search ls want n')"

definition requestGetIPAddress :: "atc \<Rightarrow> profile \<Rightarrow> int \<Rightarrow> (int \<times> profile \<times> atc) option" where
  "requestGetIPAddress w profile fam = do {
     (v4Addr, w) \<leftarrow>
       (if \<not> asr_style_atc w then do { (_, v4Addr, w) \<leftarrow> at_netdevstatus w (pdp profile); Some (v4Addr, w) }
        else do {
          (err, p_response, w) \<leftarrow> send_single w (''AT+CGPADDR='' @ show_int (pdp profile)) ''+CGPADDR:'' True;
          Some (if at_response_error err p_response then 0
            else cgpaddr_search (lines p_response) (pdp profile) (pdp profile), w) });
     Some (if v4Addr \<noteq> 0 then 0 else -1,
       if v4Addr \<noteq> 0 then profile\<lparr>ipv4 := (ipv4 profile)\<lparr>Address := v4Addr\<rparr>\<rparr> else profile, w) }"

text \<open>The loop over the \<open>+QENG\<close> lines. The fields of a cell only go to the log; what is left is
  whether a line of a 5G cell beside an LTE cell was seen. \<open>None\<close> where a string that is compared
  was not stored, which a field \<open>-\<close> in its place does.\<close>

fun qeng_nsa :: "string list \<Rightarrow> bool \<Rightarrow> bool option" where
  "qeng_nsa [] nsa = Some nsa"
| "qeng_nsa (l # ls) nsa =
     (case at_tok_scanf (Some l) ''%s%s'' of (err, out) \<Rightarrow>
       if err \<noteq> 2 then qeng_nsa ls nsa
       else do {
         type \<leftarrow> arg_str out 0 None;
         (if type \<noteq> ''servingcell'' then qeng_nsa ls nsa
          else do {
            state \<leftarrow> arg_str out 1 None;
            (if state = ''SEARCH'' \<or> state = ''LIMSRV'' then qeng_nsa ls nsa
             else if state = ''NOCONN'' \<or> state = ''CONNECT''
             then (case at_tok_scanf (Some l) ''%s%s%s'' of (err, out) \<Rightarrow>
               if err \<noteq> 3 then qeng_nsa ls nsa
               else do { rat \<leftarrow> arg_str out 2 None; qeng_nsa ls (nsa \<or> rat = ''NR5G-NSA'') })
             else qeng_nsa ls (nsa \<or> state = ''NR5G-NSA'')) }) })"

definition requestGetSignalInfo :: "atc \<Rightarrow> (int \<times> atc) option" where
  "requestGetSignalInfo w = do {
     (err, p_response, w) \<leftarrow> send_single w ''at+cops?'' ''+COPS:'' True;
     (if at_response_error err p_response then Some (-1, w)
      else case first_line p_response of None \<Rightarrow> Some (-1, w)
      | Some l \<Rightarrow> (case at_tok_scanf (Some l) ''%d%d%s%d'' of (err, out) \<Rightarrow>
          if err \<noteq> 4 then Some (0, w)
          else do {
            (err, p_response, w) \<leftarrow> send_multi w (''at+qeng='' @ quoted ''servingcell'') ''+QENG:'' True;
            (if at_response_error err p_response then Some (0, w)
             else do {
               nsa \<leftarrow> qeng_nsa (lines p_response) False;
               (if nsa
                then do { (_, _, w) \<leftarrow> send_multi w ''at+qendc'' ''+QENDC:'' True; Some (0, w) }
                else Some (0, w)) }) })) }"

definition requestGetICCID :: "atc \<Rightarrow> (int \<times> atc) option" where
  "requestGetICCID w = do {
     (err, p_response, w) \<leftarrow> send_single w ''AT+QCCID'' ''+QCCID:'' True;
     (if at_response_error err p_response then Some (-1, w)
      else case first_line p_response of None \<Rightarrow> Some (-1, w)
      | Some l \<Rightarrow> (case at_tok_scanf (Some l) ''%s'' of (err, out) \<Rightarrow>
          if err \<noteq> 1 then Some (-1, w)
          else Some (if str_or_empty (arg_str out 0 None) \<noteq> [] then 0 else -1, w))) }"

definition requestGetIMSI :: "atc \<Rightarrow> (int \<times> atc) option" where
  "requestGetIMSI w = do {
     (err, p_response, w) \<leftarrow> at_call w (\<lambda>c es. at_send_command_numeric c ''AT+CIMI'' True es);
     (if at_response_error err p_response then Some (-1, w)
      else case first_line p_response of None \<Rightarrow> Some (-1, w) | Some imsi \<Rightarrow> Some (0, w)) }"

text \<open>The network address translation setting is changed when it does not fit the style; the
  modem is then restarted.\<close>

definition fix_nat :: "atc \<Rightarrow> (int \<times> atc) option" where
  "fix_nat w = do {
     (err, p_response, w) \<leftarrow> send_single w (''AT+QCFG='' @ quoted ''NAT'') ''+QCFG:'' True;
     (if at_response_error err p_response then Some (err, w)
      else do {
        l \<leftarrow> first_line p_response;
        (case at_tok_scanf (Some l) ''%s%d'' of (err, out) \<Rightarrow>
          let new_nat = (if asr_style_atc w then 1 else 0) in
          if err = 2 \<and> arg_int out 1 0 \<noteq> new_nat
          then do {
            (err, p_response, w) \<leftarrow> send_cmd w (''AT+QCFG='' @ quoted ''NAT'' @ '','' @ show_int new_nat) True;
            (if \<not> at_response_error err p_response
             then do {
               (err, _, w) \<leftarrow> send_cmd w ''at+cfun=1,1'' False;
               Some (0, if err = 0 then w\<lparr>donot_exit := True\<rparr> else w) }
             else Some (0, w)) }
          else Some (0, w)) }) }"

definition query_style :: "atc \<Rightarrow> (int \<times> atc) option" where
  "query_style w = do {
     (err, p_response, w) \<leftarrow> send_single w ''AT+QNETDEVSTATUS=?'' ''+QNETDEVSTATUS:'' True;
     Some (err, if at_response_error err p_response then w\<lparr>asr_style_atc := True\<rparr> else w) }"

definition atc_init :: "atc \<Rightarrow> profile \<Rightarrow> (int \<times> atc) option" where
  "atc_init w profile =
     (if proxy profile \<noteq> [] then query_style (w\<lparr>s_pdp := pdp profile\<rparr>)
      else do {
        (err, c, es) \<leftarrow> at_handshake False (chan w) (case script w of [] \<Rightarrow> [] | e # _ \<Rightarrow> e);
        c' \<leftarrow> idle_events c es;
        (let w = w\<lparr>chan := c', script := tl (script w), to_main := to_main w @ new_events (chan w) c'\<rparr> in
         if err \<noteq> 0 then Some (err, w)
         else do {
           (_, _, w) \<leftarrow> send_single (w\<lparr>s_pdp := pdp profile\<rparr>) (''AT+QCFG='' @ quoted ''usbnet'') ''+QCFG:'' False;
           (_, _, w) \<leftarrow> send_multi w ''AT+QNETDEVCTL=?'' ''+QNETDEVCTL:'' False;
           (_, _, w) \<leftarrow> send_cmd w ''AT+CGREG=2'' False;
           (_, _, w) \<leftarrow> send_cmd w ''AT+CEREG=2'' False;
           (_, _, w) \<leftarrow> send_cmd w ''AT+C5GREG=2'' False;
           (_, w) \<leftarrow> query_style w;
           fix_nat w }) })"

section \<open>The calls end, whatever the modem does\<close>

lemma idle_total: "sp_response c = None \<Longrightarrow> \<exists>c'. idle_events c es = Some c' \<and> sp_response c' = None"
proof (induction es arbitrary: c)
  case Nil
  then show ?case by simp
next
  case (Cons e es)
  have "\<exists>c'. reader_line c l = Some c' \<and> sp_response c' = None" for l
    using Cons.prems
    by (auto simp: reader_line_def processLine_def handleUnsolicited_def split: option.split)
  moreover have "sp_response (reader_end c) = None" "sp_response (at_close c) = None"
    using Cons.prems by (simp_all add: reader_end_def onReaderClosed_def at_close_def)
  ultimately show ?case
    using Cons by (cases e) (auto, metis bind.bind_lunit)
qed

text \<open>A call hands over a complete response or an error.\<close>

definition answer_ok :: "int \<Rightarrow> at_response option \<Rightarrow> bool" where
  "answer_ok err out \<longleftrightarrow> (err = 0 \<longrightarrow> (\<exists>p. out = Some p \<and> finalResponse p \<noteq> None))"

lemma nolock_total:
  assumes "type = SINGLELINE \<or> type = MULTILINE \<longrightarrow> pre \<noteq> None"
  shows "\<exists>err out c' es'. at_send_command_full_nolock c cmd type pre pdu want es = Some (err, out, c', es')
    \<and> sp_response c' = None \<and> (want \<longrightarrow> answer_ok err out)"
  using send_command_total [OF assms, of c cmd pdu want es] by (auto simp: answer_ok_def)

lemma full_total:
  assumes "type = SINGLELINE \<or> type = MULTILINE \<longrightarrow> pre \<noteq> None"
  shows "\<exists>err out c' es'. at_send_command_full False c cmd type pre pdu want es = Some (err, out, c', es')
    \<and> sp_response c' = None \<and> (want \<longrightarrow> answer_ok err out)"
  using nolock_total [OF assms, of c cmd pdu want es] by (auto simp: at_send_command_full_def)

lemma at_call_total:
  assumes "\<And>c es. \<exists>err out c' es'. f c es = Some (err, out, c', es') \<and> sp_response c' = None \<and> P err out"
  shows "\<exists>err out w'. at_call w f = Some (err, out, w') \<and> P err out"
proof -
  obtain err out c es where f: "f (chan w) (case script w of [] \<Rightarrow> [] | e # _ \<Rightarrow> e) = Some (err, out, c, es)"
    "sp_response c = None" "P err out"
    using assms by blast
  then obtain c' where "idle_events c es = Some c'" using idle_total by blast
  with f show ?thesis by (auto simp: at_call_def)
qed

lemma send_cmd_total: "\<exists>err out w'. send_cmd w cmd want = Some (err, out, w') \<and> (want \<longrightarrow> answer_ok err out)"
  unfolding send_cmd_def at_send_command_def
  by (rule at_call_total) (rule full_total, simp)

lemma send_multi_total:
  "\<exists>err out w'. send_multi w cmd pre want = Some (err, out, w') \<and> (want \<longrightarrow> answer_ok err out)"
  unfolding send_multi_def at_send_command_multiline_def
  by (rule at_call_total) (rule full_total, simp)

lemma send_single_total:
  "\<exists>err out w'. send_single w cmd pre True = Some (err, out, w') \<and>
     (\<not> at_response_error err out \<longrightarrow> (\<exists>l. first_line out = Some l))"
  unfolding send_single_def
proof (rule at_call_total)
  fix c es
  obtain err out c' es' where f: "at_send_command_full False c (Some cmd) SINGLELINE (Some pre) None True es
      = Some (err, out, c', es')" "sp_response c' = None" "answer_ok err out"
    using full_total [of SINGLELINE "Some pre" c "Some cmd" None True es] by auto
  show "\<exists>err out c' es'. at_send_command_singleline c cmd pre True es = Some (err, out, c', es') \<and>
      sp_response c' = None \<and> (\<not> at_response_error err out \<longrightarrow> (\<exists>l. first_line out = Some l))"
  proof (cases "err = 0")
    case True
    with f(3) obtain p where p: "out = Some p" by (auto simp: answer_ok_def)
    with f True show ?thesis
      by (cases "p_intermediates p")
         (auto simp: at_send_command_singleline_def need_intermediate_def at_response_error_def first_line_def)
  next
    case False
    with f show ?thesis
      by (auto simp: at_send_command_singleline_def need_intermediate_def at_response_error_def)
  qed
qed

section \<open>A modem that answers\<close>

text \<open>The state after a command whose answer has no unsolicited line in it.\<close>

definition answered :: "atc \<Rightarrow> string \<Rightarrow> at_command_type \<Rightarrow> ch_event list list \<Rightarrow> atc" where
  "answered w cmd type rest = w\<lparr>chan := (chan w)\<lparr>s_sent := s_sent (chan w) @ cmd @ [CHR 0x0D], s_type := type,
     s_responsePrefix := None, s_smsPDU := None\<rparr>, script := rest\<rparr>"

definition answer :: "string list \<Rightarrow> string \<Rightarrow> ch_event list" where
  "answer ls f = map Ev_Line ls @ [Ev_Line f, Ev_Wake]"

definition at_ready :: "atc \<Rightarrow> bool" where
  "at_ready w \<longleftrightarrow> ready (chan w) \<and> \<not> s_atc_proxy (chan w)"

lemma at_ready_answered: "at_ready w \<Longrightarrow> at_ready (answered w cmd type rest)"
  by (simp add: at_ready_def answered_def ready_def)

lemma answered_sel [simp]:
  "script (answered w cmd type rest) = rest" "asr_style_atc (answered w cmd type rest) = asr_style_atc w"
  "s_pdp (answered w cmd type rest) = s_pdp w" "to_main (answered w cmd type rest) = to_main w"
  by (simp_all add: answered_def)

lemma event_lines_map: "event_lines (map Ev_Line ls) = ls"
  by (induction ls) simp_all

lemma send_full_answer:
  assumes "at_ready w" "\<forall>l \<in> set ls. plain_line l" "isFinalResponseSuccess f \<or> isFinalResponseError f"
    "\<not> isSMSUnsolicited f" "unsolicited_lines type pre ls = []"
  shows "at_send_command_full False (chan w) (Some cmd) type (Some pre) None True (answer ls f) =
    Some (0, Some \<lparr>success = isFinalResponseSuccess f, finalResponse = Some f, p_intermediates = response_lines type pre ls\<rparr>,
      chan (answered w cmd type []), [])"
proof -
  have q: "\<forall>e \<in> set (map Ev_Line ls). quiet_event e" using assms(2) by (auto simp: quiet_event_def)
  have r: "ready (chan w)" "\<not> s_atc_proxy (chan w)" using assms(1) by (simp_all add: at_ready_def)
  show ?thesis
    using command_collects [OF r(1) q assms(3,4), of cmd type pre "[]"] assms(5) r(2)
    by (simp add: answer_def event_lines_map answered_def notify_def)
qed

lemma send_multi_answer:
  assumes "at_ready w" "\<forall>l \<in> set ls. plain_line l \<and> starts_with l pre"
    "isFinalResponseSuccess f \<or> isFinalResponseError f" "\<not> isSMSUnsolicited f" "script w = answer ls f # rest"
  shows "send_multi w cmd pre True = Some (0, Some \<lparr>success = isFinalResponseSuccess f, finalResponse = Some f,
     p_intermediates = ls\<rparr>, answered w cmd MULTILINE rest)"
proof -
  have "unsolicited_lines MULTILINE pre ls = []" "response_lines MULTILINE pre ls = ls"
    using assms(2) by (simp_all add: unsolicited_lines_def response_lines_def)
  then show ?thesis
    using send_full_answer [of w ls f MULTILINE pre cmd] assms
    by (simp add: send_multi_def at_call_def at_send_command_multiline_def new_events_def answered_def List.map_filter_simps)
qed

lemma send_single_answer:
  assumes "at_ready w" "plain_line l" "starts_with l pre" "script w = answer [l] ''OK'' # rest"
  shows "send_single w cmd pre True = Some (0, Some \<lparr>success = True, finalResponse = Some ''OK'',
     p_intermediates = [l]\<rparr>, answered w cmd SINGLELINE rest)"
proof -
  have "unsolicited_lines SINGLELINE pre [l] = []" "response_lines SINGLELINE pre [l] = [l]"
    using assms(3) by (simp_all add: unsolicited_lines_def response_lines_def)
  moreover have "isFinalResponseSuccess ''OK''" "\<not> isSMSUnsolicited ''OK''" by code_simp+
  ultimately show ?thesis
    using send_full_answer [of w "[l]" "''OK''" SINGLELINE pre cmd] assms
    by (simp add: send_single_def at_call_def at_send_command_singleline_def need_intermediate_def
        new_events_def answered_def List.map_filter_simps)
qed

lemma send_single_error:
  assumes "at_ready w" "isFinalResponseError f" "\<not> isFinalResponseSuccess f" "\<not> isSMSUnsolicited f"
    "script w = answer [] f # rest"
  shows "send_single w cmd pre True = Some (0, Some \<lparr>success = False, finalResponse = Some f,
     p_intermediates = []\<rparr>, answered w cmd SINGLELINE rest)"
proof -
  have "unsolicited_lines SINGLELINE pre [] = []" "response_lines SINGLELINE pre [] = []"
    by (simp_all add: unsolicited_lines_def response_lines_def)
  then show ?thesis
    using send_full_answer [of w "[]" f SINGLELINE pre cmd] assms
    by (simp add: send_single_def at_call_def at_send_command_singleline_def need_intermediate_def
        new_events_def answered_def List.map_filter_simps)
qed

text \<open>The state as the AT channel has just been opened.\<close>

definition atc_start :: "ch_event list list \<Rightarrow> atc" where
  "atc_start es = \<lparr>chan = at_open channel_init 3 True False, script = es, asr_style_atc = False, s_pdp = 1,
     donot_exit = False, to_main = []\<rparr>"

lemma at_ready_start: "at_ready (atc_start es)"
  by (simp add: at_ready_def atc_start_def ready_open at_open_def channel_init_def ready_def)

section \<open>Reading the answers\<close>

lemma ok_final: "isFinalResponseSuccess ''OK''" "\<not> isSMSUnsolicited ''OK''"
  by code_simp+

lemma cme_final:
  "isFinalResponseError (''+CME ERROR: '' @ s)" "\<not> isFinalResponseSuccess (''+CME ERROR: '' @ s)"
  "\<not> isSMSUnsolicited (''+CME ERROR: '' @ s)"
  by (simp_all add: isFinalResponseError_def isFinalResponseSuccess_def isSMSUnsolicited_def
      s_finalResponsesError_def s_finalResponsesSuccess_def s_smsUnsoliciteds_def quoted_def)

lemmas line_tables = plain_line_def isFinalResponseError_def isFinalResponseSuccess_def isSMSUnsolicited_def
  s_finalResponsesError_def s_finalResponsesSuccess_def s_smsUnsoliciteds_def quoted_def

lemma at_tok_count_eq: "at_tok_count (Some s) = count_list s CHR '',''"
proof -
  have "foldl (\<lambda>commas c. if c = CHR '','' then Suc commas else commas) n s = n + count_list s CHR '',''" for n
    by (induction s arbitrary: n) simp_all
  then show ?thesis by (simp add: at_tok_count_def)
qed

lemma no_comma_count: "CHR '','' \<notin> set s \<Longrightarrow> count_list s CHR '','' = 0"
  by (rule count_list_0_iff [THEN iffD2])

text \<open>The answer to a registration query: the setting, the state, and after \<open>AT+C...REG=2\<close> also
  the location.\<close>

definition reg_line :: "string \<Rightarrow> int \<Rightarrow> int \<Rightarrow> (nat \<times> nat \<times> int) option \<Rightarrow> string" where
  "reg_line pre n st loc = render_line pre ((1, FInt n) # (0, FInt st) #
     (case loc of None \<Rightarrow> [] | Some (lac, cid, act) \<Rightarrow> [(0, FHex lac), (0, FHex cid), (0, FInt act)]))"

definition small :: "int \<Rightarrow> bool" where
  "small i \<longleftrightarrow> 0 \<le> i \<and> i < 100"

lemma length_show_nat: "n < 100 \<Longrightarrow> length (show_nat n) \<le> 2"
  by (subst show_nat.simps, subst show_nat.simps) (simp add: div_less_iff_less_mult)

lemma length_show_small: "small i \<Longrightarrow> length (show_int i) \<le> 2"
  using length_show_nat [of "nat i"] by (auto simp: small_def show_int_def)

lemma length_show_hex: "n < 16 ^ k \<Longrightarrow> 0 < k \<Longrightarrow> length (show_hex n) \<le> k"
proof (induction k arbitrary: n)
  case (Suc k)
  show ?case
  proof (cases "n < 16")
    case True
    then show ?thesis by (subst show_hex.simps) simp
  next
    case False
    then have "k \<noteq> 0" using Suc.prems(1) by (cases k) auto
    moreover have "n div 16 < 16 ^ k" using Suc.prems(1) by (simp add: less_mult_imp_div_less mult.commute)
    ultimately show ?thesis using Suc.IH [of "n div 16"] False by (subst show_hex.simps) simp
  qed
qed simp

lemma show_hex_no_comma: "CHR '','' \<notin> set (show_hex n)"
  using show_hex_char(1) [of "CHR '',''" n] by auto

lemma reg_state_line:
  assumes "small n" "small st" "CHR '':'' \<notin> set pre" "CHR '','' \<notin> set pre" "length pre \<le> 20"
    and "\<forall>lac cid act. loc = Some (lac, cid, act) \<longrightarrow> lac < 2 ^ 32 \<and> cid < 2 ^ 32 \<and> small act"
  shows "reg_state (reg_line pre n st loc) = Some st"
proof -
  have ns: "- (2 ^ 31) \<le> n" "n < 2 ^ 31" "- (2 ^ 31) \<le> st" "st < 2 ^ 31"
    using assms(1,2) by (simp_all add: small_def)
  note len = length_show_small [OF assms(1)] length_show_small [OF assms(2)]
  show ?thesis
  proof (cases loc)
    case None
    let ?fs = "[(1, FInt n), (0, FInt st)]"
    have line: "reg_line pre n st loc = render_line pre ?fs" by (simp add: reg_line_def None)
    have "at_tok_count (Some (render_line pre ?fs)) = 1"
      using assms(4) show_int_no_comma
      by (simp add: at_tok_count_eq render_line_def blanks_def no_comma_count)
    moreover have "at_tok_scanf (Some (render_line pre ?fs)) ''%d%d'' = (2, [(1, SInt st), (0, SInt n)])"
      using scanf_rendered [of ?fs pre] ns assms(3,5) len
      by (simp add: fields_fmt_def render_line_def blanks_def)
    ultimately show ?thesis unfolding line by (simp add: reg_state_def arg_int_def)
  next
    case (Some l)
    obtain lac cid act where l: "l = (lac, cid, act)" by (cases l)
    then have b: "lac < 2 ^ 32" "cid < 2 ^ 32" "small act" using assms(6) Some by auto
    then have act: "- (2 ^ 31) \<le> act" "act < 2 ^ 31" by (simp_all add: small_def)
    let ?fs = "[(1, FInt n), (0, FInt st), (0, FHex lac), (0, FHex cid), (0, FInt act)]"
    have line: "reg_line pre n st loc = render_line pre ?fs" by (simp add: reg_line_def Some l)
    have hl: "length (show_hex lac) \<le> 8" "length (show_hex cid) \<le> 8"
      using length_show_hex [of lac 8] length_show_hex [of cid 8] b by simp_all
    have "at_tok_count (Some (render_line pre ?fs)) = 4"
      using assms(4) show_int_no_comma show_hex_no_comma
      by (simp add: at_tok_count_eq render_line_def blanks_def no_comma_count)
    moreover have "at_tok_scanf (Some (render_line pre ?fs)) ''%d%d%x%x%d'' =
        (5, [(4, SInt act), (3, SInt (c_int (int cid))), (2, SInt (c_int (int lac))), (1, SInt st), (0, SInt n)])"
      using scanf_rendered [of ?fs pre] ns act b assms(3,5) len hl length_show_small [OF b(3)]
      by (simp add: fields_fmt_def render_line_def blanks_def)
    ultimately show ?thesis unfolding line by (simp add: reg_state_def arg_int_def)
  qed
qed

lemma le16_of_join: "le32 (le32_join a b c d) = [a, b, c, d]"
proof -
  have "a = ucast (le32_join a b c d)" "b = ucast (drop_bit 8 (le32_join a b c d))"
    "c = ucast (drop_bit 16 (le32_join a b c d))" "d = ucast (drop_bit 24 (le32_join a b c d))"
    by (rule bit_word_eqI, auto simp: le32_join_def bit_simps dest: bit_imp_le_length)+
  then show ?thesis by (simp add: le32_def)
qed

lemma scan_d_nat:
  assumes "n < 2 ^ 31" "r = [] \<or> \<not> c_isdigit (hd r)"
  shows "scan_d (show_nat n @ r) = Some (int n, r)"
proof -
  obtain c t where s: "show_nat n = c # t" using show_nat_ne by (meson list.exhaust)
  then have c: "c_isdigit c" using show_nat_all_digits [of c n] by simp
  have "takeWhile c_isdigit (show_nat n @ r) = show_nat n"
    using assms(2) show_nat_all_digits [of _ n] by (cases r) (auto simp: takeWhile_append)
  then have "takeWhile c_isdigit (c # t @ r) = show_nat n" by (simp add: s)
  moreover have "c_int (int n) = int n" using assms(1) by (intro c_int_small) simp_all
  ultimately show ?thesis
    using c_isdigit_facts [OF c] digits_value_show_nat [of n] c
    by (simp add: scan_d_def split_sign_def s Let_def)
qed

lemma unat_byte_of_nat: "n < 256 \<Longrightarrow> unat (of_nat n :: byte) = n"
  by (simp add: unsigned_of_nat take_bit_nat_eq_self)

definition dotted :: "nat \<Rightarrow> nat \<Rightarrow> nat \<Rightarrow> nat \<Rightarrow> string" where
  "dotted a b c d = show_nat a @ CHR ''.'' # show_nat b @ CHR ''.'' # show_nat c @ CHR ''.'' # show_nat d"

lemma scan_dotted_dotted:
  assumes "a < 256" "b < 256" "c < 256" "d < 256"
  shows "scan_dotted 4 (dotted a b c d) = [int a, int b, int c, int d]"
proof -
  have dot: "\<not> c_isdigit CHR ''.''" by (simp add: c_isdigit_def ord_of_def)
  have n: "scan_d (show_nat n @ CHR ''.'' # r) = Some (int n, CHR ''.'' # r)" if "n < 256" for n r
    using scan_d_nat [of n "CHR ''.'' # r"] that dot by simp
  have four: "(4 :: nat) = Suc (Suc (Suc (Suc 0)))" by simp
  have last: "scan_d (show_nat d) = Some (int d, [])" using scan_d_nat [of d "[]"] assms(4) by simp
  show ?thesis
    unfolding four dotted_def
    by (simp add: n [OF assms(1)] n [OF assms(2)] n [OF assms(3)] last literal_dot_def)
qed

lemma byte_of_nat_zero: "n < 256 \<Longrightarrow> (of_nat n :: byte) = 0 \<longleftrightarrow> n = 0"
  using unat_byte_of_nat [of n] by (auto simp: unat_eq_zero [symmetric] simp del: unat_eq_zero)

lemma pack_addr_bytes:
  assumes "a < 256" "b < 256" "c < 256" "d < 256"
  shows "le32 (pack_addr [int a, int b, int c, int d]) = [of_nat a, of_nat b, of_nat c, of_nat d]"
proof -
  have u: "(word_of_int (int n) :: u32) = ucast (of_nat n :: byte)" if "n < 256" for n
    using that by (simp add: unsigned_of_nat take_bit_nat_eq_self)
  show ?thesis
    using u [OF assms(1)] u [OF assms(2)] u [OF assms(3)] u [OF assms(4)]
      le16_of_join [of "of_nat a" "of_nat b" "of_nat c" "of_nat d"]
    by (simp add: pack_addr_def le32_join_def)
qed

lemma dotted_no_quote: "CHR 0x22 \<notin> set (dotted a b c d)"
  using show_nat_all_digits c_isdigit_facts(5) by (fastforce simp: dotted_def)

lemma length_show_nat3: "n < 256 \<Longrightarrow> length (show_nat n) \<le> 3"
  using length_show_nat [of "n div 10"] by (subst show_nat.simps) (simp add: div_less_iff_less_mult)

section \<open>Properties\<close>

text \<open>Property C17: the registration query asks for the radio technology in use and then for the
  registration that belongs to it, and reports the modem as attached exactly when the answer
  says registered at home (1) or roaming (5), with or without the location fields.\<close>

theorem registration_from_answers:
  assumes "at_ready w" and "script w = answer [cops] ''OK'' # answer [reg_line pre n st loc] ''OK'' # rest"
    and "cops = render_line ''+COPS'' [(1, FInt 0), (0, FInt 0), (0, FStr operator_name), (0, FInt act)]"
    and "reg_command act = Some (cmd, pre @ '':'')" and "small act" "small n" "small st"
    and "CHR 0x22 \<notin> set operator_name" "length operator_name \<le> 900"
    and "\<forall>lac cid a. loc = Some (lac, cid, a) \<longrightarrow> lac < 2 ^ 32 \<and> cid < 2 ^ 32 \<and> small a"
  shows "requestRegistrationState w = Some (0, if st = 1 \<or> st = 5 then 1 else 0,
     answered (answered w COPS_QUERY MULTILINE (tl (script w))) cmd SINGLELINE rest)"
proof -
  let ?w1 = "answered w COPS_QUERY MULTILINE (tl (script w))"
  let ?fs = "[(1, FInt 0), (0, FInt 0), (0, FStr operator_name), (0, FInt act)]"
  have pre: "pre = ''+CGREG'' \<or> pre = ''+CEREG'' \<or> pre = ''+C5GREG''"
    using assms(4) by (auto simp: reg_command_def split: if_splits)
  have a: "- (2 ^ 31) \<le> act" "act < 2 ^ 31" using assms(5) by (simp_all add: small_def)
  have pc: "plain_line cops" "starts_with cops ''+COPS:''"
    unfolding assms(3) by (simp_all add: render_line_def line_tables)
  have pr: "plain_line (reg_line pre n st loc)" "starts_with (reg_line pre n st loc) (pre @ '':'')"
    using pre by (auto simp: reg_line_def render_line_def line_tables)
  have q1: "send_multi w COPS_QUERY ''+COPS:'' True
      = Some (0, Some \<lparr>success = True, finalResponse = Some ''OK'', p_intermediates = [cops]\<rparr>, ?w1)"
    using send_multi_answer [OF assms(1), of "[cops]" "''+COPS:''" "''OK''" "tl (script w)" COPS_QUERY] pc ok_final assms(2)
    by simp
  have "at_tok_scanf (Some cops) ''%d%d%s%d'' = (4, [(3, SInt act), (2, SStr (Some operator_name)), (1, SInt 0), (0, SInt 0)])"
    using scanf_rendered [of ?fs "''+COPS''"] a assms(8,9) length_show_small [OF assms(5)] length_show_small [of 0]
    unfolding assms(3) by (simp add: fields_fmt_def render_line_def blanks_def small_def)
  then have act: "cops_access [cops] = Some act" by (simp add: cops_access_def arg_int_def)
  have q2: "send_single ?w1 cmd (pre @ '':'') True
      = Some (0, Some \<lparr>success = True, finalResponse = Some ''OK'', p_intermediates = [reg_line pre n st loc]\<rparr>,
        answered ?w1 cmd SINGLELINE rest)"
    by (rule send_single_answer [OF at_ready_answered [OF assms(1)] pr]) (simp add: assms(2))
  have st: "reg_state (reg_line pre n st loc) = Some st"
    by (rule reg_state_line [OF assms(6,7) _ _ _ assms(10)]) (use pre in auto)
  show ?thesis
    by (simp add: requestRegistrationState_def reg_query_def q1 at_response_error_def lines_def act assms(4) q2 first_line_def st)
qed

text \<open>The PIN is reported as refused whatever the modem answers: the response is not asked
  for, so the test of the missing response always says error.\<close>

theorem enter_pin_always_fails: "\<exists>w'. requestEnterSimPin w pin = Some (-1, w')"
  using send_cmd_total [of w "''AT+CPIN='' @ pin" False]
  by (auto simp: requestEnterSimPin_def at_response_error_def)

text \<open>Whatever the modem sends, the registration query ends with a result: it never
  follows a null pointer, and says attached only together with success.\<close>

theorem registration_query_total:
  "\<exists>r att w'. requestRegistrationState w = Some (r, att, w') \<and>
     (r = 0 \<and> (att = 0 \<or> att = 1) \<or> r = -1 \<and> att = 0)"
proof -
  obtain err out w1 where q1: "send_multi w COPS_QUERY ''+COPS:'' True = Some (err, out, w1)"
    using send_multi_total [of w COPS_QUERY "''+COPS:''" True] by blast
  have "\<exists>att w'. reg_query w1 cmd pre = Some (0, att, w') \<and> (att = 0 \<or> att = 1)" for cmd pre
    using send_single_total [of w1 cmd pre] by (auto simp: reg_query_def split: option.splits)
  then have r: "\<exists>r att w'. reg_query w1 cmd pre = Some (r, att, w') \<and> (r = 0 \<and> (att = 0 \<or> att = 1) \<or> r = -1 \<and> att = 0)" for cmd pre
    by blast
  show ?thesis
  proof (cases "at_response_error err out")
    case True
    with q1 show ?thesis by (simp add: requestRegistrationState_def)
  next
    case False
    with q1 r show ?thesis
      by (cases "cops_access (lines out)"; cases "reg_command (the (cops_access (lines out)))")
         (auto simp: requestRegistrationState_def)
  qed
qed

text \<open>An absent SIM card is never seen: whatever error number the modem gives for the
  card, the status is "not ready"; the branch for an absent card needs a successful response
  with an error number, which does not exist.\<close>

theorem sim_error_not_ready:
  assumes "at_ready w" and "script w = answer [] (''+CME ERROR: '' @ show_int n) # rest"
  shows "requestGetSIMStatus w = Some (0, Some SIM_NOT_READY, answered w ''AT+CPIN?'' SINGLELINE rest)"
  using send_single_error [OF assms(1) cme_final assms(2), of "''AT+CPIN?''" "''+CPIN:''"]
  by (simp add: requestGetSIMStatus_def at_response_error_def)

theorem sim_error_not_ready_witness:
  "requestGetSIMStatus (atc_start [answer [] (''+CME ERROR: '' @ show_int 10)])
   = Some (0, Some SIM_NOT_READY,
       answered (atc_start [answer [] (''+CME ERROR: '' @ show_int 10)]) ''AT+CPIN?'' SINGLELINE [])"
  by (rule sim_error_not_ready [OF at_ready_start]) (simp add: atc_start_def)

text \<open>Property C40: the IPv4 address of the context is read from the answer to \<open>AT+CGPADDR\<close>: its four
  numbers become the bytes of the profile's address in memory, and the request succeeds
  unless the address is 0.0.0.0.\<close>

theorem ip_address_from_answer:
  assumes "at_ready w" and "asr_style_atc w" and "small (pdp profile)"
    and "a < 256" "b < 256" "c < 256" "d < 256"
    and "script w = answer [render_line ''+CGPADDR'' [(1, FInt (pdp profile)), (0, FStr (dotted a b c d)), (0, FStr [])]] ''OK'' # rest"
  shows "\<exists>r profile' w'. requestGetIPAddress w profile fam = Some (r, profile', w') \<and>
     (if (a, b, c, d) = (0, 0, 0, 0) then r = -1 \<and> profile' = profile
      else r = 0 \<and> le32 (Address (ipv4 profile')) = [of_nat a, of_nat b, of_nat c, of_nat d])"
proof -
  let ?fs = "[(1, FInt (pdp profile)), (0, FStr (dotted a b c d)), (0, FStr [])]"
  let ?l = "render_line ''+CGPADDR'' ?fs" and ?cmd = "''AT+CGPADDR='' @ show_int (pdp profile)"
  have p: "- (2 ^ 31) \<le> pdp profile" "pdp profile < 2 ^ 31" using assms(3) by (simp_all add: small_def)
  have pl: "plain_line ?l" "starts_with ?l ''+CGPADDR:''" by (simp_all add: render_line_def line_tables)
  have q: "send_single w ?cmd ''+CGPADDR:'' True = Some (0, Some \<lparr>success = True, finalResponse = Some ''OK'',
      p_intermediates = [?l]\<rparr>, answered w ?cmd SINGLELINE rest)"
    by (rule send_single_answer [OF assms(1) pl assms(8)])
  have "length (dotted a b c d) \<le> 15"
    using length_show_nat3 [OF assms(4)] length_show_nat3 [OF assms(5)] length_show_nat3 [OF assms(6)]
      length_show_nat3 [OF assms(7)] by (simp add: dotted_def)
  then have "at_tok_scanf (Some ?l) ''%d%s%s'' = (3, [(2, SStr (Some [])), (1, SStr (Some (dotted a b c d))), (0, SInt (pdp profile))])"
    using scanf_rendered [of ?fs "''+CGPADDR''"] p dotted_no_quote length_show_small [OF assms(3)]
    by (simp add: fields_fmt_def render_line_def blanks_def)
  then have v: "cgpaddr_search [?l] (pdp profile) (pdp profile) = pack_addr [int a, int b, int c, int d]"
    using scan_dotted_dotted [OF assms(4-7)] by (simp add: arg_int_def arg_str_def fill4_def)
  have z: "pack_addr [int a, int b, int c, int d] = 0 \<longleftrightarrow> (a, b, c, d) = (0, 0, 0, 0)"
  proof
    assume "pack_addr [int a, int b, int c, int d] = 0"
    then have "[of_nat a, of_nat b, of_nat c, of_nat d] = le32 0"
      using pack_addr_bytes [OF assms(4-7)] by simp
    then show "(a, b, c, d) = (0, 0, 0, 0)"
      using byte_of_nat_zero assms(4-7) by (simp add: le32_def)
  qed (simp add: pack_addr_def)
  show ?thesis
    using q v z assms(2) pack_addr_bytes [OF assms(4-7)]
    by (auto simp: requestGetIPAddress_def at_response_error_def lines_def)
qed

theorem ip_address_from_answer_witness:
  "\<exists>r profile' w'. requestGetIPAddress ((atc_start [answer [''+CGPADDR: 1,'' @ quoted ''10.201.80.91'' @ '','' @ quoted []] ''OK''])
       \<lparr>asr_style_atc := True\<rparr>) (profile_zero\<lparr>pdp := 1\<rparr>) IpFamilyV4 = Some (r, profile', w') \<and>
     r = 0 \<and> le32 (Address (ipv4 profile')) = [10, 201, 80, 91]"
proof -
  let ?p = "profile_zero\<lparr>pdp := 1\<rparr>"
  have l: "render_line ''+CGPADDR'' [(1, FInt (pdp ?p)), (0, FStr (dotted 10 201 80 91)), (0, FStr [])]
      = ''+CGPADDR: 1,'' @ quoted ''10.201.80.91'' @ '','' @ quoted []" by code_simp
  let ?w = "(atc_start [answer [''+CGPADDR: 1,'' @ quoted ''10.201.80.91'' @ '','' @ quoted []] ''OK''])\<lparr>asr_style_atc := True\<rparr>"
  have r: "at_ready ?w"
    using at_ready_start by (simp add: at_ready_def atc_start_def)
  have s: "small (pdp ?p)" by (simp add: small_def)
  have sc: "script ?w = answer [render_line ''+CGPADDR'' [(1, FInt (pdp ?p)), (0, FStr (dotted 10 201 80 91)), (0, FStr [])]] ''OK'' # []"
    unfolding l by (simp add: atc_start_def)
  show ?thesis
    using ip_address_from_answer [OF r _ s _ _ _ _ sc, of IpFamilyV4] by simp
qed

theorem registration_from_answers_witness:
  "requestRegistrationState (atc_start [answer [''+COPS: 0,0,'' @ quoted ''CMCC'' @ '',7''] ''OK'',
      answer [''+CEREG: 2,1,'' @ quoted ''1f'' @ '','' @ quoted ''2b'' @ '',7''] ''OK'']) =
   Some (0, 1, answered (answered (atc_start [answer [''+COPS: 0,0,'' @ quoted ''CMCC'' @ '',7''] ''OK'',
      answer [''+CEREG: 2,1,'' @ quoted ''1f'' @ '','' @ quoted ''2b'' @ '',7''] ''OK'']) COPS_QUERY MULTILINE
      [answer [''+CEREG: 2,1,'' @ quoted ''1f'' @ '','' @ quoted ''2b'' @ '',7''] ''OK'']) ''AT+CEREG?'' SINGLELINE [])"
proof -
  let ?c = "''+COPS: 0,0,'' @ quoted ''CMCC'' @ '',7''" and ?r = "''+CEREG: 2,1,'' @ quoted ''1f'' @ '','' @ quoted ''2b'' @ '',7''"
  let ?w = "atc_start [answer [?c] ''OK'', answer [?r] ''OK'']" and ?loc = "Some (0x1f, 0x2b, 7) :: (nat \<times> nat \<times> int) option"
  have c: "?c = render_line ''+COPS'' [(1, FInt 0), (0, FInt 0), (0, FStr ''CMCC''), (0, FInt 7)]" by code_simp
  have r: "reg_line ''+CEREG'' 2 1 ?loc = ?r" by code_simp
  have s: "script ?w = answer [?c] ''OK'' # answer [reg_line ''+CEREG'' 2 1 ?loc] ''OK'' # []"
    unfolding r by (simp add: atc_start_def)
  have cmd: "reg_command 7 = Some (''AT+CEREG?'', ''+CEREG'' @ '':'')" by (simp add: reg_command_def)
  have t: "tl (script ?w) = [answer [?r] ''OK'']" by (simp add: atc_start_def)
  have "requestRegistrationState ?w = Some (0, if (1 :: int) = 1 \<or> (1 :: int) = 5 then 1 else 0,
      answered (answered ?w COPS_QUERY MULTILINE (tl (script ?w))) ''AT+CEREG?'' SINGLELINE [])"
    by (rule registration_from_answers [OF at_ready_start s c cmd]) (simp_all add: small_def)
  then show ?thesis unfolding t by simp
qed

end
