(* ===== verification/Request_Ops.thy ===== *)
theory Request_Ops
  imports Profile
begin

text \<open>
  The interface between the connection manager's main loop and a protocol
  (\<^verbatim>\<open>struct request_ops\<close> and \<^verbatim>\<open>struct qmi_device_ops\<close> of
  \<^verbatim>\<open>quectel_cm_5G/src/QMIThread.h\<close>): a record of requests over the protocol's own state
  \<open>'w\<close>. A member that may be null is an \<open>option\<close>. The locales state what the main loop
  relies on.
\<close>

section \<open>The tables of functions\<close>

type_synonym 'w profile_request = "'w \<Rightarrow> profile \<Rightarrow> (int \<times> profile \<times> 'w) option"
type_synonym 'w family_request = "'w \<Rightarrow> profile \<Rightarrow> int \<Rightarrow> (int \<times> profile \<times> 'w) option"
type_synonym 'w plain_request = "'w \<Rightarrow> (int \<times> 'w) option"

text \<open>A result through a pointer is an \<open>option\<close>: \<open>None\<close> where the request leaves the target as
  it was.\<close>

record 'w request_ops =
  rq_BaseBandVersion :: "'w profile_request option"
  rq_SetEthMode :: "'w profile_request option"
  rq_SetLoopBackState :: "('w \<Rightarrow> int \<Rightarrow> int \<Rightarrow> (int \<times> 'w) option) option"
  rq_GetSIMStatus :: "('w \<Rightarrow> (int \<times> sim_status option \<times> 'w) option) option"
  rq_EnterSimPin :: "('w \<Rightarrow> string \<Rightarrow> (int \<times> 'w) option) option"
  rq_SetProfile :: "'w profile_request option"
  rq_GetProfile :: "'w profile_request option"
  rq_RegistrationState :: "'w \<Rightarrow> (int \<times> byte option \<times> 'w) option"
  rq_SetupDataCall :: "'w family_request"
  rq_QueryDataCall :: "'w \<Rightarrow> int \<Rightarrow> (int \<times> byte option \<times> 'w) option"
  rq_DeactivateDefaultPDP :: "'w family_request"
  rq_GetIPAddress :: "'w family_request"
  rq_GetSignalInfo :: "'w plain_request option"
  rq_GetCellInfoList :: "'w plain_request option"
  rq_GetICCID :: "'w plain_request option"
  rq_GetIMSI :: "'w plain_request option"
  rq_GetCoexWWANState :: "'w plain_request option"

text \<open>The main loop compares \<open>profile->request_ops\<close> with the three tables.\<close>

datatype protocol = Qmi_Protocol | Mbim_Protocol | Atc_Protocol

text \<open>The device operations. The flag of \<open>dev_init\<close> tells whether it sets
  \<open>g_donot_exit_when_modem_hangup\<close>; \<open>dev_events\<close> takes the events the requests have sent to
  the main loop since it was last called, with the data of those that carry some.\<close>

record 'w device_ops =
  dev_init :: "('w \<Rightarrow> profile \<Rightarrow> (int \<times> profile \<times> bool \<times> 'w) option) option"
  dev_deinit :: "('w \<Rightarrow> 'w option) option"
  dev_events :: "'w \<Rightarrow> (main_event \<times> (byte \<times> u32) option) list \<times> 'w"

section \<open>What the main loop relies on\<close>

definition same_families :: "profile \<Rightarrow> profile \<Rightarrow> bool" where
  "same_families p q \<longleftrightarrow> enable_ipv4 q = enable_ipv4 p \<and> enable_ipv6 q = enable_ipv6 p"

lemma same_families_refl [simp]: "same_families p p"
  by (simp add: same_families_def)

lemma same_families_trans: "same_families p q \<Longrightarrow> same_families q r \<Longrightarrow> same_families p r"
  by (simp add: same_families_def)

text \<open>A request neither enables nor disables an address family.\<close>

locale request_laws =
  fixes R :: "'w request_ops"
  assumes setup_families: "rq_SetupDataCall R w p fam = Some (err, p', w') \<Longrightarrow> same_families p p'"
    and deactivate_families: "rq_DeactivateDefaultPDP R w p fam = Some (err, p', w') \<Longrightarrow> same_families p p'"
    and address_families: "rq_GetIPAddress R w p fam = Some (err, p', w') \<Longrightarrow> same_families p p'"

text \<open>The state of a call a request reports is one of the two final states.\<close>

definition settled :: "byte \<Rightarrow> bool" where
  "settled s \<longleftrightarrow> s = QWDS_PKT_DATA_CONNECTED \<or> s = QWDS_PKT_DATA_DISCONNECTED"

lemma settled_values [simp]: "settled QWDS_PKT_DATA_CONNECTED" "settled QWDS_PKT_DATA_DISCONNECTED"
  by (simp_all add: settled_def)

locale reporting_requests = request_laws +
  assumes query_value: "rq_QueryDataCall R w fam = Some (err, st, w') \<Longrightarrow> \<exists>s. st = Some s \<and> settled s"

text \<open>No request follows a null pointer, whatever the modem does.\<close>

locale total_requests = request_laws +
  assumes registration_total: "\<exists>err st w'. rq_RegistrationState R w = Some (err, st, w')"
    and setup_total: "\<exists>err p' w'. rq_SetupDataCall R w p fam = Some (err, p', w')"
    and query_total: "\<exists>err st w'. rq_QueryDataCall R w fam = Some (err, st, w')"
    and deactivate_total: "\<exists>err p' w'. rq_DeactivateDefaultPDP R w p fam = Some (err, p', w')"
    and address_total: "\<exists>err p' w'. rq_GetIPAddress R w p fam = Some (err, p', w')"
    and cell_total: "rq_GetCellInfoList R = Some f \<Longrightarrow> \<exists>err w'. f w = Some (err, w')"
    and coex_total: "rq_GetCoexWWANState R = Some f \<Longrightarrow> \<exists>err w'. f w = Some (err, w')"

end
