(* ===== verification/Main_Loop.thy ===== *)
theory Main_Loop
  imports Request_Ops
begin

text \<open>
  \<^verbatim>\<open>qmi_main\<close> of \<^verbatim>\<open>quectel_cm_5G/src/main.c\<close>: the start-up sequence and the event loop that
  keeps a data call up, over any protocol (a \<open>request_ops\<close> and a \<open>device_ops\<close> record). The two
  socket pairs are queues of the state; \<open>clk\<close> gives the readings of \<open>clock_msec\<close> one after the
  other (\<open>unsigned long\<close> has 32 bits on the router's processors). A handler runs to its end
  before the next environment event; \<open>None\<close> is a null pointer followed in a request.
\<close>

section \<open>State\<close>

datatype sig_event = SIG_EVENT_START | SIG_EVENT_CHECK | SIG_EVENT_STOP

datatype device_cmd = To_Event main_event | To_Signal sig_event

datatype dhcp_action = Udhcpc_Start | Udhcpc_Stop

datatype signo = SIGALRM | SIGINT | SIGTERM

record 'w cm =
  world :: 'w
  prof :: profile
  link_state :: int
  PSAttachedState :: byte
  IPv4ConnectionStatus :: byte
  IPv6ConnectionStatus :: byte
  SetupCallFail :: u32
  SetupCallAllowTime :: u32
  readings :: nat
  alarm_in :: "u32 option"
  signal_q :: "sig_event list"
  device_q :: "(main_event \<times> (byte \<times> u32) option) list"
  to_device :: "device_cmd list"
  donot_exit_when_hangup :: bool
  dhcp :: "dhcp_action list"

definition clock_msec :: "(nat \<Rightarrow> u32) \<Rightarrow> 'w cm \<Rightarrow> u32 \<times> 'w cm" where
  "clock_msec clk m = (clk (readings m), m\<lparr>readings := readings m + 1\<rparr>)"

text \<open>\<open>alarm(0)\<close> cancels the alarm.\<close>

definition set_alarm :: "u32 \<Rightarrow> 'w cm \<Rightarrow> 'w cm" where
  "set_alarm s m = m\<lparr>alarm_in := (if s = 0 then None else Some s)\<rparr>"

definition send_signo_to_main :: "sig_event \<Rightarrow> 'w cm \<Rightarrow> 'w cm" where
  "send_signo_to_main s m = m\<lparr>signal_q := signal_q m @ [s]\<rparr>"

definition main_send_event_to_qmidevice :: "device_cmd \<Rightarrow> 'w cm \<Rightarrow> 'w cm" where
  "main_send_event_to_qmidevice e m = m\<lparr>to_device := to_device m @ [e]\<rparr>"

definition qmidevice_send_event_to_main :: "main_event \<Rightarrow> 'w cm \<Rightarrow> 'w cm" where
  "qmidevice_send_event_to_main e m = m\<lparr>device_q := device_q m @ [(e, None)]\<rparr>"

text \<open>With the data the loop-back indication carries behind the event.\<close>

definition qmidevice_send_event_to_main_ext :: "main_event \<Rightarrow> byte \<times> u32 \<Rightarrow> 'w cm \<Rightarrow> 'w cm" where
  "qmidevice_send_event_to_main_ext e d m = m\<lparr>device_q := device_q m @ [(e, Some d)]\<rparr>"

definition ql_sigaction :: "signo \<Rightarrow> 'w cm \<Rightarrow> 'w cm" where
  "ql_sigaction s m =
     (if s = SIGALRM then send_signo_to_main SIG_EVENT_START m
      else main_send_event_to_qmidevice (To_Signal SIG_EVENT_STOP)
             (send_signo_to_main SIG_EVENT_STOP (m\<lparr>donot_exit_when_hangup := False\<rparr>)))"

section \<open>The network interface\<close>

definition V4_BIT :: int where "V4_BIT = 16"
definition V6_BIT :: int where "V6_BIT = 64"

definition usbnet_link_change :: "int \<Rightarrow> 'w cm \<Rightarrow> 'w cm" where
  "usbnet_link_change link m =
     (if link_state m = link then m
      else m\<lparr>link_state := link,
             prof := (prof m)\<lparr>ipv4 := (if link AND V4_BIT = 0 then ipv4_zero else ipv4 (prof m)),
                              ipv6 := (if link AND V6_BIT = 0 then ipv6_zero else ipv6 (prof m))\<rparr>,
             dhcp := dhcp m @ [if link \<noteq> 0 then Udhcpc_Start else Udhcpc_Stop]\<rparr>)"

section \<open>Requests from the loop\<close>

definition on_profile :: "'w profile_request \<Rightarrow> 'w cm \<Rightarrow> (int \<times> 'w cm) option" where
  "on_profile f m = do { (err, p, w) \<leftarrow> f (world m) (prof m); Some (err, m\<lparr>world := w, prof := p\<rparr>) }"

definition on_family :: "'w family_request \<Rightarrow> int \<Rightarrow> 'w cm \<Rightarrow> (int \<times> 'w cm) option" where
  "on_family f fam = on_profile (\<lambda>w p. f w p fam)"

definition on_plain :: "'w plain_request option \<Rightarrow> 'w cm \<Rightarrow> 'w cm option" where
  "on_plain f m = (case f of None \<Rightarrow> Some m
     | Some f \<Rightarrow> do { (_, w) \<leftarrow> f (world m); Some (m\<lparr>world := w\<rparr>) })"

definition update_registration :: "'w request_ops \<Rightarrow> 'w cm \<Rightarrow> 'w cm option" where
  "update_registration R m = do {
     (_, st, w) \<leftarrow> rq_RegistrationState R (world m);
     Some (m\<lparr>world := w, PSAttachedState := (case st of None \<Rightarrow> PSAttachedState m | Some s \<Rightarrow> s)\<rparr>) }"

definition query_ipv4 :: "'w request_ops \<Rightarrow> 'w cm \<Rightarrow> (int \<times> 'w cm) option" where
  "query_ipv4 R m = do {
     (err, st, w) \<leftarrow> rq_QueryDataCall R (world m) IpFamilyV4;
     Some (err, m\<lparr>world := w,
       IPv4ConnectionStatus := (case st of None \<Rightarrow> IPv4ConnectionStatus m | Some s \<Rightarrow> s)\<rparr>) }"

definition query_ipv6 :: "'w request_ops \<Rightarrow> 'w cm \<Rightarrow> (int \<times> 'w cm) option" where
  "query_ipv6 R m = do {
     (err, st, w) \<leftarrow> rq_QueryDataCall R (world m) IpFamilyV6;
     Some (err, m\<lparr>world := w,
       IPv6ConnectionStatus := (case st of None \<Rightarrow> IPv6ConnectionStatus m | Some s \<Rightarrow> s)\<rparr>) }"

definition check_ipv4_address :: "protocol \<Rightarrow> 'w request_ops \<Rightarrow> 'w cm \<Rightarrow> (bool \<times> 'w cm) option" where
  "check_ipv4_address proto R m =
     (let oldAddress = Address (ipv4 (prof m)) in
      if proto = Mbim_Protocol \<or> proto = Atc_Protocol then Some (True, m)
      else do {
        (err, m) \<leftarrow> on_family (rq_GetIPAddress R) IpFamilyV4 m;
        Some (err = 0 \<and> Address (ipv4 (prof m)) = oldAddress, m) })"

section \<open>SIG\_EVENT\_START\<close>

definition has_text :: "string option \<Rightarrow> bool" where
  "has_text s = (case s of None \<Rightarrow> False | Some t \<Rightarrow> t \<noteq> [])"

text \<open>The call for IPv4, once more with the other authentication when there are a user and a
  password.\<close>

definition retry_other_auth :: "'w request_ops \<Rightarrow> int \<Rightarrow> 'w cm \<Rightarrow> (int \<times> 'w cm) option" where
  "retry_other_auth R qmierr m =
     (if qmierr > 0 \<and> has_text (user (prof m)) \<and> has_text (password (prof m))
      then (let old_auto = auth (prof m) in do {
        (qmierr, m) \<leftarrow> on_family (rq_SetupDataCall R) IpFamilyV4
           (m\<lparr>prof := (prof m)\<lparr>auth := (if old_auto = 1 then 2 else 1)\<rparr>\<rparr>);
        Some (qmierr, if qmierr \<noteq> 0 then m\<lparr>prof := (prof m)\<lparr>auth := old_auto\<rparr>\<rparr> else m) })
      else Some (qmierr, m))"

definition start_ipv4 :: "'w request_ops \<Rightarrow> 'w cm \<Rightarrow> 'w cm option" where
  "start_ipv4 R m =
     (if enable_ipv4 (prof m) \<and> IPv4ConnectionStatus m \<noteq> QWDS_PKT_DATA_CONNECTED
      then do {
        (qmierr, m) \<leftarrow> on_family (rq_SetupDataCall R) IpFamilyV4 m;
        (qmierr, m) \<leftarrow> retry_other_auth R qmierr m;
        (if qmierr = 0
         then do {
           (qmierr, m) \<leftarrow> on_family (rq_GetIPAddress R) IpFamilyV4 m;
           Some (if qmierr = 0 then m\<lparr>IPv4ConnectionStatus := QWDS_PKT_DATA_CONNECTED\<rparr> else m) }
         else Some m) }
      else Some m)"

definition start_ipv6 :: "protocol \<Rightarrow> 'w request_ops \<Rightarrow> 'w cm \<Rightarrow> 'w cm option" where
  "start_ipv6 proto R m =
     (if enable_ipv6 (prof m) \<and> IPv6ConnectionStatus m \<noteq> QWDS_PKT_DATA_CONNECTED
      then if enable_ipv4 (prof m) \<and> proto \<noteq> Qmi_Protocol
        then Some (m\<lparr>IPv6ConnectionStatus := IPv4ConnectionStatus m\<rparr>)
        else do {
          (qmierr, m) \<leftarrow> on_family (rq_SetupDataCall R) IpFamilyV6 m;
          (if qmierr = 0
           then do {
             (qmierr, m) \<leftarrow> on_family (rq_GetIPAddress R) IpFamilyV6 m;
             Some (if qmierr = 0 then m\<lparr>IPv6ConnectionStatus := QWDS_PKT_DATA_CONNECTED\<rparr> else m) }
           else Some m) }
      else Some m)"

definition allow_time :: "u32 list" where
  "allow_time = [5, 10, 20, 40, 60]"

definition retry_delay :: "u32 \<Rightarrow> u32" where
  "retry_delay fail = (if unat fail < length allow_time then allow_time ! unat fail else 60)"

definition some_family_down :: "'w cm \<Rightarrow> bool" where
  "some_family_down m \<longleftrightarrow>
     enable_ipv4 (prof m) \<and> IPv4ConnectionStatus m = QWDS_PKT_DATA_DISCONNECTED \<or>
     enable_ipv6 (prof m) \<and> IPv6ConnectionStatus m = QWDS_PKT_DATA_DISCONNECTED"

definition some_family_connected :: "'w cm \<Rightarrow> bool" where
  "some_family_connected m \<longleftrightarrow>
     IPv4ConnectionStatus m = QWDS_PKT_DATA_CONNECTED \<or> IPv6ConnectionStatus m = QWDS_PKT_DATA_CONNECTED"

definition schedule_retry :: "(nat \<Rightarrow> u32) \<Rightarrow> 'w cm \<Rightarrow> 'w cm" where
  "schedule_retry clk m =
     (if some_family_down m
      then (let s = retry_delay (SetupCallFail m);
                (t, m) = clock_msec clk (set_alarm s (m\<lparr>SetupCallFail := SetupCallFail m + 1\<rparr>))
            in m\<lparr>SetupCallAllowTime := s * 1000 + t\<rparr>)
      else if some_family_connected m
      then (let (t, m) = clock_msec clk (m\<lparr>SetupCallFail := 0\<rparr>) in m\<lparr>SetupCallAllowTime := t\<rparr>)
      else m)"

definition on_start :: "(nat \<Rightarrow> u32) \<Rightarrow> protocol \<Rightarrow> 'w request_ops \<Rightarrow> 'w cm \<Rightarrow> 'w cm option" where
  "on_start clk proto R m =
     (if PSAttachedState m \<noteq> 1 \<and> loopback_state (prof m) = 0 then Some m
      else case clock_msec clk m of (now, m) \<Rightarrow>
        if SetupCallAllowTime m > now
        then (let (now, m) = clock_msec clk m
              in Some (set_alarm ((SetupCallAllowTime m - now + 999) div 1000) m))
        else do {
          m \<leftarrow> start_ipv4 R m;
          m \<leftarrow> start_ipv6 proto R m;
          Some (schedule_retry clk m) })"

section \<open>SIG\_EVENT\_CHECK\<close>

definition check_requests :: "'w request_ops \<Rightarrow> 'w cm \<Rightarrow> 'w cm option" where
  "check_requests R m = do {
     m \<leftarrow> on_plain (rq_GetSignalInfo R) m;
     m \<leftarrow> on_plain (rq_GetCellInfoList R) m;
     m \<leftarrow> on_plain (rq_GetCoexWWANState R) m;
     (if PSAttachedState m \<noteq> 1 then update_registration R m else Some m) }"

text \<open>The address is asked for when the loop has none, and compared with the modem's.\<close>

definition fetch_ipv4 :: "'w request_ops \<Rightarrow> 'w cm \<Rightarrow> 'w cm option" where
  "fetch_ipv4 R m =
     (if IPv4ConnectionStatus m = QWDS_PKT_DATA_CONNECTED \<and> Address (ipv4 (prof m)) = 0
      then do {
        (qmierr, m) \<leftarrow> on_family (rq_GetIPAddress R) IpFamilyV4 m;
        Some (if qmierr \<noteq> 0 then m\<lparr>IPv4ConnectionStatus := QWDS_PKT_DATA_DISCONNECTED\<rparr> else m) }
      else Some m)"

definition compare_ipv4 :: "protocol \<Rightarrow> 'w request_ops \<Rightarrow> 'w cm \<Rightarrow> 'w cm option" where
  "compare_ipv4 proto R m =
     (if IPv4ConnectionStatus m = QWDS_PKT_DATA_CONNECTED
      then do {
        (same, m) \<leftarrow> check_ipv4_address proto R m;
        (if \<not> same
         then do {
           (_, m) \<leftarrow> on_family (rq_DeactivateDefaultPDP R) IpFamilyV4 m;
           Some (m\<lparr>IPv4ConnectionStatus := QWDS_PKT_DATA_DISCONNECTED\<rparr>) }
         else Some m) }
      else Some m)"

definition confirm_ipv4 :: "protocol \<Rightarrow> 'w request_ops \<Rightarrow> 'w cm \<Rightarrow> 'w cm option" where
  "confirm_ipv4 proto R m = do { m \<leftarrow> fetch_ipv4 R m; compare_ipv4 proto R m }"

definition check_ipv4 :: "protocol \<Rightarrow> 'w request_ops \<Rightarrow> 'w cm \<Rightarrow> 'w cm option" where
  "check_ipv4 proto R m =
     (if enable_ipv4 (prof m) \<and> IPv4ConnectionStatus m \<noteq> QWDS_PKT_DATA_DISCONNECTED
      then do {
        (err, m) \<leftarrow> query_ipv4 R m;
        (if err = 0 then confirm_ipv4 proto R m
         else Some (m\<lparr>IPv4ConnectionStatus := QWDS_PKT_DATA_DISCONNECTED\<rparr>)) }
      else Some (m\<lparr>IPv4ConnectionStatus := QWDS_PKT_DATA_DISCONNECTED\<rparr>))"

definition check_ipv6 :: "protocol \<Rightarrow> 'w request_ops \<Rightarrow> 'w cm \<Rightarrow> 'w cm option" where
  "check_ipv6 proto R m =
     (if enable_ipv6 (prof m) \<and> IPv6ConnectionStatus m \<noteq> QWDS_PKT_DATA_DISCONNECTED
      then if enable_ipv4 (prof m) \<and> proto \<noteq> Qmi_Protocol
        then Some (m\<lparr>IPv6ConnectionStatus := IPv4ConnectionStatus m\<rparr>)
        else do { (_, m) \<leftarrow> query_ipv6 R m; Some m }
      else Some (m\<lparr>IPv6ConnectionStatus := QWDS_PKT_DATA_DISCONNECTED\<rparr>))"

definition wanted_link :: "'w cm \<Rightarrow> int" where
  "wanted_link m =
     (if IPv4ConnectionStatus m = QWDS_PKT_DATA_CONNECTED then V4_BIT else 0) OR
     (if IPv6ConnectionStatus m = QWDS_PKT_DATA_CONNECTED then V6_BIT else 0)"

definition adjust_link :: "'w cm \<Rightarrow> 'w cm" where
  "adjust_link m =
     (if IPv4ConnectionStatus m = QWDS_PKT_DATA_DISCONNECTED \<and> IPv6ConnectionStatus m = QWDS_PKT_DATA_DISCONNECTED
      then usbnet_link_change 0 m
      else if some_family_connected m then usbnet_link_change (wanted_link m) m
      else m)"

definition on_check :: "protocol \<Rightarrow> 'w request_ops \<Rightarrow> 'w cm \<Rightarrow> 'w cm option" where
  "on_check proto R m = do {
     m \<leftarrow> check_requests R m;
     m \<leftarrow> check_ipv4 proto R m;
     m \<leftarrow> check_ipv6 proto R m;
     (let m = adjust_link m
      in Some (if some_family_down m then send_signo_to_main SIG_EVENT_START m else m)) }"

section \<open>SIG\_EVENT\_STOP and the end\<close>

definition run_deinit :: "'w device_ops \<Rightarrow> 'w cm \<Rightarrow> 'w cm option" where
  "run_deinit D m = (case dev_deinit D of None \<Rightarrow> Some m
     | Some f \<Rightarrow> do { w \<leftarrow> f (world m); Some (m\<lparr>world := w\<rparr>) })"

definition on_stop :: "protocol \<Rightarrow> 'w request_ops \<Rightarrow> 'w device_ops \<Rightarrow> 'w cm \<Rightarrow> 'w cm option" where
  "on_stop proto R D m = do {
     m \<leftarrow> (if enable_ipv4 (prof m) \<and> IPv4ConnectionStatus m = QWDS_PKT_DATA_CONNECTED
       then do { (_, m) \<leftarrow> on_family (rq_DeactivateDefaultPDP R) IpFamilyV4 m; Some m } else Some m);
     m \<leftarrow> (if enable_ipv6 (prof m) \<and> IPv6ConnectionStatus m = QWDS_PKT_DATA_CONNECTED \<and>
            \<not> (enable_ipv4 (prof m) \<and> proto \<noteq> Qmi_Protocol)
       then do { (_, m) \<leftarrow> on_family (rq_DeactivateDefaultPDP R) IpFamilyV6 m; Some m } else Some m);
     m \<leftarrow> run_deinit D (usbnet_link_change 0 m);
     Some (main_send_event_to_qmidevice (To_Event RIL_REQUEST_QUIT) m) }"

text \<open>\<open>__main_quit\<close>; the descriptors are closed, so what is queued is lost.\<close>

definition main_quit :: "'w cm \<Rightarrow> 'w cm" where
  "main_quit m = (usbnet_link_change 0 m)\<lparr>signal_q := [], device_q := []\<rparr>"

section \<open>Events\<close>

text \<open>A handler says whether it jumps to \<open>__main_quit\<close>.\<close>

definition on_signal :: "(nat \<Rightarrow> u32) \<Rightarrow> protocol \<Rightarrow> 'w request_ops \<Rightarrow> 'w device_ops \<Rightarrow> sig_event \<Rightarrow>
    'w cm \<Rightarrow> (bool \<times> 'w cm) option" where
  "on_signal clk proto R D s m = (let m = set_alarm 0 m in case s of
       SIG_EVENT_START \<Rightarrow> do { m \<leftarrow> on_start clk proto R m; Some (False, m) }
     | SIG_EVENT_CHECK \<Rightarrow> do { m \<leftarrow> on_check proto R m; Some (False, m) }
     | SIG_EVENT_STOP \<Rightarrow> do { m \<leftarrow> on_stop proto R D m; Some (True, m) })"

definition on_network_state :: "(nat \<Rightarrow> u32) \<Rightarrow> 'w request_ops \<Rightarrow> 'w cm \<Rightarrow> 'w cm option" where
  "on_network_state clk R m = do {
     m \<leftarrow> update_registration R m;
     Some (if PSAttachedState m = 1
       then (if some_family_down m then send_signo_to_main SIG_EVENT_START m else m)
       else (let (t, m) = clock_msec clk m in m\<lparr>SetupCallAllowTime := t\<rparr>)) }"

definition on_call_list :: "(nat \<Rightarrow> u32) \<Rightarrow> 'w cm \<Rightarrow> 'w cm" where
  "on_call_list clk m =
     send_signo_to_main SIG_EVENT_CHECK
       (if some_family_connected m
        then (let (t, m) = clock_msec clk m in m\<lparr>SetupCallAllowTime := t + 1000\<rparr>) else m)"

definition on_loopback :: "(byte \<times> u32) option \<Rightarrow> 'w cm \<Rightarrow> 'w cm" where
  "on_loopback d m = (case d of None \<Rightarrow> m
     | Some (st, factor) \<Rightarrow>
        (let m = m\<lparr>prof := (prof m)\<lparr>loopback_state := uint st, replication_factor := sint factor\<rparr>\<rparr>
         in if st \<noteq> 0 then send_signo_to_main SIG_EVENT_START m else m))"

definition on_device :: "(nat \<Rightarrow> u32) \<Rightarrow> 'w request_ops \<Rightarrow> main_event \<times> (byte \<times> u32) option \<Rightarrow>
    'w cm \<Rightarrow> (bool \<times> 'w cm) option" where
  "on_device clk R e m = (case e of (ev, d) \<Rightarrow> case ev of
       RIL_INDICATE_DEVICE_DISCONNECTED \<Rightarrow> Some (True, usbnet_link_change 0 m)
     | RIL_UNSOL_RESPONSE_VOICE_NETWORK_STATE_CHANGED \<Rightarrow> do { m \<leftarrow> on_network_state clk R m; Some (False, m) }
     | RIL_UNSOL_DATA_CALL_LIST_CHANGED \<Rightarrow> Some (False, on_call_list clk m)
     | MODEM_REPORT_RESET_EVENT \<Rightarrow>
         Some (True, main_send_event_to_qmidevice (To_Event RIL_REQUEST_QUIT) (m\<lparr>donot_exit_when_hangup := True\<rparr>))
     | RIL_UNSOL_LOOPBACK_CONFIG_IND \<Rightarrow> Some (False, on_loopback d m)
     | RIL_REQUEST_QUIT \<Rightarrow> Some (False, m)
     | RIL_INDICATE_DEVICE_CONNECTED \<Rightarrow> Some (False, m))"

text \<open>What the requests sent to the loop's own socket.\<close>

definition take_events :: "'w device_ops \<Rightarrow> 'w cm \<Rightarrow> 'w cm" where
  "take_events D m = (case dev_events D (world m) of (es, w) \<Rightarrow>
     m\<lparr>world := w, device_q := device_q m @ es\<rparr>)"

section \<open>The loop\<close>

text \<open>The outcome of \<open>poll\<close>: for each descriptor whether it hung up, had another error, and
  whether it can be read.\<close>

record revents =
  rv_hup :: bool
  rv_err :: bool
  rv_in :: bool

datatype poll_result = Poll_Timeout | Poll_Failed | Poll_Ready revents revents

text \<open>The part of the loop body both descriptors share: the flag says to leave, and a
  descriptor that can be read is read by \<open>f\<close>.\<close>

definition serve :: "revents \<Rightarrow> ('w cm \<Rightarrow> (bool \<times> 'w cm) option) \<Rightarrow> 'w cm \<Rightarrow> (bool \<times> 'w cm) option" where
  "serve rv f m =
     (let m = (if rv_hup rv \<or> rv_err rv
        then main_send_event_to_qmidevice (To_Event RIL_REQUEST_QUIT) m else m)
      in if rv_hup rv then Some (True, m) else if rv_in rv then f m else Some (False, m))"

text \<open>A read from an empty queue does not return: there is no result.\<close>

definition read_signal :: "(nat \<Rightarrow> u32) \<Rightarrow> protocol \<Rightarrow> 'w request_ops \<Rightarrow> 'w device_ops \<Rightarrow>
    'w cm \<Rightarrow> (bool \<times> 'w cm) option" where
  "read_signal clk proto R D m = (case signal_q m of [] \<Rightarrow> None
     | s # q \<Rightarrow> do { (b, m) \<leftarrow> on_signal clk proto R D s (m\<lparr>signal_q := q\<rparr>); Some (b, take_events D m) })"

definition read_device :: "(nat \<Rightarrow> u32) \<Rightarrow> 'w request_ops \<Rightarrow> 'w device_ops \<Rightarrow>
    'w cm \<Rightarrow> (bool \<times> 'w cm) option" where
  "read_device clk R D m = (case device_q m of [] \<Rightarrow> None
     | e # q \<Rightarrow> do { (b, m) \<leftarrow> on_device clk R e (m\<lparr>device_q := q\<rparr>); Some (b, take_events D m) })"

definition poll_step :: "(nat \<Rightarrow> u32) \<Rightarrow> protocol \<Rightarrow> 'w request_ops \<Rightarrow> 'w device_ops \<Rightarrow> poll_result \<Rightarrow>
    'w cm \<Rightarrow> (bool \<times> 'w cm) option" where
  "poll_step clk proto R D pr m = (case pr of
       Poll_Timeout \<Rightarrow> Some (False, send_signo_to_main SIG_EVENT_CHECK m)
     | Poll_Failed \<Rightarrow> Some (True, main_quit m)
     | Poll_Ready rs rd \<Rightarrow> do {
         (b, m) \<leftarrow> serve rs (read_signal clk proto R D) m;
         (if b then Some (True, main_quit m)
          else do {
            (b, m) \<leftarrow> serve rd (read_device clk R D) m;
            Some (b, if b then main_quit m else m) }) })"

section \<open>Start-up\<close>

definition QMI_ERR_OP_DEVICE_UNSUPPORTED :: int where "QMI_ERR_OP_DEVICE_UNSUPPORTED = 0x19"
definition QMI_ERR_INVALID_QMI_CMD :: int where "QMI_ERR_INVALID_QMI_CMD = 0x47"

text \<open>The question for the SIM is repeated while the modem is not ready for it.\<close>

partial_function (option) sim_status_loop ::
    "('w \<Rightarrow> (int \<times> sim_status option \<times> 'w) option) \<Rightarrow> sim_status \<Rightarrow> 'w \<Rightarrow> (sim_status \<times> 'w) option" where
  "sim_status_loop f st w = do {
     (err, st', w) \<leftarrow> f w;
     (let st = (case st' of None \<Rightarrow> st | Some s \<Rightarrow> s) in
      if err = QMI_ERR_OP_DEVICE_UNSUPPORTED then sim_status_loop f st w else Some (st, w)) }"

definition init_sim :: "'w request_ops \<Rightarrow> 'w cm \<Rightarrow> (sim_status \<times> 'w cm) option" where
  "init_sim R m = (case rq_GetSIMStatus R of None \<Rightarrow> Some (SIM_ABSENT, m)
     | Some f \<Rightarrow> do {
         (st, w) \<leftarrow> sim_status_loop f SIM_ABSENT (world m);
         (let m = m\<lparr>world := w\<rparr> in
          case (pincode (prof m), rq_EnterSimPin R) of
            (Some pin, Some enter) \<Rightarrow>
              (if st = SIM_PIN then do { (_, w) \<leftarrow> enter (world m) pin; Some (st, m\<lparr>world := w\<rparr>) }
               else Some (st, m))
          | _ \<Rightarrow> Some (st, m)) })"

definition opt_profile :: "'w profile_request option \<Rightarrow> 'w cm \<Rightarrow> 'w cm option" where
  "opt_profile f m = (case f of None \<Rightarrow> Some m | Some f \<Rightarrow> do { (_, m) \<leftarrow> on_profile f m; Some m })"

definition init_loopback :: "'w request_ops \<Rightarrow> 'w cm \<Rightarrow> 'w cm option" where
  "init_loopback R m = (case rq_SetLoopBackState R of None \<Rightarrow> Some m
     | Some f \<Rightarrow> if loopback_state (prof m) = 0 then Some m
         else do {
           (qmierr, w) \<leftarrow> f (world m) (loopback_state (prof m)) (replication_factor (prof m));
           (let m = m\<lparr>world := w\<rparr> in
            Some (if qmierr \<noteq> QMI_ERR_INVALID_QMI_CMD then m\<lparr>prof := (prof m)\<lparr>loopback_state := 0\<rparr>\<rparr> else m)) })"

definition init_requests :: "'w request_ops \<Rightarrow> 'w cm \<Rightarrow> 'w cm option" where
  "init_requests R m = do {
     m \<leftarrow> opt_profile (rq_BaseBandVersion R) m;
     m \<leftarrow> opt_profile (rq_SetEthMode R) m;
     m \<leftarrow> init_loopback R m;
     (SIMStatus, m) \<leftarrow> init_sim R m;
     m \<leftarrow> (if SIMStatus = SIM_READY
        then do { m \<leftarrow> on_plain (rq_GetICCID R) m; on_plain (rq_GetIMSI R) m } else Some m);
     m \<leftarrow> opt_profile (rq_GetProfile R) m;
     m \<leftarrow> (if apn (prof m) \<noteq> None \<or> user (prof m) \<noteq> None \<or> password (prof m) \<noteq> None
        then opt_profile (rq_SetProfile R) m else Some m);
     m \<leftarrow> update_registration R m;
     Some (send_signo_to_main SIG_EVENT_CHECK m) }"

text \<open>The program's state before anything has run.\<close>

definition cm_start :: "'w \<Rightarrow> profile \<Rightarrow> 'w cm" where
  "cm_start w p = \<lparr>world = w, prof = p, link_state = -1, PSAttachedState = 0,
     IPv4ConnectionStatus = QWDS_PKT_DATA_UNKNOW, IPv6ConnectionStatus = QWDS_PKT_DATA_UNKNOW,
     SetupCallFail = 0, SetupCallAllowTime = 0, readings = 0, alarm_in = None, signal_q = [], device_q = [],
     to_device = [], donot_exit_when_hangup = False, dhcp = []\<rparr>"

text \<open>The locals of \<open>qmi_main\<close> as they are set up; \<open>link_state\<close> and the flag are global and
  keep their values. The sockets, the old processes and the thread are made before; here the
  first event of the thread is read. The flag of the result says that the loop is entered.\<close>

definition start_state :: "(nat \<Rightarrow> u32) \<Rightarrow> 'w cm \<Rightarrow> 'w cm" where
  "start_state clk m = (case clock_msec clk m of (t, m) \<Rightarrow>
     m\<lparr>PSAttachedState := 0, IPv4ConnectionStatus := QWDS_PKT_DATA_UNKNOW,
       IPv6ConnectionStatus := QWDS_PKT_DATA_UNKNOW, SetupCallFail := 0, SetupCallAllowTime := t,
       signal_q := [], device_q := [], to_device := []\<rparr>)"

definition qmi_main_init :: "(nat \<Rightarrow> u32) \<Rightarrow> 'w request_ops \<Rightarrow> 'w device_ops \<Rightarrow> main_event option \<Rightarrow>
    'w cm \<Rightarrow> (bool \<times> 'w cm) option" where
  "qmi_main_init clk R D first m =
     (let m = start_state clk m in
      if first \<noteq> Some RIL_INDICATE_DEVICE_CONNECTED then Some (False, m)
      else do {
        (err, m) \<leftarrow> (case dev_init D of None \<Rightarrow> Some (0, m)
          | Some f \<Rightarrow> do {
              (err, p, hang, w) \<leftarrow> f (world m) (prof m);
              Some (err, m\<lparr>world := w, prof := p,
                donot_exit_when_hangup := (hang \<or> donot_exit_when_hangup m)\<rparr>) });
        (if err \<noteq> 0 then Some (False, m)
         else do { m \<leftarrow> init_requests R m; Some (True, take_events D m) }) })"

section \<open>Runs\<close>

text \<open>What can happen: a signal, an event of the protocol's thread, or a round of the loop, in
  which \<open>poll\<close> says of each socket whether something is queued.\<close>

inductive cm_step :: "(nat \<Rightarrow> u32) \<Rightarrow> protocol \<Rightarrow> 'w request_ops \<Rightarrow> 'w device_ops \<Rightarrow>
    bool \<times> 'w cm \<Rightarrow> bool \<times> 'w cm \<Rightarrow> bool"
  for clk proto R D where
  Alarm: "alarm_in m = Some s \<Longrightarrow>
    cm_step clk proto R D (False, m) (False, ql_sigaction SIGALRM (m\<lparr>alarm_in := None\<rparr>))"
| Signal: "s \<noteq> SIGALRM \<Longrightarrow> cm_step clk proto R D (False, m) (False, ql_sigaction s m)"
| Thread: "cm_step clk proto R D (False, m) (False, qmidevice_send_event_to_main e m)"
| Thread_Data: "cm_step clk proto R D (False, m) (False, qmidevice_send_event_to_main_ext e d m)"
| World: "cm_step clk proto R D (False, m) (False, m\<lparr>world := w\<rparr>)"
| Timeout: "signal_q m = [] \<Longrightarrow> device_q m = [] \<Longrightarrow> poll_step clk proto R D Poll_Timeout m = Some m' \<Longrightarrow>
    cm_step clk proto R D (False, m) m'"
| Round: "rv_in rs = (signal_q m \<noteq> []) \<Longrightarrow> rv_in rd = (device_q m \<noteq> []) \<Longrightarrow>
    poll_step clk proto R D (Poll_Ready rs rd) m = Some m' \<Longrightarrow> cm_step clk proto R D (False, m) m'"
| Failed: "poll_step clk proto R D Poll_Failed m = Some m' \<Longrightarrow> cm_step clk proto R D (False, m) m'"

inductive_cases quit_stepE: "cm_step clk proto R D (True, m) c"

inductive cm_reach :: "(nat \<Rightarrow> u32) \<Rightarrow> protocol \<Rightarrow> 'w request_ops \<Rightarrow> 'w device_ops \<Rightarrow> 'w cm \<Rightarrow>
    bool \<times> 'w cm \<Rightarrow> bool"
  for clk proto R D m0 where
  Start: "cm_reach clk proto R D m0 (False, m0)"
| Step: "cm_reach clk proto R D m0 c \<Longrightarrow> cm_step clk proto R D c c' \<Longrightarrow> cm_reach clk proto R D m0 c'"

end
