(* ===== verification/Main_Inv.thy ===== *)
theory Main_Inv
  imports Main_Loop
begin

text \<open>
  What holds in every run of the connection manager's loop (\<^verbatim>\<open>Main_Loop\<close>): the states of the
  two calls, the link state and the DHCP client fit together. The lemmas that need the laws of
  the requests are proved once in the locale.
\<close>

section \<open>The ways through a handler\<close>

lemma start_ipv4_cases:
  assumes "start_ipv4 R m = Some m'"
  obtains (skip) "m' = m" "\<not> (enable_ipv4 (prof m) \<and> IPv4ConnectionStatus m \<noteq> QWDS_PKT_DATA_CONNECTED)"
  | (fail) e1 m1 e2 where "enable_ipv4 (prof m)" "on_family (rq_SetupDataCall R) IpFamilyV4 m = Some (e1, m1)"
      "retry_other_auth R e1 m1 = Some (e2, m')"
  | (address) e1 m1 m2 e3 m3 where "enable_ipv4 (prof m)" "on_family (rq_SetupDataCall R) IpFamilyV4 m = Some (e1, m1)"
      "retry_other_auth R e1 m1 = Some (0, m2)" "on_family (rq_GetIPAddress R) IpFamilyV4 m2 = Some (e3, m3)"
      "m' = (if e3 = 0 then m3\<lparr>IPv4ConnectionStatus := QWDS_PKT_DATA_CONNECTED\<rparr> else m3)"
proof (cases "enable_ipv4 (prof m) \<and> IPv4ConnectionStatus m \<noteq> QWDS_PKT_DATA_CONNECTED")
  case True
  from assms [unfolded start_ipv4_def if_P [OF True]]
  obtain e1 m1 where m1: "on_family (rq_SetupDataCall R) IpFamilyV4 m = Some (e1, m1)"
    and rest: "do { (qmierr, m) \<leftarrow> retry_other_auth R e1 m1;
        (if qmierr = 0
         then do {
           (qmierr, m) \<leftarrow> on_family (rq_GetIPAddress R) IpFamilyV4 m;
           Some (if qmierr = 0 then m\<lparr>IPv4ConnectionStatus := QWDS_PKT_DATA_CONNECTED\<rparr> else m) }
         else Some m) } = Some m'"
    by (rule bind_pairE)
  from rest obtain e2 m2 where m2: "retry_other_auth R e1 m1 = Some (e2, m2)"
    and rest2: "(if e2 = 0
         then do {
           (qmierr, m) \<leftarrow> on_family (rq_GetIPAddress R) IpFamilyV4 m2;
           Some (if qmierr = 0 then m\<lparr>IPv4ConnectionStatus := QWDS_PKT_DATA_CONNECTED\<rparr> else m) }
         else Some m2) = Some m'" by (rule bind_pairE)
  show thesis
  proof (cases "e2 = 0")
    case True
    with rest2 obtain e3 m3 where "on_family (rq_GetIPAddress R) IpFamilyV4 m2 = Some (e3, m3)"
      "m' = (if e3 = 0 then m3\<lparr>IPv4ConnectionStatus := QWDS_PKT_DATA_CONNECTED\<rparr> else m3)"
      by (auto simp: bind_eq_Some_conv)
    then show thesis using address True m1 m2 \<open>enable_ipv4 (prof m) \<and> _\<close> by blast
  next
    case False
    then show thesis using rest2 fail m1 m2 \<open>enable_ipv4 (prof m) \<and> _\<close> by simp
  qed
qed (use assms skip in \<open>auto simp: start_ipv4_def\<close>)

lemma start_ipv6_cases:
  assumes "start_ipv6 proto R m = Some m'"
  obtains (skip) "m' = m"
  | (copy) "enable_ipv6 (prof m)" "m' = m\<lparr>IPv6ConnectionStatus := IPv4ConnectionStatus m\<rparr>"
  | (fail) e2 where "enable_ipv6 (prof m)" "on_family (rq_SetupDataCall R) IpFamilyV6 m = Some (e2, m')"
  | (address) m2 e3 m3 where "enable_ipv6 (prof m)" "on_family (rq_SetupDataCall R) IpFamilyV6 m = Some (0, m2)"
      "on_family (rq_GetIPAddress R) IpFamilyV6 m2 = Some (e3, m3)"
      "m' = (if e3 = 0 then m3\<lparr>IPv6ConnectionStatus := QWDS_PKT_DATA_CONNECTED\<rparr> else m3)"
proof (cases "(enable_ipv6 (prof m) \<and> IPv6ConnectionStatus m \<noteq> QWDS_PKT_DATA_CONNECTED) \<and>
    \<not> (enable_ipv4 (prof m) \<and> proto \<noteq> Qmi_Protocol)")
  case True
  then have c: "enable_ipv6 (prof m) \<and> IPv6ConnectionStatus m \<noteq> QWDS_PKT_DATA_CONNECTED"
    "\<not> (enable_ipv4 (prof m) \<and> proto \<noteq> Qmi_Protocol)" by blast+
  from assms [unfolded start_ipv6_def if_P [OF c(1)] if_not_P [OF c(2)]]
  obtain e2 m2 where m2: "on_family (rq_SetupDataCall R) IpFamilyV6 m = Some (e2, m2)"
    and rest: "(if e2 = 0
           then do {
             (qmierr, m) \<leftarrow> on_family (rq_GetIPAddress R) IpFamilyV6 m2;
             Some (if qmierr = 0 then m\<lparr>IPv6ConnectionStatus := QWDS_PKT_DATA_CONNECTED\<rparr> else m) }
           else Some m2) = Some m'"
    by (rule bind_pairE)
  show thesis
  proof (cases "e2 = 0")
    case True
    with rest obtain e3 m3 where "on_family (rq_GetIPAddress R) IpFamilyV6 m2 = Some (e3, m3)"
      "m' = (if e3 = 0 then m3\<lparr>IPv6ConnectionStatus := QWDS_PKT_DATA_CONNECTED\<rparr> else m3)"
      by (auto simp: bind_eq_Some_conv)
    then show thesis using address True m2 c(1) by blast
  next
    case False
    then show thesis using rest fail m2 c(1) by simp
  qed
next
  case False
  show thesis
  proof (cases "enable_ipv6 (prof m) \<and> IPv6ConnectionStatus m \<noteq> QWDS_PKT_DATA_CONNECTED")
    case True
    with False have c: "enable_ipv4 (prof m) \<and> proto \<noteq> Qmi_Protocol" by blast
    from assms [unfolded start_ipv6_def if_P [OF True] if_P [OF c]] True show thesis
      using copy by simp
  next
    case c: False
    from assms [unfolded start_ipv6_def if_not_P [OF c]] show thesis using skip by simp
  qed
qed

section \<open>The state of the calls and of the interface\<close>

text \<open>For the families enabled in \<open>p\<close>: a family that is not enabled is never connected and never
  part of the link, and the DHCP client runs exactly while there is a link.\<close>

definition call_states :: "'w cm \<Rightarrow> bool" where
  "call_states m \<longleftrightarrow>
     (IPv4ConnectionStatus m = QWDS_PKT_DATA_CONNECTED \<longrightarrow> enable_ipv4 (prof m)) \<and>
     (IPv6ConnectionStatus m = QWDS_PKT_DATA_CONNECTED \<longrightarrow> enable_ipv6 (prof m))"

definition link_ok :: "'w cm \<Rightarrow> bool" where
  "link_ok m \<longleftrightarrow>
     link_state m \<in> {-1, 0, V4_BIT, V6_BIT, V4_BIT OR V6_BIT} \<and>
     (link_state m \<in> {V4_BIT, V4_BIT OR V6_BIT} \<longrightarrow> enable_ipv4 (prof m)) \<and>
     (link_state m \<in> {V6_BIT, V4_BIT OR V6_BIT} \<longrightarrow> enable_ipv6 (prof m)) \<and>
     (link_state m > 0 \<longleftrightarrow> dhcp m \<noteq> [] \<and> last (dhcp m) = Udhcpc_Start)"

definition cm_inv :: "profile \<Rightarrow> 'w cm \<Rightarrow> bool" where
  "cm_inv p m \<longleftrightarrow> same_families p (prof m) \<and> call_states m \<and> link_ok m"

lemmas cm_inv_defs = cm_inv_def call_states_def link_ok_def same_families_def

lemma cm_inv_start: "cm_inv p (cm_start w p)"
  by (auto simp: cm_inv_defs cm_start_def pkt_data_defs V4_BIT_def V6_BIT_def)

text \<open>What the invariant does not look at.\<close>

lemma cm_inv_irrelevant [simp]:
  "cm_inv p (m\<lparr>world := w\<rparr>) = cm_inv p m"
  "cm_inv p (m\<lparr>readings := n\<rparr>) = cm_inv p m"
  "cm_inv p (m\<lparr>PSAttachedState := a\<rparr>) = cm_inv p m"
  "cm_inv p (m\<lparr>alarm_in := al\<rparr>) = cm_inv p m"
  "cm_inv p (m\<lparr>signal_q := sq\<rparr>) = cm_inv p m"
  "cm_inv p (m\<lparr>device_q := dq\<rparr>) = cm_inv p m"
  "cm_inv p (m\<lparr>to_device := td\<rparr>) = cm_inv p m"
  "cm_inv p (m\<lparr>donot_exit_when_hangup := d\<rparr>) = cm_inv p m"
  "cm_inv p (m\<lparr>SetupCallFail := f\<rparr>) = cm_inv p m"
  "cm_inv p (m\<lparr>SetupCallAllowTime := t\<rparr>) = cm_inv p m"
  by (simp_all add: cm_inv_defs)

lemma cm_inv_quiet [simp]:
  "cm_inv p (set_alarm s m) = cm_inv p m"
  "cm_inv p (send_signo_to_main e m) = cm_inv p m"
  "cm_inv p (main_send_event_to_qmidevice c m) = cm_inv p m"
  "cm_inv p (qmidevice_send_event_to_main ev m) = cm_inv p m"
  "cm_inv p (qmidevice_send_event_to_main_ext ev d m) = cm_inv p m"
  "cm_inv p (ql_sigaction sg m) = cm_inv p m"
  "cm_inv p (snd (clock_msec clk m)) = cm_inv p m"
  by (simp_all add: set_alarm_def send_signo_to_main_def main_send_event_to_qmidevice_def
      qmidevice_send_event_to_main_def qmidevice_send_event_to_main_ext_def ql_sigaction_def clock_msec_def)

lemma cm_inv_profile:
  "cm_inv p m \<Longrightarrow> same_families (prof m) q \<Longrightarrow> cm_inv p (m\<lparr>prof := q\<rparr>)"
  by (auto simp: cm_inv_defs)

lemma families_update [simp]:
  "same_families q (r\<lparr>auth := a\<rparr>) = same_families q r"
  "same_families q (r\<lparr>ipv4 := v\<rparr>) = same_families q r"
  "same_families q (r\<lparr>ipv6 := u\<rparr>) = same_families q r"
  "same_families q (r\<lparr>loopback_state := l\<rparr>) = same_families q r"
  "same_families q (r\<lparr>replication_factor := f\<rparr>) = same_families q r"
  by (simp_all add: same_families_def)

lemma link_change_inv:
  assumes "cm_inv p m"
    and "link = 0 \<or> link = V4_BIT \<and> enable_ipv4 (prof m) \<or> link = V6_BIT \<and> enable_ipv6 (prof m) \<or>
      link = (V4_BIT OR V6_BIT) \<and> enable_ipv4 (prof m) \<and> enable_ipv6 (prof m)"
  shows "cm_inv p (usbnet_link_change link m)"
proof (cases "link_state m = link")
  case False
  have "same_families (prof m) (prof (usbnet_link_change link m))"
    "IPv4ConnectionStatus (usbnet_link_change link m) = IPv4ConnectionStatus m"
    "IPv6ConnectionStatus (usbnet_link_change link m) = IPv6ConnectionStatus m"
    by (simp_all add: usbnet_link_change_def)
  moreover have "link_state (usbnet_link_change link m) = link"
    "dhcp (usbnet_link_change link m) = dhcp m @ [if link \<noteq> 0 then Udhcpc_Start else Udhcpc_Stop]"
    using False by (simp_all add: usbnet_link_change_def)
  ultimately show ?thesis
    using assms unfolding cm_inv_def call_states_def link_ok_def same_families_def
    by (elim disjE conjE) (simp_all add: V4_BIT_def V6_BIT_def)
qed (use assms in \<open>simp add: usbnet_link_change_def\<close>)

lemma link_down_inv [simp]: "cm_inv p m \<Longrightarrow> cm_inv p (usbnet_link_change 0 m)"
  by (rule link_change_inv) simp_all

lemma adjust_link_inv:
  assumes "cm_inv p m"
  shows "cm_inv p (adjust_link m)"
proof (cases "some_family_connected m")
  case True
  have e: "IPv4ConnectionStatus m = QWDS_PKT_DATA_CONNECTED \<Longrightarrow> enable_ipv4 (prof m)"
    "IPv6ConnectionStatus m = QWDS_PKT_DATA_CONNECTED \<Longrightarrow> enable_ipv6 (prof m)"
    using assms by (simp_all add: cm_inv_def call_states_def)
  have "adjust_link m = usbnet_link_change (wanted_link m) m"
    using True by (auto simp: adjust_link_def some_family_connected_def pkt_data_defs)
  moreover have "cm_inv p (usbnet_link_change (wanted_link m) m)"
    using True e
    by (intro link_change_inv [OF assms]) (auto simp: wanted_link_def some_family_connected_def)
  ultimately show ?thesis by simp
next
  case False
  then have "adjust_link m = m \<or> adjust_link m = usbnet_link_change 0 m"
    by (simp add: adjust_link_def)
  then show ?thesis using assms link_down_inv by (elim disjE) simp_all
qed

lemma cm_inv_ipv4:
  "cm_inv p m \<Longrightarrow> s = QWDS_PKT_DATA_DISCONNECTED \<or> enable_ipv4 (prof m)
    \<Longrightarrow> cm_inv p (m\<lparr>IPv4ConnectionStatus := s\<rparr>)"
  by (auto simp: cm_inv_defs pkt_data_defs)

lemma cm_inv_ipv6:
  "cm_inv p m \<Longrightarrow> s = QWDS_PKT_DATA_DISCONNECTED \<or> enable_ipv6 (prof m)
    \<Longrightarrow> cm_inv p (m\<lparr>IPv6ConnectionStatus := s\<rparr>)"
  by (auto simp: cm_inv_defs pkt_data_defs)

lemma cm_inv_copy:
  "cm_inv p m \<Longrightarrow> enable_ipv6 (prof m) \<Longrightarrow> cm_inv p (m\<lparr>IPv6ConnectionStatus := IPv4ConnectionStatus m\<rparr>)"
  by (auto simp: cm_inv_defs)

lemma schedule_retry_inv: "cm_inv p m \<Longrightarrow> cm_inv p (schedule_retry clk m)"
  by (simp add: schedule_retry_def clock_msec_def Let_def)

lemma on_plain_inv: "on_plain f m = Some m' \<Longrightarrow> cm_inv p m \<Longrightarrow> cm_inv p m'"
  by (auto simp: on_plain_def bind_eq_Some_conv split: option.splits)

lemma update_registration_inv: "update_registration R m = Some m' \<Longrightarrow> cm_inv p m \<Longrightarrow> cm_inv p m'"
  by (auto simp: update_registration_def bind_eq_Some_conv)

lemma check_requests_inv: "check_requests R m = Some m' \<Longrightarrow> cm_inv p m \<Longrightarrow> cm_inv p m'"
  by (auto simp: check_requests_def bind_eq_Some_conv split: if_splits
      dest!: on_plain_inv update_registration_inv)

lemma on_call_list_inv: "cm_inv p m \<Longrightarrow> cm_inv p (on_call_list clk m)"
  by (simp add: on_call_list_def clock_msec_def Let_def)

lemma on_loopback_inv: "cm_inv p m \<Longrightarrow> cm_inv p (on_loopback d m)"
  by (auto simp: on_loopback_def Let_def split: option.split prod.split intro!: cm_inv_profile)

lemma on_network_state_inv: "on_network_state clk R m = Some m' \<Longrightarrow> cm_inv p m \<Longrightarrow> cm_inv p m'"
  by (auto simp: on_network_state_def clock_msec_def bind_eq_Some_conv dest!: update_registration_inv
      split: if_splits)

lemma take_events_inv: "cm_inv p (take_events D m) = cm_inv p m"
  by (simp add: take_events_def split: prod.split)

lemma main_quit_inv: "cm_inv p m \<Longrightarrow> cm_inv p (main_quit m)"
  by (simp add: main_quit_def)

lemma on_device_inv:
  "on_device clk R e m = Some (b, m') \<Longrightarrow> cm_inv p m \<Longrightarrow> cm_inv p m'"
  by (auto simp: on_device_def bind_eq_Some_conv on_call_list_inv on_loopback_inv
      split: prod.splits main_event.splits dest!: on_network_state_inv)

context request_laws
begin

lemma on_family_inv:
  assumes "on_family f fam m = Some (err, m')" "cm_inv p m"
    and "f = rq_SetupDataCall R \<or> f = rq_DeactivateDefaultPDP R \<or> f = rq_GetIPAddress R"
  shows "cm_inv p m' \<and> same_families (prof m) (prof m')"
proof -
  obtain q w where f: "f (world m) (prof m) fam = Some (err, q, w)" "m' = m\<lparr>world := w, prof := q\<rparr>"
    using assms(1) by (auto simp: on_family_def on_profile_def bind_eq_Some_conv)
  then have "same_families (prof m) q"
    using assms(3) setup_families deactivate_families address_families by metis
  then show ?thesis using f(2) assms(2) by (simp add: cm_inv_profile)
qed

lemmas setup_inv = on_family_inv [where f = "rq_SetupDataCall R", simplified]
lemmas deactivate_inv = on_family_inv [where f = "rq_DeactivateDefaultPDP R", simplified]
lemmas address_inv = on_family_inv [where f = "rq_GetIPAddress R", simplified]

lemma families_enable:
  "same_families q r \<Longrightarrow> enable_ipv4 r = enable_ipv4 q \<and> enable_ipv6 r = enable_ipv6 q"
  by (simp add: same_families_def)

lemma retry_inv:
  assumes "retry_other_auth R err m = Some (err', m')" "cm_inv p m"
  shows "cm_inv p m' \<and> same_families (prof m) (prof m')"
proof -
  let ?m = "m\<lparr>prof := (prof m)\<lparr>auth := (if auth (prof m) = 1 then 2 else 1)\<rparr>\<rparr>"
  have i: "cm_inv p ?m" using assms(2) by (simp add: cm_inv_profile)
  show ?thesis
  proof (cases "err > 0 \<and> has_text (user (prof m)) \<and> has_text (password (prof m))")
    case True
    then obtain m1 where m1: "on_family (rq_SetupDataCall R) IpFamilyV4 ?m = Some (err', m1)"
      and m': "m' = (if err' \<noteq> 0 then m1\<lparr>prof := (prof m1)\<lparr>auth := auth (prof m)\<rparr>\<rparr> else m1)"
      using assms(1) by (auto simp: retry_other_auth_def Let_def bind_eq_Some_conv)
    from setup_inv [OF m1 i] have "cm_inv p m1" "same_families (prof m) (prof m1)"
      by (simp_all add: same_families_def)
    then show ?thesis using m' by (simp add: cm_inv_profile)
  next
    case False
    then show ?thesis using assms by (auto simp: retry_other_auth_def)
  qed
qed

lemma start_ipv4_inv:
  assumes "start_ipv4 R m = Some m'" "cm_inv p m"
  shows "cm_inv p m'"
  using assms(1)
proof (cases rule: start_ipv4_cases)
  case (fail e1 m1 e2)
  then show ?thesis using setup_inv [OF fail(2) assms(2)] retry_inv by blast
next
  case (address e1 m1 m2 e3 m3)
  have 1: "cm_inv p m1" "same_families (prof m) (prof m1)"
    using setup_inv [OF address(2) assms(2)] by simp_all
  have 2: "cm_inv p m2" "same_families (prof m1) (prof m2)"
    using retry_inv [OF address(3) 1(1)] by simp_all
  have 3: "cm_inv p m3" "same_families (prof m2) (prof m3)"
    using address_inv [OF address(4) 2(1)] by simp_all
  have "enable_ipv4 (prof m3)"
    using address(1) 1(2) 2(2) 3(2) by (simp add: same_families_def)
  then show ?thesis using 3(1) address(5) by (simp add: cm_inv_ipv4)
qed (use assms in simp)

lemma start_ipv6_inv:
  assumes "start_ipv6 proto R m = Some m'" "cm_inv p m"
  shows "cm_inv p m'"
  using assms(1)
proof (cases rule: start_ipv6_cases)
  case (fail e2)
  then show ?thesis using setup_inv [OF fail(2) assms(2)] by simp
next
  case (address m2 e3 m3)
  have 2: "cm_inv p m2" "same_families (prof m) (prof m2)"
    using setup_inv [OF address(2) assms(2)] by simp_all
  have 3: "cm_inv p m3" "same_families (prof m2) (prof m3)"
    using address_inv [OF address(3) 2(1)] by simp_all
  have "enable_ipv6 (prof m3)"
    using address(1) 2(2) 3(2) by (simp add: same_families_def)
  then show ?thesis using 3(1) address(4) by (simp add: cm_inv_ipv6)
qed (use assms in \<open>simp_all add: cm_inv_copy\<close>)

lemma on_start_inv:
  assumes "on_start clk proto R m = Some m'" "cm_inv p m"
  shows "cm_inv p m'"
  using assms
  by (auto simp: on_start_def clock_msec_def Let_def bind_eq_Some_conv schedule_retry_inv split: if_splits
      dest!: start_ipv4_inv [where p = p] start_ipv6_inv [where p = p])

lemma check_address_inv:
  assumes "check_ipv4_address proto R m = Some (b, m')" "cm_inv p m"
  shows "cm_inv p m'"
  using assms by (auto simp: check_ipv4_address_def Let_def bind_eq_Some_conv split: if_splits dest!: address_inv)

lemma query_ipv4_inv:
  assumes "query_ipv4 R m = Some (err, m')" "cm_inv p m" "enable_ipv4 (prof m)"
  shows "cm_inv p m'"
  using assms by (auto simp: query_ipv4_def bind_eq_Some_conv intro!: cm_inv_ipv4 split: option.split)

lemma query_ipv6_inv:
  assumes "query_ipv6 R m = Some (err, m')" "cm_inv p m" "enable_ipv6 (prof m)"
  shows "cm_inv p m'"
  using assms by (auto simp: query_ipv6_def bind_eq_Some_conv intro!: cm_inv_ipv6 split: option.split)

lemma confirm_ipv4_inv:
  assumes "confirm_ipv4 proto R m = Some m'" "cm_inv p m"
  shows "cm_inv p m'"
  using assms
  by (auto simp: confirm_ipv4_def fetch_ipv4_def compare_ipv4_def bind_eq_Some_conv cm_inv_ipv4 split: if_splits
      dest!: check_address_inv [where p = p] address_inv [where p = p] deactivate_inv [where p = p])

lemma check_ipv4_inv:
  assumes "check_ipv4 proto R m = Some m'" "cm_inv p m"
  shows "cm_inv p m'"
  using assms
  by (auto simp: check_ipv4_def bind_eq_Some_conv cm_inv_ipv4 split: if_splits
      dest!: query_ipv4_inv [where p = p] confirm_ipv4_inv [where p = p])

lemma check_ipv6_inv:
  assumes "check_ipv6 proto R m = Some m'" "cm_inv p m"
  shows "cm_inv p m'"
  using assms
  by (auto simp: check_ipv6_def bind_eq_Some_conv cm_inv_ipv6 cm_inv_copy split: if_splits
      dest!: query_ipv6_inv [where p = p])

lemma on_check_inv:
  assumes "on_check proto R m = Some m'" "cm_inv p m"
  shows "cm_inv p m'"
  using assms
  by (auto simp: on_check_def Let_def bind_eq_Some_conv adjust_link_inv split: if_splits
      dest!: check_requests_inv [where p = p] check_ipv4_inv [where p = p] check_ipv6_inv [where p = p])

lemma run_deinit_inv: "run_deinit D m = Some m' \<Longrightarrow> cm_inv p m \<Longrightarrow> cm_inv p m'"
  by (auto simp: run_deinit_def bind_eq_Some_conv split: option.splits)

lemma on_stop_inv:
  assumes "on_stop proto R D m = Some m'" "cm_inv p m"
  shows "cm_inv p m'"
  using assms
  by (auto simp: on_stop_def Let_def bind_eq_Some_conv split: if_splits option.splits
      dest!: deactivate_inv [where p = p] run_deinit_inv [where p = p])

lemma on_signal_inv:
  assumes "on_signal clk proto R D s m = Some (b, m')" "cm_inv p m"
  shows "cm_inv p m'"
  using assms
  by (auto simp: on_signal_def Let_def bind_eq_Some_conv split: sig_event.splits
      dest!: on_start_inv [where p = p] on_check_inv [where p = p] on_stop_inv [where p = p])

lemma serve_inv:
  assumes "serve rv f m = Some (b, m')" "cm_inv p m"
    and f: "\<And>m b m'. f m = Some (b, m') \<Longrightarrow> cm_inv p m \<Longrightarrow> cm_inv p m'"
  shows "cm_inv p m'"
proof -
  let ?m = "if rv_hup rv \<or> rv_err rv then main_send_event_to_qmidevice (To_Event RIL_REQUEST_QUIT) m else m"
  have i: "cm_inv p ?m" using assms(2) by simp
  have s: "(if rv_hup rv then Some (True, ?m) else if rv_in rv then f ?m else Some (False, ?m)) = Some (b, m')"
    using assms(1) by (simp only: serve_def Let_def)
  consider "m' = ?m" | "f ?m = Some (b, m')" using s by (simp only: option.inject prod.inject split: if_splits)
  then show ?thesis
  proof cases
    case 1
    then show ?thesis using i by (simp only:)
  next
    case 2
    then show ?thesis using i by (rule f)
  qed
qed

lemma read_signal_inv:
  "read_signal clk proto R D m = Some (b, m') \<Longrightarrow> cm_inv p m \<Longrightarrow> cm_inv p m'"
  by (auto simp: read_signal_def bind_eq_Some_conv take_events_inv split: list.splits
      dest!: on_signal_inv [where p = p])

lemma read_device_inv:
  "read_device clk R D m = Some (b, m') \<Longrightarrow> cm_inv p m \<Longrightarrow> cm_inv p m'"
  by (auto simp: read_device_def bind_eq_Some_conv take_events_inv split: list.splits
      dest!: on_device_inv [where p = p])

lemma poll_step_inv:
  assumes "poll_step clk proto R D pr m = Some (b, m')" "cm_inv p m"
  shows "cm_inv p m'"
proof (cases pr)
  case (Poll_Ready rs rd)
  with assms(1) have "do { (b, m) \<leftarrow> serve rs (read_signal clk proto R D) m;
      (if b then Some (True, main_quit m)
       else do { (b, m) \<leftarrow> serve rd (read_device clk R D) m; Some (b, if b then main_quit m else m) }) } = Some (b, m')"
    by (simp only: poll_step_def poll_result.case)
  then obtain b1 m1 where m1: "serve rs (read_signal clk proto R D) m = Some (b1, m1)"
    and rest: "(if b1 then Some (True, main_quit m1)
      else do { (b, m) \<leftarrow> serve rd (read_device clk R D) m1; Some (b, if b then main_quit m else m) }) = Some (b, m')"
    by (rule bind_pairE)
  have i1: "cm_inv p m1" using serve_inv [OF m1 assms(2)] read_signal_inv by blast
  show ?thesis
  proof (cases b1)
    case True
    then show ?thesis using rest main_quit_inv [OF i1] by simp
  next
    case False
    with rest have "do { (b, m) \<leftarrow> serve rd (read_device clk R D) m1; Some (b, if b then main_quit m else m) } = Some (b, m')"
      by (simp only: if_False)
    then obtain b2 m2 where m2: "serve rd (read_device clk R D) m1 = Some (b2, m2)"
      and "Some (b2, if b2 then main_quit m2 else m2) = Some (b, m')"
      by (rule bind_pairE)
    then have m': "m' = (if b2 then main_quit m2 else m2)" by auto
    have "cm_inv p m2" using serve_inv [OF m2 i1] read_device_inv by blast
    then show ?thesis using m' main_quit_inv [of p m2] by simp
  qed
next
  case Poll_Timeout
  then have "m' = send_signo_to_main SIG_EVENT_CHECK m" using assms(1) by (simp add: poll_step_def)
  then show ?thesis using assms(2) by simp
next
  case Poll_Failed
  then have "m' = main_quit m" using assms(1) by (simp add: poll_step_def)
  then show ?thesis using main_quit_inv [OF assms(2)] by simp
qed

lemma poll_step_inv':
  "poll_step clk proto R D pr m = Some c \<Longrightarrow> cm_inv p m \<Longrightarrow> cm_inv p (snd c)"
  using poll_step_inv [of clk proto D pr m "fst c" "snd c" p] by simp

lemma step_inv:
  "cm_step clk proto R D c c' \<Longrightarrow> cm_inv p (snd c) \<Longrightarrow> cm_inv p (snd c')"
  by (induction rule: cm_step.induct) (simp_all add: poll_step_inv')

lemma reach_inv:
  "cm_reach clk proto R D m0 c \<Longrightarrow> cm_inv p m0 \<Longrightarrow> cm_inv p (snd c)"
  by (induction rule: cm_reach.induct) (auto dest: step_inv)

end
section \<open>What the handlers leave alone\<close>

text \<open>Requests touch the protocol's state and the profile only.\<close>

definition rest_of :: "'w cm \<Rightarrow> _" where
  "rest_of m = (link_state m, PSAttachedState m, SetupCallFail m, SetupCallAllowTime m, readings m,
     alarm_in m, signal_q m, to_device m, donot_exit_when_hangup m, dhcp m)"

lemma rest_of_irrelevant [simp]:
  "rest_of (m\<lparr>world := w\<rparr>) = rest_of m" "rest_of (m\<lparr>prof := p\<rparr>) = rest_of m"
  "rest_of (m\<lparr>IPv4ConnectionStatus := s\<rparr>) = rest_of m" "rest_of (m\<lparr>IPv6ConnectionStatus := s\<rparr>) = rest_of m"
  by (simp_all add: rest_of_def)

lemma on_family_rest: "on_family f fam m = Some (err, m') \<Longrightarrow> rest_of m' = rest_of m"
  by (auto simp: on_family_def on_profile_def bind_eq_Some_conv)

lemma retry_rest: "retry_other_auth R e m = Some (err, m') \<Longrightarrow> rest_of m' = rest_of m"
  by (auto simp: retry_other_auth_def Let_def bind_eq_Some_conv split: if_splits dest!: on_family_rest)

lemma start_ipv4_rest: "start_ipv4 R m = Some m' \<Longrightarrow> rest_of m' = rest_of m"
  by (erule start_ipv4_cases) (simp_all add: on_family_rest retry_rest)

lemma start_ipv6_rest: "start_ipv6 proto R m = Some m' \<Longrightarrow> rest_of m' = rest_of m"
  by (erule start_ipv6_cases) (simp_all add: on_family_rest)

lemma query_rest: "query_ipv4 R m = Some (err, m') \<Longrightarrow> rest_of m' = rest_of m"
    "query_ipv6 R m = Some (err, m') \<Longrightarrow> rest_of m' = rest_of m"
  by (auto simp: query_ipv4_def query_ipv6_def bind_eq_Some_conv)

lemma check_address_rest: "check_ipv4_address proto R m = Some (b, m') \<Longrightarrow> rest_of m' = rest_of m"
  by (auto simp: check_ipv4_address_def Let_def bind_eq_Some_conv split: if_splits dest!: on_family_rest)

lemma fetch_rest: "fetch_ipv4 R m = Some m' \<Longrightarrow> rest_of m' = rest_of m"
  by (auto simp: fetch_ipv4_def bind_eq_Some_conv split: if_splits dest!: on_family_rest)

lemma compare_rest: "compare_ipv4 proto R m = Some m' \<Longrightarrow> rest_of m' = rest_of m"
  by (auto simp: compare_ipv4_def bind_eq_Some_conv split: if_splits dest!: on_family_rest check_address_rest)

lemma confirm_rest: "confirm_ipv4 proto R m = Some m' \<Longrightarrow> rest_of m' = rest_of m"
  by (auto simp: confirm_ipv4_def bind_eq_Some_conv dest!: fetch_rest compare_rest)

lemma check_ipv4_rest: "check_ipv4 proto R m = Some m' \<Longrightarrow> rest_of m' = rest_of m"
  by (auto simp: check_ipv4_def bind_eq_Some_conv split: if_splits dest!: query_rest confirm_rest)

lemma check_ipv6_rest: "check_ipv6 proto R m = Some m' \<Longrightarrow> rest_of m' = rest_of m"
  by (auto simp: check_ipv6_def bind_eq_Some_conv split: if_splits dest!: query_rest)

lemma on_plain_signals: "on_plain f m = Some m' \<Longrightarrow> signal_q m' = signal_q m"
  by (auto simp: on_plain_def bind_eq_Some_conv split: option.splits)

lemma update_registration_signals: "update_registration R m = Some m' \<Longrightarrow> signal_q m' = signal_q m"
  by (auto simp: update_registration_def bind_eq_Some_conv)

lemma check_requests_signals: "check_requests R m = Some m' \<Longrightarrow> signal_q m' = signal_q m"
  by (auto simp: check_requests_def bind_eq_Some_conv split: if_splits
      dest!: on_plain_signals update_registration_signals)

section \<open>The back-off\<close>

lemma retry_delay_range: "5 \<le> retry_delay n \<and> retry_delay n \<le> 60"
proof -
  have "unat n = 0 \<or> unat n = 1 \<or> unat n = 2 \<or> unat n = 3 \<or> unat n = 4" if "unat n < 5"
    using that by arith
  then show ?thesis by (auto simp: retry_delay_def allow_time_def)
qed

section \<open>After a check\<close>

lemma on_family_status:
  "on_family f fam m = Some (err, m') \<Longrightarrow> IPv4ConnectionStatus m' = IPv4ConnectionStatus m \<and>
     IPv6ConnectionStatus m' = IPv6ConnectionStatus m"
  by (auto simp: on_family_def on_profile_def bind_eq_Some_conv)

lemma check_address_status:
  "check_ipv4_address proto R m = Some (b, m') \<Longrightarrow> IPv4ConnectionStatus m' = IPv4ConnectionStatus m \<and>
     IPv6ConnectionStatus m' = IPv6ConnectionStatus m"
  by (auto simp: check_ipv4_address_def Let_def bind_eq_Some_conv split: if_splits dest!: on_family_status)

lemma fetch_settles:
  assumes "fetch_ipv4 R m = Some m'" "settled (IPv4ConnectionStatus m)"
  shows "settled (IPv4ConnectionStatus m')"
  using assms by (auto simp: fetch_ipv4_def bind_eq_Some_conv split: if_splits dest!: on_family_status)

lemma compare_settles:
  assumes "compare_ipv4 proto R m = Some m'" "settled (IPv4ConnectionStatus m)"
  shows "settled (IPv4ConnectionStatus m')"
  using assms by (auto simp: compare_ipv4_def bind_eq_Some_conv split: if_splits dest!: check_address_status)

lemma confirm_settles:
  "confirm_ipv4 proto R m = Some m' \<Longrightarrow> settled (IPv4ConnectionStatus m) \<Longrightarrow> settled (IPv4ConnectionStatus m')"
  by (auto simp: confirm_ipv4_def bind_eq_Some_conv dest: fetch_settles compare_settles)

text \<open>A check by requests that report a state for every call leaves no enabled family
  unattended: it is part of the link, or an attempt to connect it has been queued.\<close>

context reporting_requests
begin

lemma query_settles:
  "query_ipv4 R m = Some (err, m') \<Longrightarrow> settled (IPv4ConnectionStatus m')"
  "query_ipv6 R m = Some (err, m') \<Longrightarrow> settled (IPv6ConnectionStatus m')"
  by (auto simp: query_ipv4_def query_ipv6_def bind_eq_Some_conv dest!: query_value)

lemma check_ipv4_settles:
  assumes "check_ipv4 proto R m = Some m'"
  shows "settled (IPv4ConnectionStatus m')"
proof (cases "enable_ipv4 (prof m) \<and> IPv4ConnectionStatus m \<noteq> QWDS_PKT_DATA_DISCONNECTED")
  case True
  from assms [unfolded check_ipv4_def if_P [OF True]]
  obtain err m1 where m1: "query_ipv4 R m = Some (err, m1)" and
    rest: "(if err = 0 then confirm_ipv4 proto R m1
      else Some (m1\<lparr>IPv4ConnectionStatus := QWDS_PKT_DATA_DISCONNECTED\<rparr>)) = Some m'" by (rule bind_pairE)
  show ?thesis
    using rest query_settles(1) [OF m1] confirm_settles by (auto split: if_splits)
next
  case False
  from assms [unfolded check_ipv4_def if_not_P [OF False]] show ?thesis by auto
qed

lemma check_ipv6_settles:
  assumes "check_ipv6 proto R m = Some m'" "settled (IPv4ConnectionStatus m)"
  shows "settled (IPv4ConnectionStatus m') \<and> settled (IPv6ConnectionStatus m')"
proof -
  have "query_ipv6 R m = Some (err, m1) \<Longrightarrow> IPv4ConnectionStatus m1 = IPv4ConnectionStatus m \<and>
      settled (IPv6ConnectionStatus m1)" for err m1
    using query_settles(2) by (auto simp: query_ipv6_def bind_eq_Some_conv)
  then show ?thesis
    using assms by (fastforce simp: check_ipv6_def bind_eq_Some_conv split: if_splits)
qed

lemma check_attends:
  assumes "on_check proto R m = Some m'" "cm_inv p m"
  shows "(enable_ipv4 p \<longrightarrow> link_state m' \<in> {V4_BIT, V4_BIT OR V6_BIT} \<or> signal_q m' = signal_q m @ [SIG_EVENT_START]) \<and>
    (enable_ipv6 p \<longrightarrow> link_state m' \<in> {V6_BIT, V4_BIT OR V6_BIT} \<or> signal_q m' = signal_q m @ [SIG_EVENT_START])"
proof -
  obtain m1 m2 m3 where m1: "check_requests R m = Some m1" and m2: "check_ipv4 proto R m1 = Some m2"
    and m3: "check_ipv6 proto R m2 = Some m3"
    and m': "m' = (let m = adjust_link m3 in if some_family_down m then send_signo_to_main SIG_EVENT_START m else m)"
    using assms(1) by (auto simp: on_check_def bind_eq_Some_conv Let_def)
  have inv: "cm_inv p m3"
    using check_requests_inv [OF m1 assms(2)] check_ipv4_inv [OF m2] check_ipv6_inv [OF m3] by blast
  have s: "settled (IPv4ConnectionStatus m3)" "settled (IPv6ConnectionStatus m3)"
    using check_ipv6_settles [OF m3 check_ipv4_settles [OF m2]] by blast+
  have q: "signal_q m3 = signal_q m"
    using check_requests_signals [OF m1] check_ipv4_rest [OF m2] check_ipv6_rest [OF m3]
    by (simp add: rest_of_def)
  have a: "signal_q (adjust_link m3) = signal_q m3"
    "IPv4ConnectionStatus (adjust_link m3) = IPv4ConnectionStatus m3"
    "IPv6ConnectionStatus (adjust_link m3) = IPv6ConnectionStatus m3"
    "enable_ipv4 (prof (adjust_link m3)) = enable_ipv4 (prof m3)"
    "enable_ipv6 (prof (adjust_link m3)) = enable_ipv6 (prof m3)"
    by (simp_all add: adjust_link_def usbnet_link_change_def)
  have e: "enable_ipv4 (prof m3) = enable_ipv4 p" "enable_ipv6 (prof m3) = enable_ipv6 p"
    using inv by (simp_all add: cm_inv_def same_families_def)
  have l: "some_family_connected m3 \<Longrightarrow> link_state (adjust_link m3) = wanted_link m3"
    by (auto simp: adjust_link_def usbnet_link_change_def some_family_connected_def pkt_data_defs)
  have d: "some_family_down (adjust_link m3) = some_family_down m3"
    by (simp add: some_family_down_def a)
  show ?thesis
  proof (cases "some_family_down m3")
    case True
    then show ?thesis using m' d q a by (simp add: Let_def send_signo_to_main_def)
  next
    case False
    then have "enable_ipv4 p \<Longrightarrow> IPv4ConnectionStatus m3 = QWDS_PKT_DATA_CONNECTED"
      "enable_ipv6 p \<Longrightarrow> IPv6ConnectionStatus m3 = QWDS_PKT_DATA_CONNECTED"
      using s e by (auto simp: some_family_down_def settled_def)
    moreover have "m' = adjust_link m3" using False m' d by (simp add: Let_def)
    ultimately show ?thesis
      using l by (auto simp: some_family_connected_def wanted_link_def)
  qed
qed

end

section \<open>The end of a run\<close>

context total_requests
begin

lemma on_family_total:
  assumes "f = rq_SetupDataCall R \<or> f = rq_DeactivateDefaultPDP R \<or> f = rq_GetIPAddress R"
  shows "\<exists>err m'. on_family f fam m = Some (err, m')"
proof -
  obtain err p' w' where "f (world m) (prof m) fam = Some (err, p', w')"
    using assms setup_total deactivate_total address_total by metis
  then show ?thesis by (simp add: on_family_def on_profile_def)
qed

lemma release_total:
  "\<exists>m'. (if c then do { (_, m) \<leftarrow> on_family (rq_DeactivateDefaultPDP R) fam m; Some m } else Some m) = Some m'"
  using on_family_total [of "rq_DeactivateDefaultPDP R" fam m] by auto

lemma stop_total:
  assumes "\<And>f v. dev_deinit D = Some f \<Longrightarrow> \<exists>v'. f v = Some v'"
  shows "\<exists>m'. on_stop proto R D m = Some m'"
proof -
  obtain m1 where 1: "(if enable_ipv4 (prof m) \<and> IPv4ConnectionStatus m = QWDS_PKT_DATA_CONNECTED
      then do { (_, m) \<leftarrow> on_family (rq_DeactivateDefaultPDP R) IpFamilyV4 m; Some m } else Some m) = Some m1"
    using release_total by blast
  obtain m2 where 2: "(if enable_ipv6 (prof m1) \<and> IPv6ConnectionStatus m1 = QWDS_PKT_DATA_CONNECTED \<and>
        \<not> (enable_ipv4 (prof m1) \<and> proto \<noteq> Qmi_Protocol)
      then do { (_, m) \<leftarrow> on_family (rq_DeactivateDefaultPDP R) IpFamilyV6 m1; Some m } else Some m1) = Some m2"
    using release_total by blast
  obtain m3 where 3: "run_deinit D (usbnet_link_change 0 m2) = Some m3"
    using assms [of _ "world (usbnet_link_change 0 m2)"] by (cases "dev_deinit D") (auto simp: run_deinit_def)
  show ?thesis by (simp only: on_stop_def 1 2 3 bind.bind_lunit) simp
qed

end

lemma stop_effect:
  assumes "on_stop proto R D m = Some m'"
  shows "link_state m' = 0 \<and> To_Event RIL_REQUEST_QUIT \<in> set (to_device m')"
proof -
  obtain m1 m2 where "run_deinit D (usbnet_link_change 0 m1) = Some m2"
      "m' = main_send_event_to_qmidevice (To_Event RIL_REQUEST_QUIT) m2"
    using assms by (auto simp: on_stop_def bind_eq_Some_conv)
  then show ?thesis
    by (auto simp: run_deinit_def main_send_event_to_qmidevice_def usbnet_link_change_def bind_eq_Some_conv split: option.splits)
qed

section \<open>Waiting for the SIM\<close>

text \<open>The loop at start-up ends as soon as the modem gives another answer than "not supported
  now", with the last state it reported.\<close>

primrec unsupported_for :: "('w \<Rightarrow> (int \<times> sim_status option \<times> 'w) option) \<Rightarrow> nat \<Rightarrow> 'w \<Rightarrow> 'w \<Rightarrow> bool" where
  "unsupported_for f 0 w v \<longleftrightarrow> w = v"
| "unsupported_for f (Suc n) w v \<longleftrightarrow>
     (case f w of None \<Rightarrow> False
      | Some (err, st, w') \<Rightarrow> err = QMI_ERR_OP_DEVICE_UNSUPPORTED \<and> unsupported_for f n w' v)"

end
