(* ===== verification/Atc_Ops.thy ===== *)
theory Atc_Ops
  imports Atc Main_Inv
begin

text \<open>
  The AT protocol as the main loop sees it: \<^verbatim>\<open>atc_request_ops\<close> and \<^verbatim>\<open>atc_dev_ops\<close> at the end of
  \<^verbatim>\<open>quectel_cm_5G/src/atc.c\<close>, the laws of the main loop's interface for them, and the
  properties of the loop over AT.
\<close>

section \<open>The tables\<close>

definition keep_profile :: "profile \<Rightarrow> (int \<times> 'w) option \<Rightarrow> (int \<times> profile \<times> 'w) option" where
  "keep_profile p r = map_option (\<lambda>(err, w). (err, p, w)) r"

definition written :: "(int \<times> byte \<times> 'w) option \<Rightarrow> (int \<times> byte option \<times> 'w) option" where
  "written r = map_option (\<lambda>(err, b, w). (err, Some b, w)) r"

text \<open>\<open>j\<close> and \<open>k\<close> are the indeterminate locals of \<open>requestGetProfile\<close> and
  \<open>requestQueryDataCall\<close>.\<close>

definition atc_request_ops :: "int \<Rightarrow> int \<Rightarrow> atc request_ops" where
  "atc_request_ops j k = \<lparr>
     rq_BaseBandVersion = Some requestBaseBandVersion,
     rq_SetEthMode = None,
     rq_SetLoopBackState = None,
     rq_GetSIMStatus = Some requestGetSIMStatus,
     rq_EnterSimPin = Some requestEnterSimPin,
     rq_SetProfile = Some (\<lambda>w p. keep_profile p (requestSetProfile w p)),
     rq_GetProfile = Some (requestGetProfile j),
     rq_RegistrationState = (\<lambda>w. written (requestRegistrationState w)),
     rq_SetupDataCall = (\<lambda>w p fam. keep_profile p (requestSetupDataCall w p fam)),
     rq_QueryDataCall = (\<lambda>w fam. written (requestQueryDataCall k w fam)),
     rq_DeactivateDefaultPDP = (\<lambda>w p fam. keep_profile p (requestDeactivateDefaultPDP w p fam)),
     rq_GetIPAddress = requestGetIPAddress,
     rq_GetSignalInfo = Some requestGetSignalInfo,
     rq_GetCellInfoList = None,
     rq_GetICCID = Some requestGetICCID,
     rq_GetIMSI = Some requestGetIMSI,
     rq_GetCoexWWANState = None\<rparr>"

definition atc_dev_ops :: "atc device_ops" where
  "atc_dev_ops = \<lparr>
     dev_init = Some (\<lambda>w p. map_option (\<lambda>(err, w). (err, p, donot_exit w, w)) (atc_init w p)),
     dev_deinit = Some Some,
     dev_events = (\<lambda>w. (map (\<lambda>e. (e, None)) (to_main w), w\<lparr>to_main := []\<rparr>))\<rparr>"

section \<open>The laws\<close>

lemma keep_profile_Some [simp]:
  "keep_profile p r = Some (err, p', w') \<longleftrightarrow> p' = p \<and> r = Some (err, w')"
  by (auto simp: keep_profile_def)

lemma written_Some [simp]:
  "written r = Some (err, st, w') \<longleftrightarrow> (\<exists>b. st = Some b \<and> r = Some (err, b, w'))"
  by (auto simp: written_def)

lemma atc_query_state:
  "requestQueryDataCall k w fam = Some (err, b, w') \<Longrightarrow> b = QWDS_PKT_DATA_CONNECTED \<or> b = QWDS_PKT_DATA_DISCONNECTED"
  by (auto simp: requestQueryDataCall_def Let_def bind_eq_Some_conv split: if_splits prod.splits)

lemma atc_address_families:
  "requestGetIPAddress w p fam = Some (err, p', w') \<Longrightarrow> same_families p p'"
  by (auto simp: requestGetIPAddress_def bind_eq_Some_conv split: if_splits)

lemma at_netdevstatus_total: "\<exists>err a w'. at_netdevstatus w n = Some (err, a, w')"
  using send_single_total [of w "''AT+QNETDEVSTATUS='' @ show_int n" "''+QNETDEVSTATUS''"]
  by (auto simp: at_netdevstatus_def split: option.split prod.split)

lemma poll_netdev_total: "\<exists>err b w'. poll_netdev t n e w = Some (err, b, w')"
proof (induction t arbitrary: e w)
  case (Suc t)
  obtain err out w1 where 1: "send_single w (''AT+QNETDEVSTATUS='' @ show_int n) ''+QNETDEVSTATUS'' True = Some (err, out, w1)"
    using send_single_total by blast
  have "\<exists>e b w'. (if err \<noteq> 0 then Some (err, False, w1) else if \<not> at_response_error err out then Some (err, True, w1)
      else poll_netdev t n err w1) = Some (e, b, w')"
    using Suc.IH [of err w1] by (smt (verit, best))
  then show ?case by (simp only: poll_netdev.simps 1 bind.bind_lunit prod.case)
qed (simp, blast)

lemma activate_context_total: "\<exists>r. activate_context w n = Some r"
proof -
  obtain err out w1 where 1: "send_multi w ''AT+CGACT?'' ''+CGACT:'' True = Some (err, out, w1)"
    using send_multi_total by blast
  obtain err2 out2 w2 where 2: "send_cmd w1 (''AT+CGACT=1,'' @ show_int n) True = Some (err2, out2, w2)"
    using send_cmd_total by blast
  show ?thesis using 1 2 by (simp add: activate_context_def)
qed

lemma atc_setup_total: "\<exists>err w'. requestSetupDataCall w p fam = Some (err, w')"
proof -
  obtain r where r: "(if asr_style_atc w then activate_context w (pdp p) else Some (Inr w)) = Some r"
    using activate_context_total [of w "pdp p"] by (cases "asr_style_atc w") auto
  show ?thesis
  proof (cases r)
    case (Inl q)
    show ?thesis
      by (simp only: requestSetupDataCall_def Let_def r bind.bind_lunit Inl sum.case split: prod.split) simp
  next
    case (Inr w1)
    obtain err out w2 where c: "send_cmd w1 (netdevctl_cmd (asr_style_atc w) (pdp p) 1) True = Some (err, out, w2)"
      using send_cmd_total by blast
    obtain err3 b w3 where
      e: "(if asr_style_atc w then Some (err, True, w2) else poll_netdev 15 (pdp p) err w2) = Some (err3, b, w3)"
      using poll_netdev_total [of 15 "pdp p" err w2] by (cases "asr_style_atc w") auto
    show ?thesis
      by (simp only: requestSetupDataCall_def Let_def r bind.bind_lunit Inr sum.case c e prod.case) simp
  qed
qed

lemma atc_query_total: "\<exists>err b w'. requestQueryDataCall k w fam = Some (err, b, w')"
proof (cases "asr_style_atc w")
  case False
  then show ?thesis
    using at_netdevstatus_total [of w "s_pdp w"] by (auto simp: requestQueryDataCall_def)
next
  case True
  obtain err out w1 where 1: "send_multi w ''AT+QNETDEVCTL?'' ''+QNETDEVCTL:'' True = Some (err, out, w1)"
    using send_multi_total by blast
  obtain err2 out2 w2 where 2: "send_multi w1 ''AT+CGACT?'' ''+CGACT:'' True = Some (err2, out2, w2)"
    using send_multi_total by blast
  obtain b cid st where s: "netdevctl_scan (lines out) (s_pdp w) 0 k 0 = (b, cid, st)"
    by (rule prod_cases3)
  show ?thesis using True by (simp add: requestQueryDataCall_def Let_def 1 2 s)
qed

lemma atc_deactivate_total: "\<exists>err w'. requestDeactivateDefaultPDP w p fam = Some (err, w')"
  using send_cmd_total [of w "netdevctl_cmd (asr_style_atc w) (pdp p) 0" False]
  by (auto simp: requestDeactivateDefaultPDP_def)

lemma atc_address_total: "\<exists>err p' w'. requestGetIPAddress w p fam = Some (err, p', w')"
  using at_netdevstatus_total [of w "pdp p"]
    send_single_total [of w "''AT+CGPADDR='' @ show_int (pdp p)" "''+CGPADDR:''"]
  by (auto simp: requestGetIPAddress_def)

lemma atc_registration_total: "\<exists>err b w'. requestRegistrationState w = Some (err, b, w')"
proof -
  obtain err out w1 where 1: "send_multi w COPS_QUERY ''+COPS:'' True = Some (err, out, w1)"
    using send_multi_total by blast
  have q: "\<exists>err b w'. reg_query w1 cmd pre = Some (err, b, w')" for cmd pre
    using send_single_total [of w1 cmd pre] by (auto simp: reg_query_def split: option.split)
  show ?thesis
    by (auto simp: requestRegistrationState_def 1 q split: option.split prod.split)
qed

interpretation atc_ops: total_requests "atc_request_ops j k" for j k
proof unfold_locales
  fix f :: "atc plain_request" and w p fam err st w' p'
  show "rq_GetCellInfoList (atc_request_ops j k) = Some f \<Longrightarrow> \<exists>err w'. f w = Some (err, w')"
    "rq_GetCoexWWANState (atc_request_ops j k) = Some f \<Longrightarrow> \<exists>err w'. f w = Some (err, w')"
    by (simp_all add: atc_request_ops_def)
  show "\<exists>err st w'. rq_RegistrationState (atc_request_ops j k) w = Some (err, st, w')"
    using atc_registration_total [of w] by (simp add: atc_request_ops_def) blast
  show "\<exists>err p' w'. rq_SetupDataCall (atc_request_ops j k) w p fam = Some (err, p', w')"
    using atc_setup_total [of w p fam] by (simp add: atc_request_ops_def)
  show "\<exists>err st w'. rq_QueryDataCall (atc_request_ops j k) w fam = Some (err, st, w')"
    using atc_query_total [of k w fam] by (simp add: atc_request_ops_def) blast
  show "\<exists>err p' w'. rq_DeactivateDefaultPDP (atc_request_ops j k) w p fam = Some (err, p', w')"
    using atc_deactivate_total [of w p fam] by (simp add: atc_request_ops_def)
  show "\<exists>err p' w'. rq_GetIPAddress (atc_request_ops j k) w p fam = Some (err, p', w')"
    using atc_address_total [of w p fam] by (simp add: atc_request_ops_def)
  show "rq_SetupDataCall (atc_request_ops j k) w p fam = Some (err, p', w') \<Longrightarrow> same_families p p'"
    "rq_DeactivateDefaultPDP (atc_request_ops j k) w p fam = Some (err, p', w') \<Longrightarrow> same_families p p'"
    by (simp_all add: atc_request_ops_def)
  show "rq_GetIPAddress (atc_request_ops j k) w p fam = Some (err, p', w') \<Longrightarrow> same_families p p'"
    by (simp add: atc_request_ops_def atc_address_families)
qed

interpretation atc_reports: reporting_requests "atc_request_ops j k" for j k
  by unfold_locales (auto simp: atc_request_ops_def settled_def dest: atc_query_state)

section \<open>The loop over AT\<close>

text \<open>Property C3: In every run of the loop over AT, from the state the program starts in: a family the
  user did not enable is never connected and never part of the link, the link state is one of
  the five the code uses, and the DHCP client runs exactly while some family is up.\<close>

theorem loop_invariant:
  assumes "cm_reach clk Atc_Protocol (atc_request_ops j k) atc_dev_ops (cm_start w p) (q, m)"
  shows "enable_ipv4 (prof m) = enable_ipv4 p \<and> enable_ipv6 (prof m) = enable_ipv6 p \<and>
    (IPv4ConnectionStatus m = QWDS_PKT_DATA_CONNECTED \<longrightarrow> enable_ipv4 p) \<and>
    (IPv6ConnectionStatus m = QWDS_PKT_DATA_CONNECTED \<longrightarrow> enable_ipv6 p) \<and>
    link_state m \<in> {-1, 0, 16, 64, 80} \<and>
    (link_state m \<in> {16, 80} \<longrightarrow> enable_ipv4 p) \<and> (link_state m \<in> {64, 80} \<longrightarrow> enable_ipv6 p) \<and>
    (link_state m > 0 \<longleftrightarrow> dhcp m \<noteq> [] \<and> last (dhcp m) = Udhcpc_Start)"
proof -
  have "cm_inv p (cm_start w p)"
    by (rule cm_inv_start)
  from atc_ops.reach_inv [OF assms this] have "cm_inv p m" by simp
  then show ?thesis by (auto simp: cm_inv_defs V4_BIT_def V6_BIT_def)
qed

definition example_profile :: profile where
  "example_profile = profile_zero\<lparr>enable_ipv4 := True, pdp := 1\<rparr>"

text \<open>The run in which the wait for an event times out, the check is queued and the user ends the
  program.\<close>

theorem loop_invariant_witness:
  "enable_ipv6 example_profile = False \<and>
   (\<exists>m. cm_reach (\<lambda>n. of_nat n) Atc_Protocol (atc_request_ops 0 0) atc_dev_ops
          (cm_start (atc_start []) example_profile) (False, m) \<and>
        signal_q m = [SIG_EVENT_CHECK, SIG_EVENT_STOP] \<and> link_state m \<notin> {64, 80})"
proof -
  let ?R = "atc_request_ops 0 0" let ?m = "cm_start (atc_start []) example_profile"
  let ?m1 = "send_signo_to_main SIG_EVENT_CHECK ?m"
  have "cm_step (\<lambda>n. of_nat n) Atc_Protocol ?R atc_dev_ops (False, ?m) (False, ?m1)"
    by (rule cm_step.Timeout) (simp_all add: poll_step_def cm_start_def)
  moreover have "cm_step (\<lambda>n. of_nat n) Atc_Protocol ?R atc_dev_ops (False, ?m1) (False, ql_sigaction SIGTERM ?m1)"
    by (rule cm_step.Signal) simp
  ultimately have r: "cm_reach (\<lambda>n. of_nat n) Atc_Protocol ?R atc_dev_ops ?m (False, ql_sigaction SIGTERM ?m1)"
    by (meson cm_reach.Start cm_reach.Step)
  have e: "enable_ipv6 example_profile = False" by (simp add: example_profile_def profile_zero_def)
  have "link_state (ql_sigaction SIGTERM ?m1) \<notin> {64, 80}"
    using loop_invariant [OF r] e by blast
  moreover have "signal_q (ql_sigaction SIGTERM ?m1) = [SIG_EVENT_CHECK, SIG_EVENT_STOP]"
    by (simp add: ql_sigaction_def send_signo_to_main_def main_send_event_to_qmidevice_def cm_start_def)
  ultimately show ?thesis using r e by blast
qed


text \<open>The modem has been pulled out: the AT channel is closed.\<close>

definition hung_up :: atc where
  "hung_up = (let w = atc_start [] in w\<lparr>chan := at_close (chan w)\<rparr>)"


text \<open>Property C13: An attempt that leaves an enabled family down is repeated: the alarm is set to the
  next time of the table 5, 10, 20, 40, 60, 60 and so on seconds, the number of failures grows
  by one, and the time before which nothing is dialled is that much later.\<close>

theorem retry_is_scheduled:
  assumes "on_start clk proto R m = Some m'" "PSAttachedState m = 1"
    "SetupCallAllowTime m \<le> clk (readings m)" "some_family_down m'"
  shows "alarm_in m' = Some (retry_delay (SetupCallFail m)) \<and>
    SetupCallFail m' = SetupCallFail m + 1 \<and>
    SetupCallAllowTime m' = retry_delay (SetupCallFail m) * 1000 + clk (readings m + 1) \<and>
    5 \<le> retry_delay (SetupCallFail m) \<and> retry_delay (SetupCallFail m) \<le> 60"
proof -
  obtain m1 m2 where m1: "start_ipv4 R (m\<lparr>readings := readings m + 1\<rparr>) = Some m1"
    and m2: "start_ipv6 proto R m1 = Some m2" and m': "m' = schedule_retry clk m2"
    using assms(1-3) by (auto simp: on_start_def clock_msec_def bind_eq_Some_conv split: if_splits)
  have r: "rest_of m2 = rest_of (m\<lparr>readings := readings m + 1\<rparr>)"
    using start_ipv4_rest [OF m1] start_ipv6_rest [OF m2] by simp
  have d: "some_family_down m2"
    using assms(4) m' by (auto simp: schedule_retry_def clock_msec_def set_alarm_def some_family_down_def Let_def split: if_splits)
  have "retry_delay (SetupCallFail m) \<noteq> 0"
    using retry_delay_range [of "SetupCallFail m"] by auto
  then show ?thesis
    using r d m' retry_delay_range [of "SetupCallFail m"]
    by (simp add: schedule_retry_def clock_msec_def set_alarm_def Let_def rest_of_def)
qed

definition example_down :: "atc cm" where
  "example_down = (cm_start hung_up example_profile)\<lparr>PSAttachedState := 1,
     IPv4ConnectionStatus := QWDS_PKT_DATA_DISCONNECTED, SetupCallFail := 2\<rparr>"

theorem retry_is_scheduled_witness:
  "\<exists>m'. on_start (\<lambda>n. 7) Atc_Protocol (atc_request_ops 0 0) example_down = Some m' \<and>
     alarm_in m' = Some 20 \<and> SetupCallFail m' = 3 \<and> SetupCallAllowTime m' = 20007"
proof -
  have "map_option some_family_down (on_start (\<lambda>n. 7) Atc_Protocol (atc_request_ops 0 0) example_down) = Some True"
    by code_simp
  then obtain m' where m': "on_start (\<lambda>n. 7) Atc_Protocol (atc_request_ops 0 0) example_down = Some m'"
    "some_family_down m'" by auto
  have "PSAttachedState example_down = 1" "SetupCallAllowTime example_down \<le> 7" "SetupCallFail example_down = 2"
    by (simp_all add: example_down_def cm_start_def)
  with retry_is_scheduled [OF m'(1) _ _ m'(2)]
  have "alarm_in m' = Some (retry_delay 2)" "SetupCallFail m' = 2 + 1"
    "SetupCallAllowTime m' = retry_delay 2 * 1000 + 7" by simp_all
  moreover have "retry_delay 2 = 20" by (simp add: retry_delay_def allow_time_def)
  ultimately show ?thesis using m'(1) by simp
qed

text \<open>The clock is a 32 bit number of milliseconds. When it wraps between an attempt and
  the time allowed for the next, nothing is dialled and the next attempt is put off by almost
  50 days.\<close>

theorem clock_wrap_blocks_dialling:
  assumes "PSAttachedState m = 1" "SetupCallAllowTime m = 2 ^ 32 - 5000"
    "clk (readings m) \<le> 1000" "clk (readings m + 1) \<le> 1000"
  shows "\<exists>s m'. on_start clk proto R m = Some m' \<and> alarm_in m' = Some s \<and> 4294962 \<le> s \<and>
    world m' = world m \<and> prof m' = prof m"
proof -
  let ?c = "clk (readings m + 1)"
  have u: "unat (SetupCallAllowTime m) = 2 ^ 32 - 5000"
    using assms(2) by simp
  have a: "SetupCallAllowTime m > clk (readings m)"
    using assms(3) u by (simp add: word_less_nat_alt word_le_nat_alt)
  have c: "unat ?c \<le> 1000" using assms(4) by (simp add: word_le_nat_alt)
  have "unat (SetupCallAllowTime m - ?c) = 2 ^ 32 - 5000 - unat ?c"
    using u c by (subst unat_sub) (simp_all add: word_le_nat_alt)
  then have "unat (SetupCallAllowTime m - ?c + 999) = 2 ^ 32 - 5000 - unat ?c + 999"
    using c by (subst unat_add_lem [THEN iffD1]) simp_all
  then have d: "unat ((SetupCallAllowTime m - ?c + 999) div 1000) \<ge> 4294962"
    using c by (simp add: unat_div)
  then have "(SetupCallAllowTime m - ?c + 999) div 1000 \<noteq> 0" by auto
  then show ?thesis
    using a assms(1) d
    by (simp add: on_start_def clock_msec_def set_alarm_def Let_def word_le_nat_alt)
qed

theorem clock_wrap_blocks_dialling_witness:
  "\<exists>s m'. on_start (\<lambda>n. 1000) Atc_Protocol (atc_request_ops 0 0)
       (example_down\<lparr>SetupCallAllowTime := 2 ^ 32 - 5000\<rparr>) = Some m' \<and> alarm_in m' = Some s \<and> 4294962 \<le> s \<and>
     world m' = hung_up \<and> prof m' = example_profile"
  using clock_wrap_blocks_dialling [of "example_down\<lparr>SetupCallAllowTime := 2 ^ 32 - 5000\<rparr>" "\<lambda>n. 1000"
      Atc_Protocol "atc_request_ops 0 0"]
  by (simp add: example_down_def cm_start_def)

text \<open>A stop signal always ends the loop, whatever the modem does then: the interface goes
  down and the protocol's thread is told to quit.\<close>

theorem stop_ends_the_run:
  assumes "signal_q m = SIG_EVENT_STOP # q"
  shows "\<exists>m'. poll_step clk Atc_Protocol (atc_request_ops j k) atc_dev_ops
      (Poll_Ready \<lparr>rv_hup = False, rv_err = False, rv_in = True\<rparr> rd) m = Some (True, m') \<and>
    link_state m' = 0 \<and> To_Event RIL_REQUEST_QUIT \<in> set (to_device m')"
proof -
  have "\<exists>m1. on_stop Atc_Protocol (atc_request_ops j k) atc_dev_ops (set_alarm 0 (m\<lparr>signal_q := q\<rparr>)) = Some m1"
    by (rule atc_ops.stop_total) (simp add: atc_dev_ops_def)
  then obtain m1 where m1: "on_stop Atc_Protocol (atc_request_ops j k) atc_dev_ops (set_alarm 0 (m\<lparr>signal_q := q\<rparr>)) = Some m1"
    by blast
  have "poll_step clk Atc_Protocol (atc_request_ops j k) atc_dev_ops
      (Poll_Ready \<lparr>rv_hup = False, rv_err = False, rv_in = True\<rparr> rd) m = Some (True, main_quit (take_events atc_dev_ops m1))"
    by (simp add: poll_step_def serve_def read_signal_def assms on_signal_def m1)
  then show ?thesis
    using stop_effect [OF m1] by (simp add: main_quit_def usbnet_link_change_def take_events_def split: prod.split)
qed

theorem stop_ends_the_run_witness:
  "\<exists>m'. poll_step (\<lambda>n. 0) Atc_Protocol (atc_request_ops 0 0) atc_dev_ops
      (Poll_Ready \<lparr>rv_hup = False, rv_err = False, rv_in = True\<rparr> \<lparr>rv_hup = False, rv_err = False, rv_in = False\<rparr>)
      (ql_sigaction SIGTERM example_down) = Some (True, m') \<and> link_state m' = 0 \<and>
      To_Event RIL_REQUEST_QUIT \<in> set (to_device m')"
  by (rule stop_ends_the_run [where q = "[]"])
     (simp add: ql_sigaction_def send_signo_to_main_def main_send_event_to_qmidevice_def example_down_def cm_start_def)

text \<open>The loop at start-up that repeats the question for the SIM ends as soon as the modem
  gives another answer than "not supported now", with the state of that answer.\<close>

theorem sim_loop_ends:
  assumes "unsupported_for f n w v" "f v = Some (err, Some s, u)" "err \<noteq> QMI_ERR_OP_DEVICE_UNSUPPORTED"
  shows "sim_status_loop f st w = Some (s, u)"
  using assms(1)
proof (induction n arbitrary: w st)
  case 0
  then show ?case using assms(2,3) by (simp add: sim_status_loop.simps)
next
  case (Suc n)
  then obtain st' w' where "f w = Some (QMI_ERR_OP_DEVICE_UNSUPPORTED, st', w')" "unsupported_for f n w' v"
    by (auto split: option.splits)
  then show ?case using Suc.IH by (simp add: sim_status_loop.simps [of f st w])
qed

theorem sim_loop_ends_witness:
  "sim_status_loop (\<lambda>t::nat. Some (if t < 3 then 0x19 else 0, Some (if t < 3 then SIM_NOT_READY else SIM_READY), t + 1))
     SIM_ABSENT 0 = Some (SIM_READY, 4)"
  by (rule sim_loop_ends [where n = 3 and v = 3 and err = 0])
     (simp_all add: QMI_ERR_OP_DEVICE_UNSUPPORTED_def numeral_3_eq_3)

end
