(* ===== verification/Cm_Main.thy ===== *)
theory Cm_Main
  imports Main_Loop
begin

text \<open>
  The entry of \<^verbatim>\<open>quectel-CM\<close>: command line, dispatch to the protocol that fits the device, the
  hang-up of another process's call and the removal of old processes (\<^verbatim>\<open>main.c\<close> and
  \<^verbatim>\<open>getpid_by_pdp\<close> of \<^verbatim>\<open>util.c\<close> under \<^verbatim>\<open>quectel_cm_5G/src/\<close>). What is read from \<^verbatim>\<open>/proc\<close> is a
  parameter: directory entries, links and the contents of files.
\<close>

section \<open>Command line\<close>

definition CONFIG_DEFAULT_PDP :: int where "CONFIG_DEFAULT_PDP = 1"

definition proxies :: "string list" where
  "proxies = [''quectel-qmi-proxy'', ''quectel-mbim-proxy'', ''qmi-proxy'', ''mbim-proxy'', ''quectel-atc-proxy'']"

text \<open>The first character of a C string, the terminator where it is empty.\<close>

definition c_head :: "string \<Rightarrow> char" where
  "c_head s = (case s of [] \<Rightarrow> CHR 0x00 | c # _ \<Rightarrow> c)"

text \<open>\<open>has_more_argv()\<close>: the next argument and what follows it, where it is no option.\<close>

definition next_argv :: "string list \<Rightarrow> (string \<times> string list) option" where
  "next_argv as = (case as of [] \<Rightarrow> None
     | a # as' \<Rightarrow> if c_head a \<noteq> CHR ''-'' then Some (a, as') else None)"

definition digit_minus_0 :: "string \<Rightarrow> int" where
  "digit_minus_0 s = int (ord_of (c_head s)) - int (ord_of (CHR ''0''))"

definition parse_auth :: "string \<Rightarrow> int option" where
  "parse_auth s =
     (if s = ''0'' \<or> c_strcasecmp_eq s ''none'' then Some 0
      else if s = ''1'' \<or> c_strcasecmp_eq s ''pap'' then Some 1
      else if s = ''2'' \<or> c_strcasecmp_eq s ''chap'' then Some 2
      else if s = ''3'' \<or> c_strcasecmp_eq s ''MsChapV2'' then Some 3
      else None)"

text \<open>Option \<open>-s\<close>: up to four arguments; \<open>None\<close> where the usage is shown.\<close>

definition parse_s :: "string list \<Rightarrow> profile \<Rightarrow> (profile \<times> string list) option" where
  "parse_s as p =
     (let p = p\<lparr>apn := Some [], user := Some [], password := Some []\<rparr>;
          (p, as) = (case next_argv as of None \<Rightarrow> (p, as) | Some (a, r) \<Rightarrow> (p\<lparr>apn := Some a\<rparr>, r));
          (p, as) = (case next_argv as of None \<Rightarrow> (p, as) | Some (a, r) \<Rightarrow> (p\<lparr>user := Some a\<rparr>, r));
          (p, as) = (case next_argv as of None \<Rightarrow> (p, as)
            | Some (a, r) \<Rightarrow> (p\<lparr>password := Some a, auth := (if a \<noteq> [] then 2 else auth p)\<rparr>, r))
      in case next_argv as of None \<Rightarrow> Some (p, as)
         | Some (a, r) \<Rightarrow> (case parse_auth a of None \<Rightarrow> None | Some v \<Rightarrow> Some (p\<lparr>auth := v\<rparr>, r)))"

definition parse_p :: "string list \<Rightarrow> profile \<Rightarrow> (profile \<times> string list) option" where
  "parse_p as p = (case next_argv as of None \<Rightarrow> Some (p, as)
     | Some (a, r) \<Rightarrow>
         if a \<in> set proxies then Some (p\<lparr>proxy := take 31 a\<rparr>, r)
         else if 999 < c_atoi a \<and> c_atoi a < 10000 then Some (p\<lparr>pincode := Some a\<rparr>, r)
         else None)"

text \<open>An option with at most one argument.\<close>

definition with_argv :: "(string \<Rightarrow> profile \<Rightarrow> profile) \<Rightarrow> string list \<Rightarrow> profile \<Rightarrow> profile \<times> string list" where
  "with_argv f as p = (case next_argv as of None \<Rightarrow> (p, as) | Some (a, r) \<Rightarrow> (f a p, r))"

definition set_loopback :: "string \<Rightarrow> profile \<Rightarrow> profile" where
  "set_loopback a p = (let p = p\<lparr>replication_factor := c_atoi a\<rparr>
     in if replication_factor p > 0 then p\<lparr>loopback_state := 1\<rparr> else p)"

text \<open>One option. The flag is \<open>debug_qmi\<close>; \<open>None\<close> where the usage is shown.\<close>

definition parse_option :: "char \<Rightarrow> string list \<Rightarrow> bool \<Rightarrow> profile \<Rightarrow> (bool \<times> profile \<times> string list) option" where
  "parse_option c as dbg p =
     (if c = CHR ''s'' then map_option (Pair dbg) (parse_s as p)
      else if c = CHR ''p'' then map_option (Pair dbg) (parse_p as p)
      else if c = CHR ''m'' then Some (dbg, with_argv (\<lambda>a. muxid_update (\<lambda>_. digit_minus_0 a + 0x80)) as p)
      else if c = CHR ''n'' then Some (dbg, with_argv (\<lambda>a. pdp_update (\<lambda>_. digit_minus_0 a)) as p)
      else if c = CHR ''f'' then Some (dbg, with_argv (\<lambda>a. logfile_update (\<lambda>_. Some a)) as p)
      else if c = CHR ''i'' then Some (dbg, with_argv (\<lambda>a. expect_adapter_update (\<lambda>_. take 31 a)) as p)
      else if c = CHR ''v'' then Some (True, p, as)
      else if c = CHR ''l'' then Some (dbg, with_argv set_loopback as p)
      else if c = CHR ''4'' then Some (dbg, p\<lparr>enable_ipv4 := True\<rparr>, as)
      else if c = CHR ''6'' then Some (dbg, p\<lparr>enable_ipv6 := True\<rparr>, as)
      else if c = CHR ''u'' then Some (dbg, with_argv (\<lambda>a. usblogfile_update (\<lambda>_. Some a)) as p)
      else if c = CHR ''b'' then Some (dbg, p\<lparr>enable_bridge := True\<rparr>, as)
      else if c = CHR ''k'' then Some (dbg, with_argv (\<lambda>a. kill_pdp_update (\<lambda>_. digit_minus_0 a)) as p)
      else None)"

lemma next_argv_length: "next_argv as = Some (a, r) \<Longrightarrow> length r < length as"
  by (auto simp: next_argv_def split: list.splits if_splits)

lemma with_argv_length: "length (snd (with_argv f as p)) \<le> length as"
  using next_argv_length by (fastforce simp: with_argv_def split: option.split)

lemma parse_s_length: "parse_s as p = Some (p', as') \<Longrightarrow> length as' \<le> length as"
  by (auto simp: parse_s_def Let_def split: option.splits dest!: next_argv_length)

lemma parse_p_length: "parse_p as p = Some (p', as') \<Longrightarrow> length as' \<le> length as"
  by (auto simp: parse_p_def split: option.splits if_splits dest!: next_argv_length)

lemma parse_option_length: "parse_option c as dbg p = Some (dbg', p', as') \<Longrightarrow> length as' \<le> length as"
  using with_argv_length [of _ as p]
  by (auto simp: parse_option_def split: if_splits dest: parse_s_length parse_p_length) (metis snd_conv)+

function parse_loop :: "string list \<Rightarrow> bool \<Rightarrow> profile \<Rightarrow> (bool \<times> profile) option" where
  "parse_loop [] dbg p = Some (dbg, p)"
| "parse_loop (a # as) dbg p =
     (if c_head a \<noteq> CHR ''-'' then None
      else case parse_option (c_head (tl a)) as dbg p of
          None \<Rightarrow> None
        | Some (dbg', p', as') \<Rightarrow> parse_loop as' dbg' p')"
  by pat_completeness auto
termination
  by (relation "measure (\<lambda>(as, _, _). length as)") (auto dest: parse_option_length)

text \<open>\<open>argv\<close> is never empty. A last argument \<open>&\<close> is dropped. \<open>None\<close> is the result 0 of the
  function, after the usage.\<close>

definition parse_user_input :: "string list \<Rightarrow> profile \<Rightarrow> (bool \<times> profile) option" where
  "parse_user_input argv p =
     (let argv = (if last argv = ''&'' then butlast argv else argv)
      in case parse_loop (tl argv) False (p\<lparr>pdp := CONFIG_DEFAULT_PDP\<rparr>) of
           None \<Rightarrow> None
         | Some (dbg, p) \<Rightarrow>
             Some (dbg, if \<not> enable_ipv4 p \<and> \<not> enable_ipv6 p then p\<lparr>enable_ipv4 := True\<rparr> else p))"

section \<open>Dispatch\<close>


datatype backend = Backend_Mbim | Backend_Gobi | Backend_Qmiwwan | Backend_Atc

text \<open>The search for devices below \<^verbatim>\<open>/sys\<close> is a parameter: each search gets the interface wanted and
  the profile, and says whether it found one, with the channel and the interface.\<close>

type_synonym detect = "string \<Rightarrow> profile \<Rightarrow> bool \<times> string \<times> string \<times> profile"

record device_probe =
  usb_detect :: detect
  mhi_detect :: detect
  at_detect :: detect
  driver_type :: "profile \<Rightarrow> int"
  qmap_mode_detect :: "profile \<Rightarrow> profile"

definition find_device :: "device_probe \<Rightarrow> profile \<Rightarrow> profile option" where
  "find_device d p =
     (let found = (\<lambda>hw ch nic q. Some (q\<lparr>hardware_interface := hw, qmichannel := take 32 ch, usbnet_adapter := take 32 nic\<rparr>))
      in case usb_detect d (expect_adapter p) p of
           (True, ch, nic, q) \<Rightarrow> found HARDWARE_USB ch nic q
         | (False, _, nic, q) \<Rightarrow> (case mhi_detect d nic q of
             (True, ch, nic, q) \<Rightarrow> found HARDWARE_PCIE ch nic q
           | (False, _, nic, q) \<Rightarrow> (case at_detect d nic q of
               (True, ch, nic, q) \<Rightarrow> found HARDWARE_PCIE ch nic q
             | (False, _, _, q) \<Rightarrow> None)))"

definition qmidev_is_gobinet :: "string \<Rightarrow> bool" where
  "qmidev_is_gobinet ch \<longleftrightarrow> starts_with ch ''/dev/qcqmi''"

definition select_backend :: "profile \<Rightarrow> backend option" where
  "select_backend p =
     (if software_interface p = SOFTWARE_MBIM then Some Backend_Mbim
      else if software_interface p = SOFTWARE_QMI
      then Some (if qmidev_is_gobinet (qmichannel p) then Backend_Gobi else Backend_Qmiwwan)
      else if software_interface p = SOFTWARE_ECM_RNDIS_NCM then Some Backend_Atc
      else None)"

text \<open>\<open>run\<close> is \<open>qmi_main\<close> over the protocol of the backend; \<open>'s\<close> is what it keeps between runs.\<close>

definition quectel_CM :: "device_probe \<Rightarrow> (backend \<Rightarrow> profile \<Rightarrow> 's \<Rightarrow> (int \<times> profile \<times> 's) option) \<Rightarrow>
    profile \<Rightarrow> 's \<Rightarrow> (int \<times> profile \<times> 's) option" where
  "quectel_CM d run p s = (case find_device d p of None \<Rightarrow> Some (0, p, s)
     | Some p \<Rightarrow>
        (let p = (if hardware_interface p = HARDWARE_USB then p\<lparr>software_interface := driver_type d p\<rparr> else p);
             p = qmap_mode_detect d p
         in case select_backend p of None \<Rightarrow> Some (0, p, s) | Some b \<Rightarrow> run b p s))"

text \<open>The loop of \<open>main\<close>: \<open>hang\<close> reads \<open>g_donot_exit_when_modem_hangup\<close>.\<close>

partial_function (option) cm_runs :: "device_probe \<Rightarrow> (backend \<Rightarrow> profile \<Rightarrow> 's \<Rightarrow> (int \<times> profile \<times> 's) option) \<Rightarrow>
    ('s \<Rightarrow> bool) \<Rightarrow> profile \<Rightarrow> 's \<Rightarrow> (int \<times> profile \<times> 's) option" where
  "cm_runs d run hang p s = do {
     (ret, p, s) \<leftarrow> quectel_CM d run p s;
     (if hang s then cm_runs d run hang p s else Some (ret, p, s)) }"

section \<open>Other processes\<close>

definition NUL :: char where "NUL = CHR 0x00"

definition blank_nuls :: "nat \<Rightarrow> string \<Rightarrow> string" where
  "blank_nuls n buf = map (\<lambda>c. if c = NUL then CHR '' '' else c) (take n buf) @ drop n buf"

text \<open>The number in a path \<^verbatim>\<open>/proc/<n>/cmdline\<close>.\<close>

definition path_pid :: "string \<Rightarrow> int option" where
  "path_pid path = do {
     tail \<leftarrow> c_strstr path ''/cmdline'';
     (let dir = take (length path - length tail) path
      in if CHR ''/'' \<in> set dir then Some (c_atoi (rev (takeWhile (\<lambda>c. c \<noteq> CHR ''/'') (rev dir)))) else None) }"

text \<open>\<open>getpid_by_pdp\<close>: the files in the order of \<open>glob\<close>, each with its contents or \<open>None\<close> where it
  cannot be opened. The buffer of 512 bytes is not cleared between files. \<open>None\<close>: \<open>strstr\<close> runs
  past the end of a buffer without a terminator.\<close>

fun scan_cmdlines :: "string \<Rightarrow> string \<Rightarrow> (string \<times> string option) list \<Rightarrow> string \<Rightarrow> int option" where
  "scan_cmdlines prog filt [] buf = Some (-1)"
| "scan_cmdlines prog filt ((path, None) # fs) buf = Some (-1)"
| "scan_cmdlines prog filt ((path, Some data) # fs) buf =
     (let d = take 512 data;
          buf = (if d = [] then buf else blank_nuls (length d - 1) (d @ drop (length d) buf));
          text = takeWhile (\<lambda>c. c \<noteq> NUL) buf
      in if NUL \<notin> set buf then None
         else if c_strstr text prog \<noteq> None \<and> c_strstr text filt \<noteq> None then path_pid path
         else scan_cmdlines prog filt fs buf)"

definition getpid_by_pdp :: "int \<Rightarrow> string \<Rightarrow> (string \<times> string option) list option \<Rightarrow> int option" where
  "getpid_by_pdp n prog files = (case files of None \<Rightarrow> Some (-1)
     | Some fs \<Rightarrow> scan_cmdlines prog (c_snprintf 16 (''-n '' @ show_int n)) fs (replicate 512 NUL))"

definition program_base :: "string \<Rightarrow> string" where
  "program_base self = rev (takeWhile (\<lambda>c. c \<noteq> CHR ''/'') (rev self))"

text \<open>The process \<open>SIGINT\<close> is sent to, if any.\<close>

definition kill_data_call_pdp :: "int \<Rightarrow> string \<Rightarrow> (string \<times> string option) list option \<Rightarrow> int option option" where
  "kill_data_call_pdp n self files = do {
     pid \<leftarrow> getpid_by_pdp n (program_base self) files;
     Some (if pid > 0 then Some pid else None) }"

record procfs =
  pf_entries :: "string \<Rightarrow> string list option"
  pf_link :: "string \<Rightarrow> string option"
  pf_self :: int
  pf_alive :: "int \<Rightarrow> nat \<Rightarrow> bool"

text \<open>\<open>readlink\<close> into 256 bytes, then a terminator behind what it gave: \<open>None\<close> where that is
  outside the buffer.\<close>

definition MAX_PATH :: nat where "MAX_PATH = 256"

definition read_link :: "procfs \<Rightarrow> string \<Rightarrow> string option option" where
  "read_link fs name = (case pf_link fs name of None \<Rightarrow> Some None
     | Some t \<Rightarrow> (let f = take MAX_PATH t in
         if f = [] then Some None else if length f = MAX_PATH then None else Some (Some f)))"

definition is_same_linkfile :: "procfs \<Rightarrow> string \<Rightarrow> string \<Rightarrow> string \<Rightarrow> bool option" where
  "is_same_linkfile fs channel dir file = do {
     t \<leftarrow> read_link fs (c_snprintf (MAX_PATH * 2 + 6) (take 256 dir @ ''/'' @ file));
     Some (t = Some channel) }"

fun some_same_link :: "procfs \<Rightarrow> string \<Rightarrow> string \<Rightarrow> string list \<Rightarrow> bool option" where
  "some_same_link fs channel dir [] = Some False"
| "some_same_link fs channel dir (f # files) = do {
     a \<leftarrow> is_same_linkfile fs channel dir f;
     b \<leftarrow> some_same_link fs channel dir files;
     Some (a \<or> b) }"

datatype kill_signal = Kill_Term | Kill_Kill

text \<open>\<open>alive t\<close> is the outcome of the \<open>t\<close>-th \<open>kill(pid, 0)\<close>: at most 15 times \<open>SIGTERM\<close>, then
  \<open>SIGKILL\<close>. \<open>kill_timeout--\<close> is tested first, so the last question may be skipped.\<close>

fun terminate_process :: "(nat \<Rightarrow> bool) \<Rightarrow> nat \<Rightarrow> nat \<Rightarrow> kill_signal list" where
  "terminate_process alive 0 t = (if alive t then [Kill_Kill] else [])"
| "terminate_process alive (Suc n) t =
     (if alive t then Kill_Term # terminate_process alive n (t + 1)
      else if alive (t + 1) then [Kill_Kill] else [])"

definition proc_file :: "string \<Rightarrow> string \<Rightarrow> string" where
  "proc_file file name = c_snprintf (MAX_PATH * 2 + 6) (''/proc/'' @ file @ name)"

definition stop_holder :: "procfs \<Rightarrow> string \<Rightarrow> string \<Rightarrow> (bool \<times> (int \<times> kill_signal) list) option" where
  "stop_holder fs channel file = do {
     same \<leftarrow> (case pf_entries fs (proc_file file ''/fd'') of None \<Rightarrow> Some False
       | Some es \<Rightarrow> some_same_link fs channel (proc_file file ''/fd'') es);
     (let pid = c_atoi file in
      Some (if same then (True, map (Pair pid) (terminate_process (pf_alive fs pid) 15 0)) else (False, []))) }"

definition is_brother_process :: "procfs \<Rightarrow> string \<Rightarrow> string \<Rightarrow> (bool \<times> (int \<times> kill_signal) list) option" where
  "is_brother_process fs channel file =
     (if \<not> list_all c_isdigit file then Some (False, [])
      else do {
        exe \<leftarrow> read_link fs (proc_file file ''/exe'');
        (if exe = None \<or> pf_self fs \<le> c_atoi file then Some (False, []) else stop_holder fs channel file) })"

fun brothers :: "procfs \<Rightarrow> string \<Rightarrow> string list \<Rightarrow> (int \<times> kill_signal) list option" where
  "brothers fs channel [] = Some []"
| "brothers fs channel (f # files) = do {
     (_, ks) \<leftarrow> is_brother_process fs channel f;
     ks' \<leftarrow> brothers fs channel files;
     Some (ks @ ks') }"

definition kill_brothers :: "procfs \<Rightarrow> string \<Rightarrow> (int \<times> kill_signal) list option" where
  "kill_brothers fs channel = do {
     self \<leftarrow> read_link fs ''/proc/self/exe'';
     (case self of None \<Rightarrow> Some []
      | Some _ \<Rightarrow> (case pf_entries fs ''/proc'' of None \<Rightarrow> Some [] | Some es \<Rightarrow> brothers fs channel es)) }"

section \<open>Properties of the command line\<close>

lemma parse_user_input_cases:
  assumes "parse_user_input argv p = Some (dbg, q)"
  obtains q0 where "parse_loop (tl (if last argv = ''&'' then butlast argv else argv)) False
      (p\<lparr>pdp := CONFIG_DEFAULT_PDP\<rparr>) = Some (dbg, q0)"
    "q = (if \<not> enable_ipv4 q0 \<and> \<not> enable_ipv6 q0 then q0\<lparr>enable_ipv4 := True\<rparr> else q0)"
  using assms by (auto simp: parse_user_input_def Let_def split: option.splits prod.splits if_splits)

text \<open>The fields an option may not overflow and the values \<open>auth\<close> can take.\<close>

definition options_ok :: "profile \<Rightarrow> bool" where
  "options_ok p \<longleftrightarrow> length (proxy p) \<le> 31 \<and> length (expect_adapter p) \<le> 31 \<and> auth p \<in> {0, 1, 2, 3} \<and>
     (pincode p = None \<or> (\<exists>s. pincode p = Some s \<and> 999 < c_atoi s \<and> c_atoi s < 10000))"

lemma parse_auth_range: "parse_auth s = Some v \<Longrightarrow> v \<in> {0, 1, 2, 3}"
  by (auto simp: parse_auth_def split: if_splits)

lemma parse_s_ok: "parse_s as p = Some (p', as') \<Longrightarrow> options_ok p \<Longrightarrow> options_ok p'"
  by (auto simp: parse_s_def Let_def options_ok_def split: option.splits if_splits dest!: parse_auth_range)

lemma parse_p_ok: "parse_p as p = Some (p', as') \<Longrightarrow> options_ok p \<Longrightarrow> options_ok p'"
  by (auto simp: parse_p_def options_ok_def split: option.splits if_splits)

lemma with_argv_ok: "(\<And>a. options_ok (f a p)) \<Longrightarrow> options_ok p \<Longrightarrow> options_ok (fst (with_argv f as p))"
  by (auto simp: with_argv_def split: option.split)

lemma parse_option_ok:
  assumes "parse_option c as dbg p = Some (dbg', p', as')" "options_ok p"
  shows "options_ok p'"
proof -
  have f: "options_ok (muxid_update g p)" "options_ok (pdp_update g p)" "options_ok (logfile_update h p)"
    "options_ok (usblogfile_update h p)" "options_ok (kill_pdp_update g p)" "options_ok (set_loopback a p)"
    "options_ok (expect_adapter_update (\<lambda>_. take 31 a) p)" "options_ok (p\<lparr>enable_ipv4 := b\<rparr>)"
    "options_ok (p\<lparr>enable_ipv6 := b\<rparr>)" "options_ok (p\<lparr>enable_bridge := b\<rparr>)" for g h a b
    using assms(2) by (simp_all add: options_ok_def set_loopback_def Let_def)
  have w: "with_argv k as p = (p', as') \<Longrightarrow> (\<And>a. options_ok (k a p)) \<Longrightarrow> options_ok p'" for k
    using with_argv_ok [OF _ assms(2), of k as] by (metis fst_conv)
  show ?thesis
    using assms by (auto simp: parse_option_def f split: if_splits dest: parse_s_ok parse_p_ok w)
qed

lemma parse_loop_ok: "parse_loop as dbg p = Some (dbg', p') \<Longrightarrow> options_ok p \<Longrightarrow> options_ok p'"
  by (induction as dbg p rule: parse_loop.induct) (auto split: if_splits option.splits dest: parse_option_ok)

text \<open>Whatever the command line, the profile it gives has at least one address family enabled,
  the names copied into arrays fit with their terminator, the authentication is one of the four
  known, and a PIN is a number of four digits.\<close>

theorem command_line_profile:
  assumes "parse_user_input argv profile_zero = Some (dbg, q)"
  shows "(enable_ipv4 q \<or> enable_ipv6 q) \<and> length (proxy q) < 32 \<and> length (expect_adapter q) < 32 \<and>
    auth q \<in> {0, 1, 2, 3} \<and> (\<forall>s. pincode q = Some s \<longrightarrow> 1000 \<le> c_atoi s \<and> c_atoi s \<le> 9999)"
proof -
  obtain q0 where q0: "parse_loop (tl (if last argv = ''&'' then butlast argv else argv)) False
      (profile_zero\<lparr>pdp := CONFIG_DEFAULT_PDP\<rparr>) = Some (dbg, q0)"
    and q: "q = (if \<not> enable_ipv4 q0 \<and> \<not> enable_ipv6 q0 then q0\<lparr>enable_ipv4 := True\<rparr> else q0)"
    using assms by (rule parse_user_input_cases)
  have "options_ok q0"
    by (rule parse_loop_ok [OF q0]) (simp add: options_ok_def profile_zero_def)
  then show ?thesis using q by (auto simp: options_ok_def)
qed

theorem command_line_profile_witness:
  "\<exists>dbg q. parse_user_input [''cm'', ''-s'', ''net'', ''-6'', ''-p'', ''1234'', ''&''] profile_zero = Some (dbg, q) \<and>
     enable_ipv6 q \<and> apn q = Some ''net'' \<and> (\<forall>s. pincode q = Some s \<longrightarrow> 1000 \<le> c_atoi s \<and> c_atoi s \<le> 9999)"
proof -
  let ?r = "parse_user_input [''cm'', ''-s'', ''net'', ''-6'', ''-p'', ''1234'', ''&''] profile_zero"
  have "map_option (\<lambda>(_, q). (enable_ipv6 q, apn q)) ?r = Some (True, Some ''net'')" by code_simp
  then obtain dbg q where "?r = Some (dbg, q)" "enable_ipv6 q" "apn q = Some ''net''" by auto
  with command_line_profile [of _ dbg q] show ?thesis by blast
qed

text \<open>The option for the access point takes its name, the user, the password and the
  authentication in this order; a password alone means CHAP.\<close>

theorem access_point_options:
  assumes "c_head a \<noteq> CHR ''-''" "c_head u \<noteq> CHR ''-''" "c_head w \<noteq> CHR ''-''" "w \<noteq> []" "w \<noteq> ''&''"
  shows "parse_user_input [prog, ''-s'', a, u, w] profile_zero = Some (False, profile_zero\<lparr>apn := Some a,
      user := Some u, password := Some w, auth := 2, pdp := 1, enable_ipv4 := True\<rparr>) \<and>
    (parse_auth t = Some v \<longrightarrow> c_head t \<noteq> CHR ''-'' \<longrightarrow>
      parse_user_input [prog, ''-s'', a, u, w, t] profile_zero = Some (False, profile_zero\<lparr>apn := Some a,
        user := Some u, password := Some w, auth := v, pdp := 1, enable_ipv4 := True\<rparr>))"
proof -
  have h: "c_head ''-s'' = CHR ''-''" "c_head ''s'' = CHR ''s''" by (simp_all add: c_head_def)
  have o: "parse_option CHR ''s'' as d p = map_option (Pair d) (parse_s as p)" for as d p
    by (simp add: parse_option_def)
  have e: "\<not> enable_ipv4 profile_zero" "\<not> enable_ipv6 profile_zero" by (simp_all add: profile_zero_def)
  have amp: "parse_auth t = Some v \<Longrightarrow> t \<noteq> ''&''" by (auto simp: parse_auth_def c_strcasecmp_eq_def)
  have s0: "parse_s [a, u, w] p = Some (p\<lparr>apn := Some a, user := Some u, password := Some w, auth := 2\<rparr>, [])" for p
    using assms by (simp add: parse_s_def next_argv_def)
  have s1: "parse_s [a, u, w, t] p = Some (p\<lparr>apn := Some a, user := Some u, password := Some w, auth := v\<rparr>, [])"
    if "parse_auth t = Some v" "c_head t \<noteq> CHR ''-''" for p
    using assms that by (simp add: parse_s_def next_argv_def)
  have "parse_user_input [prog, ''-s'', a, u, w] profile_zero = Some (False, profile_zero\<lparr>apn := Some a,
      user := Some u, password := Some w, auth := 2, pdp := 1, enable_ipv4 := True\<rparr>)"
    using assms(5) by (simp add: parse_user_input_def h o s0 CONFIG_DEFAULT_PDP_def e)
  moreover have "parse_user_input [prog, ''-s'', a, u, w, t] profile_zero = Some (False, profile_zero\<lparr>apn := Some a,
        user := Some u, password := Some w, auth := v, pdp := 1, enable_ipv4 := True\<rparr>)"
    if "parse_auth t = Some v" "c_head t \<noteq> CHR ''-''"
    using amp [OF that(1)] by (simp add: parse_user_input_def h o s1 [OF that] CONFIG_DEFAULT_PDP_def e)
  ultimately show ?thesis by blast
qed

theorem access_point_options_witness:
  "parse_user_input [''cm'', ''-s'', ''net'', ''me'', ''pw'', ''PAP''] profile_zero = Some (False, profile_zero\<lparr>apn := Some ''net'',
        user := Some ''me'', password := Some ''pw'', auth := 1, pdp := 1, enable_ipv4 := True\<rparr>)"
proof -
  have "c_head ''net'' \<noteq> CHR ''-''" "c_head ''me'' \<noteq> CHR ''-''" "c_head ''pw'' \<noteq> CHR ''-''" "c_head ''PAP'' \<noteq> CHR ''-''"
    by (simp_all add: c_head_def)
  moreover have "parse_auth ''PAP'' = Some 1" by code_simp
  ultimately show ?thesis
    using access_point_options [of "''net''" "''me''" "''pw''" "''cm''" "''PAP''" 1] by simp
qed

section \<open>Properties of the removal of old processes\<close>

lemma some_same_link_member:
  "some_same_link fs ch dir es = Some True \<Longrightarrow> \<exists>e \<in> set es. is_same_linkfile fs ch dir e = Some True"
  by (induction es) (auto simp: bind_eq_Some_conv)

definition holds_channel :: "procfs \<Rightarrow> string \<Rightarrow> int \<Rightarrow> bool" where
  "holds_channel fs ch pid \<longleftrightarrow> (\<exists>file es e. c_atoi file = pid \<and> list_all c_isdigit file \<and>
     pf_entries fs (proc_file file ''/fd'') = Some es \<and> e \<in> set es \<and>
     is_same_linkfile fs ch (proc_file file ''/fd'') e = Some True)"

lemma terminate_process_length: "length (terminate_process alive n t) \<le> n + 1"
  by (induction alive n t rule: terminate_process.induct) auto

lemma brother_signals:
  assumes "is_brother_process fs ch file = Some (b, ks)" "(pid, s) \<in> set ks"
  shows "pid < pf_self fs \<and> holds_channel fs ch pid"
proof -
  have d: "list_all c_isdigit file" "c_atoi file < pf_self fs" "stop_holder fs ch file = Some (b, ks)"
    using assms by (auto simp: is_brother_process_def bind_eq_Some_conv split: if_splits)
  then obtain es where "pf_entries fs (proc_file file ''/fd'') = Some es"
    "some_same_link fs ch (proc_file file ''/fd'') es = Some True" "pid = c_atoi file"
    using assms(2) by (auto simp: stop_holder_def Let_def bind_eq_Some_conv split: if_splits option.splits)
  then show ?thesis using d some_same_link_member unfolding holds_channel_def by blast
qed

lemma brothers_signals:
  "brothers fs ch files = Some ks \<Longrightarrow> (pid, s) \<in> set ks \<Longrightarrow> pid < pf_self fs \<and> holds_channel fs ch pid"
proof (induction files arbitrary: ks)
  case (Cons f files)
  from Cons.prems(1) obtain b k1 k2 where "is_brother_process fs ch f = Some (b, k1)"
    "brothers fs ch files = Some k2" "ks = k1 @ k2" by (auto simp: bind_eq_Some_conv)
  then show ?case using Cons.IH Cons.prems(2) brother_signals by auto
qed simp

text \<open>At start-up only older processes that hold an open descriptor on the channel of this
  process are signalled.\<close>

theorem only_holders_are_killed:
  assumes "kill_brothers fs ch = Some ks" "(pid, s) \<in> set ks"
  shows "pid < pf_self fs \<and> holds_channel fs ch pid"
  using assms by (auto simp: kill_brothers_def bind_eq_Some_conv split: option.splits dest: brothers_signals)

definition example_procfs :: procfs where
  "example_procfs = \<lparr>
     pf_entries = (\<lambda>d. if d = ''/proc'' then Some [''1'', ''self'', ''99''] else if d = ''/proc/1/fd'' then Some [''0'', ''3''] else None),
     pf_link = (\<lambda>l. if l = ''/proc/1/fd/3'' then Some ''/dev/q'' else Some ''/x''),
     pf_self = 50, pf_alive = (\<lambda>pid t. t < 2)\<rparr>"

theorem only_holders_are_killed_witness:
  "kill_brothers example_procfs ''/dev/q'' = Some [(1, Kill_Term), (1, Kill_Term)] \<and> holds_channel example_procfs ''/dev/q'' 1"
proof -
  have k: "kill_brothers example_procfs ''/dev/q'' = Some [(1, Kill_Term), (1, Kill_Term)]" by code_simp
  from only_holders_are_killed [OF k, of 1 Kill_Term] k show ?thesis by simp
qed

text \<open>A link of 256 characters or more, which the kernel allows, makes the comparison write its
  terminator behind the array.\<close>

theorem long_link_overflows:
  assumes "pf_link fs (c_snprintf (MAX_PATH * 2 + 6) (take 256 dir @ ''/'' @ file)) = Some t" "256 \<le> length t"
  shows "is_same_linkfile fs ch dir file = None"
  using assms unfolding is_same_linkfile_def read_link_def MAX_PATH_def Let_def by auto

theorem long_link_overflows_witness:
  "is_same_linkfile (example_procfs\<lparr>pf_link := \<lambda>l. Some (replicate 300 CHR ''a'')\<rparr>) ''/dev/q'' ''/proc/1/fd'' ''3'' = None"
  by (rule long_link_overflows [where t = "replicate 300 CHR ''a''"]) simp_all

end
