(* ===== verification/Qmi_Msg.thy ===== *)
theory Qmi_Msg
  imports Profile
begin

text \<open>
  QMI messages (\<^verbatim>\<open>MPQMI.h\<close> and \<^verbatim>\<open>MPQMUX.h\<close>) and the functions of \<^verbatim>\<open>QMIThread.c\<close> that build a
  request and look for a field (TLV) of a response. A message is its bytes: \<open>IFType\<close>, \<open>Length\<close>,
  \<open>CtlFlags\<close>, \<open>QMIType\<close>, \<open>ClientId\<close> at 0, 1, 3, 4, 5; \<open>CtlFlags\<close> and \<open>TransactionId\<close> at 6 and 7;
  \<open>Type\<close> and \<open>Length\<close> of the QMUX message at 9 and 11; TLVs from 13. \<open>None\<close> is an access outside
  the memory of a message or of the 256 byte buffer for requests.
\<close>

section \<open>Constants\<close>

definition QMUX_TYPE_CTL :: byte where "QMUX_TYPE_CTL = 0x00"
definition QMUX_TYPE_WDS :: byte where "QMUX_TYPE_WDS = 0x01"
definition QMUX_TYPE_DMS :: byte where "QMUX_TYPE_DMS = 0x02"
definition QMUX_TYPE_NAS :: byte where "QMUX_TYPE_NAS = 0x03"
definition QMUX_TYPE_UIM :: byte where "QMUX_TYPE_UIM = 0x0B"
definition QMUX_TYPE_WDS_IPV6 :: byte where "QMUX_TYPE_WDS_IPV6 = 0x11"
definition QMUX_TYPE_WDS_ADMIN :: byte where "QMUX_TYPE_WDS_ADMIN = 0x1A"

definition WDM_DEFAULT_BUFSIZE :: nat where "WDM_DEFAULT_BUFSIZE = 256"

definition MSG_TLVS :: nat where "MSG_TLVS = 13"

section \<open>Fields of a message\<close>

definition qmi_length :: "bytes \<Rightarrow> u16 option" where "qmi_length m = rd16 m 1"
definition qmi_type :: "bytes \<Rightarrow> byte option" where "qmi_type m = rd8 m 4"
definition qmi_client :: "bytes \<Rightarrow> byte option" where "qmi_client m = rd8 m 5"
definition mux_tid :: "bytes \<Rightarrow> u16 option" where "mux_tid m = rd16 m 7"
definition ctl_tid :: "bytes \<Rightarrow> byte option" where "ctl_tid m = rd8 m 7"
definition ctl_type :: "bytes \<Rightarrow> u16 option" where "ctl_type m = rd16 m 8"
definition mux_type :: "bytes \<Rightarrow> u16 option" where "mux_type m = rd16 m 9"
definition mux_length :: "bytes \<Rightarrow> u16 option" where "mux_length m = rd16 m 11"
definition mux_result :: "bytes \<Rightarrow> u16 option" where "mux_result m = rd16 m 16"
definition mux_error :: "bytes \<Rightarrow> u16 option" where "mux_error m = rd16 m 18"

lemma rd16_in: "rd16 m i = Some w \<Longrightarrow> i + 1 < length m"
  by (auto simp: rd16_def bind_eq_Some_conv rd8_Some)

text \<open>The loop of \<open>GetTLV\<close>: \<open>Length\<close> is a \<open>USHORT\<close> that may wrap below zero, \<open>pos\<close> the place of
  the TLV and \<open>passed\<close> the number of those passed.\<close>

function get_tlv_loop :: "bytes \<Rightarrow> nat \<Rightarrow> u16 \<Rightarrow> nat \<Rightarrow> nat \<Rightarrow> nat option option" where
  "get_tlv_loop m ty len pos passed =
     (if unat len < 3 then Some None
      else if ty > 0x1000 \<and> passed + 1 + 0x1000 = ty then Some (Some pos)
      else do {
        hit \<leftarrow> (if ty > 0x1000 then Some False else do { t \<leftarrow> rd8 m pos; Some (unat t = ty) });
        (if hit then Some (Some pos)
         else case rd16 m (pos + 1) of None \<Rightarrow> None
           | Some l \<Rightarrow> get_tlv_loop m ty (len - (l + 3)) (pos + unat l + 3) (passed + 1)) })"
  by pat_completeness auto
termination
  by (relation "measure (\<lambda>(m, _, _, pos, _). length m - pos)") (auto dest: rd16_in)

declare get_tlv_loop.simps [simp del]

definition GetTLV :: "bytes \<Rightarrow> nat \<Rightarrow> nat option option" where
  "GetTLV m ty = do { len \<leftarrow> mux_length m; get_tlv_loop m ty len MSG_TLVS 0 }"

text \<open>The value of a TLV at \<open>pos\<close>, from its byte \<open>i\<close> on.\<close>

definition tlv_len :: "bytes \<Rightarrow> nat \<Rightarrow> u16 option" where "tlv_len m pos = rd16 m (pos + 1)"
definition tlv8 :: "bytes \<Rightarrow> nat \<Rightarrow> nat \<Rightarrow> byte option" where "tlv8 m pos i = rd8 m (pos + 3 + i)"
definition tlv16 :: "bytes \<Rightarrow> nat \<Rightarrow> nat \<Rightarrow> u16 option" where "tlv16 m pos i = rd16 m (pos + 3 + i)"
definition tlv32 :: "bytes \<Rightarrow> nat \<Rightarrow> nat \<Rightarrow> u32 option" where "tlv32 m pos i = rd32 m (pos + 3 + i)"
definition tlvn :: "bytes \<Rightarrow> nat \<Rightarrow> nat \<Rightarrow> nat \<Rightarrow> bytes option" where "tlvn m pos i n = rdn m (pos + 3 + i) n"

section \<open>Building a request\<close>

definition tlv :: "byte \<Rightarrow> bytes \<Rightarrow> bytes" where
  "tlv t v = t # le16 (of_nat (length v)) @ v"

definition str_bytes :: "string \<Rightarrow> bytes" where
  "str_bytes s = map (\<lambda>c. of_nat (ord_of c)) s"

text \<open>What the function for the body leaves behind the message header: the bytes that count, and
  how far it wrote (the terminator of a string may go one further).\<close>

type_synonym qmi_body = "bytes \<times> nat"

definition body :: "bytes \<Rightarrow> qmi_body" where "body b = (b, length b)"

definition next_tid :: "nat \<Rightarrow> nat" where
  "next_tid t = (if t + 1 > 0xFFFF then 1 else t + 1)"

definition qmi_head :: "byte \<Rightarrow> byte \<Rightarrow> byte \<Rightarrow> nat \<Rightarrow> u16 \<Rightarrow> nat \<Rightarrow> bytes" where
  "qmi_head qtype client flags tid ty len =
     [0x01] @ le16 (of_nat (12 + len)) @ [0x00, qtype, client] @
     [flags] @ le16 (of_nat tid) @ le16 ty @ le16 (of_nat len)"

definition qmi_frame :: "byte \<Rightarrow> byte \<Rightarrow> byte \<Rightarrow> nat \<Rightarrow> u16 \<Rightarrow> bytes \<Rightarrow> bytes" where
  "qmi_frame qtype client flags tid ty tlvs = qmi_head qtype client flags tid ty (length tlvs) @ tlvs"

definition ComposeQMUXMsg :: "byte \<Rightarrow> u16 \<Rightarrow> nat \<Rightarrow> qmi_body \<Rightarrow> bytes option" where
  "ComposeQMUXMsg qtype ty tid b = (case b of (tlvs, written) \<Rightarrow>
     if MSG_TLVS + max (length tlvs) written > WDM_DEFAULT_BUFSIZE then None
     else Some (qmi_frame qtype 0 0 tid ty tlvs))"

text \<open>The request to start a call. \<open>cdma\<close> and \<open>hdr\<close> are \<open>s_is_cdma\<close> and \<open>s_hdr_personality\<close>; the
  branch for \<open>hdr = 2\<close> is inside one that needs \<open>cdma\<close> false, so it is never taken.\<close>

definition start_nw_login :: "bool \<Rightarrow> profile \<Rightarrow> string option \<times> string option \<times> int" where
  "start_nw_login cdma p =
     (if cdma \<and> str_or_empty (user p) = [] \<and> str_or_empty (password p) = []
      then (Some ''ctnet@mycdma.cn'', Some ''vnet.mobi'', 2)
      else (user p, password p, auth p))"

definition opt_tlv :: "byte \<Rightarrow> string option \<Rightarrow> bytes" where
  "opt_tlv t s = (case s of None \<Rightarrow> [] | Some s \<Rightarrow> tlv t (str_bytes s))"

definition byte_of_int :: "int \<Rightarrow> byte" where "byte_of_int i = word_of_int i"

definition WdsStartNwInterfaceReq :: "bool \<Rightarrow> int \<Rightarrow> profile \<Rightarrow> qmi_body" where
  "WdsStartNwInterfaceReq cdma hdr p = (case start_nw_login cdma p of (u, w, au) \<Rightarrow>
     body (tlv 0x30 [if cdma then 0x02 else 0x01] @
       (if \<not> cdma then opt_tlv 0x14 (apn p) else []) @
       opt_tlv 0x17 u @ opt_tlv 0x18 w @
       (if u \<noteq> None \<and> w \<noteq> None then tlv 0x16 [byte_of_int au] else []) @
       tlv 0x19 [byte_of_int (curIpFamily p)] @
       (if pdp p \<noteq> 0 \<and> \<not> cdma
        then (if cdma \<and> hdr = 2 then tlv 0x32 [101] else tlv 0x31 [byte_of_int (pdp p)]) else [])))"

definition WdsStopNwInterfaceReq :: "u32 \<Rightarrow> qmi_body" where
  "WdsStopNwInterfaceReq handle = body (tlv 0x01 (le32 handle))"

definition WdsSetClientIPFamilyPref :: "byte \<Rightarrow> qmi_body" where
  "WdsSetClientIPFamilyPref fam = body (tlv 0x01 [fam])"

definition WdsSetAutoConnect :: "byte \<Rightarrow> qmi_body" where
  "WdsSetAutoConnect s = body (tlv 0x01 [s])"

record qmap_setting =
  rx_urb_size :: u32
  ep_type :: u32
  iface_id :: u32
  MuxId :: u32
  ul_max_datagrams :: u32
  ul_max_size :: u32
  dl_minimum_padding :: u32

definition WdsSetQMUXBindMuxDataPort :: "qmap_setting \<Rightarrow> qmi_body" where
  "WdsSetQMUXBindMuxDataPort s = body (tlv 0x10 (le32 (ep_type s) @ le32 (iface_id s)) @
     tlv 0x11 [ucast (MuxId s)] @ tlv 0x13 (le32 1))"

definition WdaSetDataFormat :: "u32 \<Rightarrow> qmap_setting \<Rightarrow> qmi_body" where
  "WdaSetDataFormat version s = body
     (if rx_urb_size s = 0 then tlv 0x10 [0] @ tlv 0x11 (le32 0x01) @ tlv 0x13 (le32 0x00)
      else tlv 0x10 [0] @ tlv 0x11 (le32 0x02) @ tlv 0x12 (le32 version) @ tlv 0x13 (le32 version) @
        tlv 0x15 (le32 (rx_urb_size s div 512)) @ tlv 0x16 (le32 (rx_urb_size s)) @
        tlv 0x17 (le32 (ep_type s) @ le32 (iface_id s)) @
        (if ul_max_datagrams s = 0 then []
         else tlv 0x19 (le32 (dl_minimum_padding s)) @ tlv 0x1B (le32 (ul_max_datagrams s)) @
           tlv 0x1C (le32 (ul_max_size s))))"

definition DmsUIMVerifyPinReqSend :: "string \<Rightarrow> qmi_body" where
  "DmsUIMVerifyPinReqSend pin =
     (let b = tlv 0x01 ([0x01, of_nat (length pin)] @ str_bytes pin) in (b, length b + 1))"

definition UimVerifyPinReqSend :: "string \<Rightarrow> qmi_body" where
  "UimVerifyPinReqSend pin =
     (let b = tlv 0x01 [0x00, 0x00] @ tlv 0x02 ([0x01, of_nat (length pin)] @ str_bytes pin) in (b, length b + 1))"

definition WdsCreateProfileSettingsReqSend :: "profile \<Rightarrow> qmi_body" where
  "WdsCreateProfileSettingsReqSend p = body (tlv 0x01 [0x00] @ tlv 0x25 [byte_of_int (pdp p)])"

definition WdsGetProfileSettingsReqSend :: "profile \<Rightarrow> qmi_body" where
  "WdsGetProfileSettingsReqSend p = body (tlv 0x01 [0x00, byte_of_int (pdp p)])"

definition WdsModifyProfileSettingsReq :: "profile \<Rightarrow> qmi_body" where
  "WdsModifyProfileSettingsReq p =
     (let b = tlv 0x01 [0x00, byte_of_int (pdp p)] @ tlv 0x11 [byte_of_int (iptype p)] @
            opt_tlv 0x14 (apn p) @ opt_tlv 0x1B (user p) @ opt_tlv 0x1C (password p);
          both = (user p \<noteq> None \<and> password p \<noteq> None)
      in if both then body (b @ tlv 0x1D [byte_of_int (auth p)])
         else (b, length b + (if apn p \<noteq> None \<or> user p \<noteq> None \<or> password p \<noteq> None then 1 else 0)))"

text \<open>The parts for the call session control functions are joined after the conversion to little
  endian.\<close>

definition WdsGetRuntimeSettingReq :: qmi_body where
  "WdsGetRuntimeSettingReq = body (tlv 0x10 (le32 ((push_bit 4 1 OR push_bit 8 1 OR push_bit 13 1 OR push_bit 9 1) OR push_bit 11 1 OR push_bit 14 1)))"

definition DmsSetOperatingModeReq :: "byte \<Rightarrow> qmi_body" where
  "DmsSetOperatingModeReq mode = body (tlv 0x01 [mode])"

definition UimSetCardSlotReq :: "byte \<Rightarrow> qmi_body" where
  "UimSetCardSlotReq slot = body (tlv 0x01 [slot])"

text \<open>With the values \<open>requestSetLoopBackState\<close> stores afterwards: the factor is cut to 16 bits.\<close>

definition WdaSetLoopBackReq :: "byte \<Rightarrow> u32 \<Rightarrow> qmi_body" where
  "WdaSetLoopBackReq st factor = body (tlv 0x01 [st] @ tlv 0x10 (le32 (ucast (ucast factor :: u16))))"

section \<open>What a search for a TLV finds\<close>

definition tlv_bytes :: "(byte \<times> bytes) list \<Rightarrow> bytes" where
  "tlv_bytes ts = concat (map (\<lambda>(t, v). tlv t v) ts)"

lemma tlv_bytes_simps [simp]:
  "tlv_bytes [] = []" "tlv_bytes ((t, v) # ts) = tlv t v @ tlv_bytes ts"
  by (simp_all add: tlv_bytes_def)

lemma length_tlv [simp]: "length (tlv t v) = 3 + length v"
  by (simp add: tlv_def)

definition get_value :: "bytes \<Rightarrow> byte \<Rightarrow> bytes option option" where
  "get_value m t = do {
     p \<leftarrow> GetTLV m (unat t);
     (case p of None \<Rightarrow> Some None
      | Some pos \<Rightarrow> do { l \<leftarrow> tlv_len m pos; v \<leftarrow> tlvn m pos 0 (unat l); Some (Some v) }) }"

lemma rd16_at: "i = length xs \<Longrightarrow> rd16 (xs @ le16 w @ ys) i = Some w"
  using rd16_append [of xs "le16 w @ ys" 0] by (simp add: rd16_le16)

lemma rd8_at: "i = length xs \<Longrightarrow> rd8 (xs @ b # ys) i = Some b"
  by (simp add: rd8_def)

lemma rdn_at: "i = length xs \<Longrightarrow> n = length v \<Longrightarrow> rdn (xs @ v @ ys) i n = Some v"
  by (simp add: rdn_def)

lemma tlv_at:
  assumes "pos = length xs"
  shows "rd8 (xs @ tlv t v @ ys) pos = Some t"
    "length v < 65536 \<Longrightarrow> rd16 (xs @ tlv t v @ ys) (pos + 1) = Some (of_nat (length v))"
    "rdn (xs @ tlv t v @ ys) (pos + 3) (length v) = Some v"
  using rd8_at [of pos xs t] rd16_at [of "pos + 1" "xs @ [t]" "of_nat (length v)" "v @ ys"]
    rdn_at [of "pos + 3" "xs @ t # le16 (of_nat (length v))" "length v" v ys] assms
  by (simp_all add: tlv_def)

lemma unat_u16_of_nat: "n < 65536 \<Longrightarrow> unat (of_nat n :: u16) = n"
  by (simp add: unsigned_of_nat take_bit_nat_eq_self)

lemma u16_diff: "m \<le> n \<Longrightarrow> (of_nat n :: u16) - of_nat m = of_nat (n - m)"
  by simp

lemma get_tlv_loop_value:
  assumes "length xs + length (tlv_bytes ts) = n" "length (tlv_bytes ts) < 65536"
  shows "do { p \<leftarrow> get_tlv_loop (xs @ tlv_bytes ts) (unat t) (of_nat (length (tlv_bytes ts))) (length xs) k;
     (case p of None \<Rightarrow> Some None
      | Some pos \<Rightarrow> do { l \<leftarrow> tlv_len (xs @ tlv_bytes ts) pos; v \<leftarrow> tlvn (xs @ tlv_bytes ts) pos 0 (unat l); Some (Some v) }) }
   = Some (map_of ts t)"
  using assms
proof (induction ts arbitrary: xs k)
  case Nil
  then show ?case by (simp add: get_tlv_loop.simps)
next
  case (Cons a ts)
  obtain t' v where a: "a = (t', v)" by (cases a)
  have lt: "3 + length v + length (tlv_bytes ts) < 65536" using Cons.prems(2) a by simp
  have small: "\<not> 4096 < unat t" using unat_byte_lt [of t] by simp
  have at: "rd8 (xs @ tlv t' v @ tlv_bytes ts) (length xs) = Some t'"
      "rd16 (xs @ tlv t' v @ tlv_bytes ts) (length xs + 1) = Some (of_nat (length v))"
      "rdn (xs @ tlv t' v @ tlv_bytes ts) (length xs + 3) (length v) = Some v"
    using tlv_at [OF refl, where xs = xs] lt by simp_all
  have len: "unat (of_nat (length (tlv_bytes (a # ts))) :: u16) = 3 + length v + length (tlv_bytes ts)"
      "unat (of_nat (length v) :: u16) = length v"
    using unat_u16_of_nat [of "3 + length v + length (tlv_bytes ts)"] unat_u16_of_nat [of "length v"] lt a by simp_all
  have rest: "(of_nat (length (tlv_bytes (a # ts))) :: u16) - (of_nat (length v) + 3) = of_nat (length (tlv_bytes ts))"
    using a by simp
  show ?case
  proof (cases "t' = t")
    case True
    then show ?thesis using at len small
      by (subst get_tlv_loop.simps) (simp add: a tlv_len_def tlvn_def)
  next
    case False
    then have "unat t' \<noteq> unat t" by (simp add: word_unat_eq_iff)
    then have "get_tlv_loop (xs @ tlv_bytes (a # ts)) (unat t) (of_nat (length (tlv_bytes (a # ts)))) (length xs) k
        = get_tlv_loop ((xs @ tlv t' v) @ tlv_bytes ts) (unat t) (of_nat (length (tlv_bytes ts))) (length (xs @ tlv t' v)) (k + 1)"
      using at len small rest
      by (subst get_tlv_loop.simps) (simp add: a add.commute add.left_commute)
    with Cons.IH [of "xs @ tlv t' v" "k + 1"] Cons.prems a False False [symmetric] show ?thesis by simp
  qed
qed

lemma length_head [simp]: "length (qmi_head q c f tid ty n) = 13"
  by (simp add: qmi_head_def)

lemma head_fields [simp]:
  "qmi_length (qmi_head q c f tid ty n @ ys) = Some (of_nat (12 + n))"
  "qmi_type (qmi_head q c f tid ty n @ ys) = Some q"
  "qmi_client (qmi_head q c f tid ty n @ ys) = Some c"
  "mux_tid (qmi_head q c f tid ty n @ ys) = Some (of_nat tid)"
  "mux_type (qmi_head q c f tid ty n @ ys) = Some ty"
  "mux_length (qmi_head q c f tid ty n @ ys) = Some (of_nat n)"
  by (simp_all add: qmi_head_def qmi_length_def qmi_type_def qmi_client_def mux_tid_def mux_type_def mux_length_def
    rd16_def rd8_def le16_def le_simps del: of_nat_add)

text \<open>Property C11: the search for a TLV reads back what was put into a message. In a message whose body
  is a list of TLVs, shorter than 65536 bytes together, the value at the place \<open>GetTLV\<close> returns is
  that of the first TLV with the type asked for, and \<open>NULL\<close> comes back only if there is none.
\<close>

theorem tlv_read_back:
  assumes "length (tlv_bytes ts) < 65536"
  shows "get_value (qmi_frame q c f tid ty (tlv_bytes ts)) t = Some (map_of ts t)"
  using get_tlv_loop_value [OF refl assms, of "qmi_head q c f tid ty (length (tlv_bytes ts))" t 0]
  by (simp add: get_value_def GetTLV_def qmi_frame_def MSG_TLVS_def)

theorem tlv_read_back_witness:
  "get_value (qmi_frame 1 2 0x80 5 0x22 (tlv_bytes [(1, [2]), (0x10, [7, 8]), (0x10, [9])])) 0x10 = Some (Some [7, 8])"
  by (subst tlv_read_back) simp_all

text \<open>\<open>GetTLV\<close> trusts the lengths inside a message. If a TLV of another type claims more
  bytes than the message has left, the \<open>USHORT\<close> that counts the rest wraps, and the search goes on
  outside the message.
\<close>

theorem tlv_length_wraps:
  assumes "t' \<noteq> t" "length v < 65533" "length v < unat l" "unat l \<le> 65532 + length v"
  shows "GetTLV (qmi_frame q c f tid ty (t' # le16 l @ v)) (unat t) = None"
proof -
  let ?m = "qmi_head q c f tid ty (3 + length v) @ t' # le16 l @ v"
  have small: "\<not> 4096 < unat t" using unat_byte_lt [of t] by simp
  have n: "unat (of_nat (3 + length v) :: u16) = 3 + length v" using assms by (intro unat_u16_of_nat) simp
  have at: "rd8 ?m 13 = Some t'" "rd16 ?m 14 = Some l"
    using rd8_at [of 13 "qmi_head q c f tid ty (3 + length v)"] rd16_at [of 14 "qmi_head q c f tid ty (3 + length v) @ [t']" l v]
    by simp_all
  have wrapped: "unat ((of_nat (3 + length v) :: u16) - (l + 3)) = 65536 + length v - unat l"
  proof -
    have "unat ((of_nat (length v) :: u16) - l) = 65536 + unat (of_nat (length v) :: u16) - unat l"
      using assms by (subst unat_sub_if_size) (simp add: word_size unat_u16_of_nat)
    then show ?thesis using assms by (simp add: unat_u16_of_nat)
  qed
  have out: "get_tlv_loop ?m (unat t) (of_nat (3 + length v) - (l + 3)) (13 + unat l + 3) 1 = None"
    using assms small by (subst get_tlv_loop.simps) (simp add: wrapped [simplified] rd8_def)
  have frame: "qmi_frame q c f tid ty (t' # le16 l @ v) = ?m"
    by (simp add: qmi_frame_def numeral_3_eq_3)
  have "get_tlv_loop ?m (unat t) (of_nat (3 + length v)) 13 0 = None"
    using assms(1) small at n out
    by (subst get_tlv_loop.simps) (simp add: word_unat_eq_iff del: of_nat_add)
  then show ?thesis
    by (simp only: GetTLV_def frame head_fields MSG_TLVS_def bind.bind_lunit)
qed

theorem tlv_length_wraps_witness:
  "GetTLV (qmi_frame 3 2 0x80 5 0x24 (0x01 # le16 9 @ [7, 8])) (unat (0x10 :: byte)) = None"
  by (rule tlv_length_wraps) simp_all

section \<open>Requests fit the buffer\<close>

lemma composed: "ComposeQMUXMsg q ty tid (b, n) = Some m \<longleftrightarrow>
    13 + max (length b) n \<le> 256 \<and> m = qmi_frame q 0 0 tid ty b"
  by (auto simp: ComposeQMUXMsg_def MSG_TLVS_def WDM_DEFAULT_BUFSIZE_def)

lemma composed_fields:
  assumes "ComposeQMUXMsg q ty tid b = Some m"
  shows "length m \<le> 256" "13 \<le> length m" "qmi_length m = Some (of_nat (length m - 1))"
    "mux_length m = Some (of_nat (length m - 13))" "qmi_type m = Some q" "qmi_client m = Some 0"
    "mux_type m = Some ty" "mux_tid m = Some (of_nat tid)"
  using assms by (cases b; auto simp: composed qmi_frame_def)+

text \<open>The names and the password a user gives may overflow the buffer of the request that
  starts a call. With access point, user and password present (and no CDMA modem) the request for a
  profile is written inside the 256 bytes of \<open>QMIBuf\<close> exactly when the three have 218 bytes or
  fewer together; nothing in the code checks this. A request that fits states its own length.
\<close>

theorem start_request_overflow:
  assumes "apn p = Some a" "user p = Some u" "password p = Some w" "pdp p \<noteq> 0"
  shows "case ComposeQMUXMsg QMUX_TYPE_WDS 0x20 tid (WdsStartNwInterfaceReq False hdr p) of
      None \<Rightarrow> 218 < length a + length u + length w
    | Some m \<Rightarrow> length a + length u + length w \<le> 218 \<and> qmi_length m = Some (of_nat (length m - 1))"
proof -
  have "length (fst (WdsStartNwInterfaceReq False hdr p)) = 25 + (length a + length u + length w)"
      "snd (WdsStartNwInterfaceReq False hdr p) = length (fst (WdsStartNwInterfaceReq False hdr p))"
    using assms by (simp_all add: WdsStartNwInterfaceReq_def start_nw_login_def opt_tlv_def str_bytes_def body_def)
  then show ?thesis
    using composed_fields(3) [where b = "WdsStartNwInterfaceReq False hdr p"]
    by (auto simp: ComposeQMUXMsg_def MSG_TLVS_def WDM_DEFAULT_BUFSIZE_def split: option.split prod.splits if_splits)
qed

theorem start_request_overflow_witness:
  "ComposeQMUXMsg QMUX_TYPE_WDS 0x20 7 (WdsStartNwInterfaceReq False 0
     (profile_zero\<lparr>apn := Some (replicate 200 CHR ''a''), user := Some (replicate 10 CHR ''u''),
       password := Some (replicate 9 CHR ''w''), pdp := 1\<rparr>)) = None"
  using start_request_overflow [of "profile_zero\<lparr>apn := Some (replicate 200 CHR ''a''), user := Some (replicate 10 CHR ''u''),
       password := Some (replicate 9 CHR ''w''), pdp := 1\<rparr>" "replicate 200 CHR ''a''" "replicate 10 CHR ''u''" "replicate 9 CHR ''w''" 7 0]
  by (simp only: profile.simps length_replicate) (simp split: option.splits)

end
