(* ===== verification/Qmi_Link.thy ===== *)
theory Qmi_Link
  imports Qmi_Msg Request_Ops
begin

text \<open>
  The exchange of QMI messages: \<open>QmiThreadSendQMITimeout\<close> and \<open>QmiThreadRecvQMI\<close> of
  \<^verbatim>\<open>quectel_cm_5G/src/QMIThread.c\<close>, and \<^verbatim>\<open>QmiWwanCM.c\<close>, which carries them over the control device
  of the driver \<open>qmi_wwan\<close>. The state \<open>qmi\<close> holds the static variables of both files and what the
  environment will do: a list of turns, one per request sent. \<open>None\<close> is an access outside a
  message.
\<close>

section \<open>State\<close>

text \<open>What the thread that reads the device meets: a read from the device, nothing for the time
  \<open>poll\<close> waits, a hang-up, or a word from the main thread.\<close>

datatype wwan_event = Ev_Read bytes | Ev_Idle | Ev_Hup | Ev_Quit | Ev_Stop

text \<open>The outcome of a send: \<open>poll\<close> finds the device writable and \<open>write\<close> returns a number, or
  \<open>poll\<close> returns a number without that.\<close>

datatype send_io = Writes int | Not_Writable int

text \<open>A turn: what is read before the request is sent, the send, and what is read until the answer
  or the time limit.\<close>

record turn =
  turn_before :: "wwan_event list"
  turn_io :: send_io
  turn_after :: "wwan_event list"

record qmi =
  cdc_wdm_open :: bool
  thread_on :: bool
  wait_for_quit :: bool
  qmiclientId :: "byte \<Rightarrow> byte"
  mux_counter :: nat
  ctl_counter :: nat
  s_is_cdma :: bool
  s_5g_type :: u32
  s_hdr_personality :: int
  s_9x07 :: int
  qmap_protocol :: u32
  WdsConnectionIPv4Handle :: u32
  WdsConnectionIPv6Handle :: u32
  s_pRequest :: "bytes option"
  s_pResponse :: "bytes option"
  turns :: "turn list"
  qmi_sent :: "bytes list"
  qmi_to_main :: "(main_event \<times> (byte \<times> u32) option) list"
  driver_settings :: "qmap_setting list"
  reg_report :: "(u16 \<times> u16 \<times> byte \<times> string) option"

definition qmi_zero :: qmi where
  "qmi_zero = \<lparr>cdc_wdm_open = True, thread_on = True, wait_for_quit = False, qmiclientId = (\<lambda>_. 0),
     mux_counter = 0, ctl_counter = 0, s_is_cdma = False, s_5g_type = 0, s_hdr_personality = 0, s_9x07 = 1,
     qmap_protocol = 5, WdsConnectionIPv4Handle = 0, WdsConnectionIPv6Handle = 0, s_pRequest = None,
     s_pResponse = None, turns = [], qmi_sent = [], qmi_to_main = [], driver_settings = [], reg_report = None\<rparr>"

section \<open>Receiving\<close>

definition is_response :: "bytes \<Rightarrow> bytes \<Rightarrow> bool option" where
  "is_response req rsp = do {
     t \<leftarrow> qmi_type req; t' \<leftarrow> qmi_type rsp;
     (if t \<noteq> t' then Some False
      else do {
        c \<leftarrow> qmi_client req; c' \<leftarrow> qmi_client rsp;
        (if c \<noteq> c' then Some False
         else if t = QMUX_TYPE_CTL then do { i \<leftarrow> ctl_tid req; i' \<leftarrow> ctl_tid rsp; Some (i = i') }
         else do { i \<leftarrow> mux_tid req; i' \<leftarrow> mux_tid rsp; Some (i = i') }) }) }"

text \<open>The event for the main loop an indication causes; the one for the loop-back carries two
  values.\<close>

definition indication :: "bytes \<Rightarrow> (main_event \<times> (byte \<times> u32) option) option option" where
  "indication m = do {
     t \<leftarrow> qmi_type m;
     (if t = QMUX_TYPE_CTL
      then do { ty \<leftarrow> ctl_type m; Some (if ty = 0x24 then Some (MODEM_REPORT_RESET_EVENT, None) else None) }
      else if t = QMUX_TYPE_NAS
      then do { ty \<leftarrow> mux_type m;
        Some (if ty = 0x24 \<or> ty = 0x4E then Some (RIL_UNSOL_RESPONSE_VOICE_NETWORK_STATE_CHANGED, None) else None) }
      else if t = QMUX_TYPE_WDS
      then do { ty \<leftarrow> mux_type m; Some (if ty = 0x22 then Some (RIL_UNSOL_DATA_CALL_LIST_CHANGED, None) else None) }
      else if t = QMUX_TYPE_WDS_ADMIN
      then do { ty \<leftarrow> mux_type m;
        (if ty = 0x2F
         then do { st \<leftarrow> rd8 m 16; f \<leftarrow> rd32 m 20; Some (Some (RIL_UNSOL_LOOPBACK_CONFIG_IND, Some (st, f))) }
         else Some None) }
      else Some None) }"

definition send_to_main :: "main_event \<times> (byte \<times> u32) option \<Rightarrow> qmi \<Rightarrow> qmi" where
  "send_to_main e w = w\<lparr>qmi_to_main := qmi_to_main w @ [e]\<rparr>"

text \<open>The condition variable is signalled where \<open>s_pRequest\<close> becomes null.\<close>

definition QmiThreadRecvQMI :: "bytes option \<Rightarrow> qmi \<Rightarrow> qmi option" where
  "QmiThreadRecvQMI rsp w = (case rsp of
     None \<Rightarrow> Some (if s_pRequest w = None then w else w\<lparr>s_pRequest := None, s_pResponse := None\<rparr>)
   | Some m \<Rightarrow> do {
       hit \<leftarrow> (case s_pRequest w of None \<Rightarrow> Some False | Some req \<Rightarrow> is_response req m);
       (if hit then Some (w\<lparr>s_pRequest := None, s_pResponse := Some m\<rparr>)
        else do { e \<leftarrow> indication m; Some (case e of None \<Rightarrow> w | Some e \<Rightarrow> send_to_main e w) }) })"

section \<open>The thread that reads the device\<close>

definition thread_quit :: "qmi \<Rightarrow> qmi option" where
  "thread_quit w = QmiThreadRecvQMI None
     (send_to_main (RIL_INDICATE_DEVICE_DISCONNECTED, None) (w\<lparr>cdc_wdm_open := False, thread_on := False\<rparr>))"

text \<open>One turn of the loop in \<open>QmiWwanThread\<close>. A message counts only if the number of bytes read is
  the one its header states (of one or two bytes the header is not there to ask; they are taken
  not to match).\<close>

definition QmiWwanThread :: "wwan_event \<Rightarrow> qmi \<Rightarrow> qmi option" where
  "QmiWwanThread e w =
     (if \<not> thread_on w then Some w
      else case e of
        Ev_Idle \<Rightarrow> (if wait_for_quit w then QmiThreadRecvQMI None w else thread_quit w)
      | Ev_Hup \<Rightarrow> thread_quit w
      | Ev_Quit \<Rightarrow> thread_quit w
      | Ev_Stop \<Rightarrow> Some (w\<lparr>wait_for_quit := True\<rparr>)
      | Ev_Read m \<Rightarrow> (case qmi_length m of
            None \<Rightarrow> Some w
          | Some l \<Rightarrow> if length m \<noteq> unat l + 1 then Some w else QmiThreadRecvQMI (Some m) w))"

fun run_thread :: "wwan_event list \<Rightarrow> qmi \<Rightarrow> qmi option" where
  "run_thread [] w = Some w"
| "run_thread (e # es) w = do { w \<leftarrow> QmiWwanThread e w; run_thread es w }"

section \<open>Sending\<close>

definition ENODEV :: int where "ENODEV = 19"

text \<open>The client id the modem gave for the service goes into the request, and the second data
  service's requests go out as the first's. \<open>qmiclientId\<close> has 255 entries.\<close>

definition set_client :: "qmi \<Rightarrow> bytes \<Rightarrow> (int + bytes) option" where
  "set_client w req = do {
     t \<leftarrow> qmi_type req;
     (if t = QMUX_TYPE_CTL then Some (Inr req)
      else if t = 0xFF then None
      else if qmiclientId w t = 0 then Some (Inl (- ENODEV))
      else Some (Inr (req[5 := qmiclientId w t, 4 := if t = QMUX_TYPE_WDS_IPV6 then QMUX_TYPE_WDS else t]))) }"

definition write_device :: "send_io \<Rightarrow> bytes \<Rightarrow> int" where
  "write_device io req = (case io of Not_Writable r \<Rightarrow> r | Writes n \<Rightarrow> if n = int (length req) then 0 else n)"

definition QmiWwanSendQMI :: "send_io \<Rightarrow> bytes \<Rightarrow> qmi \<Rightarrow> (int \<times> bytes \<times> qmi) option" where
  "QmiWwanSendQMI io req w =
     (if \<not> cdc_wdm_open w then Some (- ENODEV, req, w)
      else do {
        r \<leftarrow> set_client w req;
        (case r of Inl err \<Rightarrow> Some (err, req[5 := 0], w)
         | Inr req \<Rightarrow> Some (write_device io req, req,
             if io = Writes (int (length req)) then w\<lparr>qmi_sent := qmi_sent w @ [req]\<rparr> else w)) })"

text \<open>Where no turn is left, the device cannot be written.\<close>

definition no_turn :: turn where
  "no_turn = \<lparr>turn_before = [], turn_io = Not_Writable (-1), turn_after = []\<rparr>"

definition next_turn :: "qmi \<Rightarrow> turn \<times> qmi" where
  "next_turn w = (case turns w of [] \<Rightarrow> (no_turn, w) | t # ts \<Rightarrow> (t, w\<lparr>turns := ts\<rparr>))"

text \<open>What is read during the wait is taken in order; the wait has ended well if the request is no
  longer pending. After a time-out or a failed send it stays pending.\<close>

definition QmiThreadSendQMI :: "bytes \<Rightarrow> qmi \<Rightarrow> (int \<times> bytes option \<times> qmi) option" where
  "QmiThreadSendQMI req w = (case next_turn w of (t, w) \<Rightarrow> do {
     w \<leftarrow> run_thread (turn_before t) w;
     (ret, req, w) \<leftarrow> QmiWwanSendQMI (turn_io t) req (w\<lparr>s_pRequest := Some req, s_pResponse := None\<rparr>);
     w \<leftarrow> run_thread (turn_after t) (w\<lparr>s_pRequest := Some req\<rparr>);
     (if ret \<noteq> 0 then Some (ret, None, w)
      else if s_pRequest w = None then Some (0, s_pResponse w, w\<lparr>s_pResponse := None\<rparr>)
      else Some (ETIMEDOUT, None, w)) })"

section \<open>A request and its answer\<close>

definition mux_request :: "byte \<Rightarrow> u16 \<Rightarrow> qmi_body \<Rightarrow> qmi \<Rightarrow> (int \<times> bytes option \<times> qmi) option" where
  "mux_request qtype ty b w = (let tid = next_tid (mux_counter w) in do {
     req \<leftarrow> ComposeQMUXMsg qtype ty tid b;
     QmiThreadSendQMI req (w\<lparr>mux_counter := tid\<rparr>) })"

text \<open>The answer, or the number to return: the macro \<open>qmi_rsp_check_and_return\<close>.\<close>

type_synonym answer = "(int \<times> qmi) + (bytes \<times> qmi)"

definition rsp_check :: "int \<times> bytes option \<times> qmi \<Rightarrow> answer option" where
  "rsp_check x = (case x of (err, rsp, w) \<Rightarrow>
     (case rsp of None \<Rightarrow> Some (Inl (err, w))
      | Some m \<Rightarrow> if err < 0 then Some (Inl (err, w)) else do {
          r \<leftarrow> mux_result m; e \<leftarrow> mux_error m;
          Some (if r \<noteq> 0 \<or> e \<noteq> 0 then Inl (uint e, w) else Inr (m, w)) }))"

definition qmi_exchange :: "byte \<Rightarrow> u16 \<Rightarrow> qmi_body \<Rightarrow> qmi \<Rightarrow> answer option" where
  "qmi_exchange qtype ty b w = do { x \<leftarrow> mux_request qtype ty b w; rsp_check x }"

section \<open>What the thread changes\<close>

text \<open>The variables of the protocol, which the thread that reads the device leaves alone.\<close>

definition qmi_vars :: "qmi \<Rightarrow> (byte \<Rightarrow> byte) \<times> nat \<times> nat \<times> bool \<times> u32 \<times> int \<times> int \<times> u32 \<times> u32 \<times> u32" where
  "qmi_vars w = (qmiclientId w, mux_counter w, ctl_counter w, s_is_cdma w, s_5g_type w, s_hdr_personality w,
     s_9x07 w, qmap_protocol w, WdsConnectionIPv4Handle w, WdsConnectionIPv6Handle w)"

lemma recv_vars: "QmiThreadRecvQMI rsp w = Some w' \<Longrightarrow> qmi_vars w' = qmi_vars w \<and> turns w' = turns w"
  by (auto simp: QmiThreadRecvQMI_def send_to_main_def qmi_vars_def bind_eq_Some_conv split: option.splits if_splits)

lemma quit_vars: "thread_quit w = Some w' \<Longrightarrow> qmi_vars w' = qmi_vars w \<and> turns w' = turns w"
  by (auto simp: thread_quit_def qmi_vars_def send_to_main_def dest!: recv_vars)

lemma thread_vars: "QmiWwanThread e w = Some w' \<Longrightarrow> qmi_vars w' = qmi_vars w \<and> turns w' = turns w"
  by (auto simp: QmiWwanThread_def qmi_vars_def dest: recv_vars quit_vars split: if_splits wwan_event.splits option.splits)

lemma run_vars: "run_thread es w = Some w' \<Longrightarrow> qmi_vars w' = qmi_vars w \<and> turns w' = turns w"
  by (induction es arbitrary: w) (auto simp: bind_eq_Some_conv dest: thread_vars)

text \<open>A request is pending, or it was answered by a message read meanwhile, or given up.\<close>

definition waiting_ok :: "bytes \<Rightarrow> bytes set \<Rightarrow> qmi \<Rightarrow> bool" where
  "waiting_ok req ms w \<longleftrightarrow> (case s_pRequest w of
     Some r \<Rightarrow> r = req \<and> s_pResponse w = None
   | None \<Rightarrow> (case s_pResponse w of None \<Rightarrow> True | Some m \<Rightarrow> m \<in> ms \<and> is_response req m = Some True))"

lemma recv_message:
  assumes "QmiThreadRecvQMI (Some m) w = Some w'"
  obtains "s_pRequest w' = s_pRequest w" "s_pResponse w' = s_pResponse w"
  | req where "s_pRequest w = Some req" "is_response req m = Some True" "s_pRequest w' = None" "s_pResponse w' = Some m"
proof -
  obtain hit where h: "(case s_pRequest w of None \<Rightarrow> Some False | Some req \<Rightarrow> is_response req m) = Some hit"
    using assms by (auto simp: QmiThreadRecvQMI_def bind_eq_Some_conv)
  show thesis
  proof (cases hit)
    case True
    with h obtain req where "s_pRequest w = Some req" "is_response req m = Some True"
      by (auto split: option.splits)
    with that(2) assms show thesis by (auto simp: QmiThreadRecvQMI_def)
  next
    case False
    with assms h have "do { e \<leftarrow> indication m; Some (case e of None \<Rightarrow> w | Some e \<Rightarrow> send_to_main e w) } = Some w'"
      by (simp add: QmiThreadRecvQMI_def)
    then show thesis using that(1) by (auto simp: bind_eq_Some_conv send_to_main_def split: option.splits)
  qed
qed

lemma recv_waiting:
  "waiting_ok req ms w \<Longrightarrow> QmiThreadRecvQMI (Some m) w = Some w' \<Longrightarrow> waiting_ok req (insert m ms) w'"
  "waiting_ok req ms w \<Longrightarrow> QmiThreadRecvQMI None w = Some w' \<Longrightarrow> waiting_ok req ms w'"
  by (erule recv_message; auto simp: waiting_ok_def split: option.splits)
     (auto simp: waiting_ok_def QmiThreadRecvQMI_def split: option.splits if_splits)

definition read_msgs :: "wwan_event list \<Rightarrow> bytes set" where
  "read_msgs es = {m. Ev_Read m \<in> set es}"

lemma quit_waiting: "waiting_ok req ms w \<Longrightarrow> thread_quit w = Some w' \<Longrightarrow> waiting_ok req ms w'"
  by (auto simp: thread_quit_def QmiThreadRecvQMI_def send_to_main_def waiting_ok_def split: option.splits if_splits)

lemma waiting_mono: "waiting_ok req ms w \<Longrightarrow> ms \<subseteq> ms' \<Longrightarrow> waiting_ok req ms' w"
  by (auto simp: waiting_ok_def split: option.splits)

lemma thread_waiting:
  assumes "waiting_ok req ms w" "QmiWwanThread e w = Some w'"
  shows "waiting_ok req (ms \<union> read_msgs [e]) w'"
proof (cases e)
  case (Ev_Read m)
  then show ?thesis
    using assms recv_waiting(1) [of req ms w m w'] waiting_mono [OF assms(1), of "insert m ms"]
    by (auto simp: QmiWwanThread_def read_msgs_def split: if_splits option.splits)
next
  case Ev_Stop
  then show ?thesis using assms by (auto simp: QmiWwanThread_def read_msgs_def waiting_ok_def split: if_splits option.splits)
qed (use assms recv_waiting(2) [of req ms w w'] quit_waiting [of req ms w w'] in
    \<open>auto simp: QmiWwanThread_def read_msgs_def split: if_splits\<close>)

lemma run_waiting:
  "waiting_ok req ms w \<Longrightarrow> run_thread es w = Some w' \<Longrightarrow> waiting_ok req (ms \<union> read_msgs es) w'"
proof (induction es arbitrary: w ms)
  case (Cons e es)
  then obtain w1 where w1: "QmiWwanThread e w = Some w1" "run_thread es w1 = Some w'"
    by (auto simp: bind_eq_Some_conv)
  have "waiting_ok req (ms \<union> read_msgs [e] \<union> read_msgs es) w'"
    by (rule Cons.IH [OF thread_waiting [OF Cons.prems(1) w1(1)] w1(2)])
  then show ?case by (rule waiting_mono) (auto simp: read_msgs_def)
qed (auto simp: read_msgs_def)

section \<open>Request and answer\<close>

lemma next_turn_cases:
  obtains "turns w = []" "next_turn w = (no_turn, w)"
  | t ts where "turns w = t # ts" "next_turn w = (t, w\<lparr>turns := ts\<rparr>)"
  by (cases "turns w") (auto simp: next_turn_def)

lemma next_turn_vars: "next_turn w = (t, w') \<Longrightarrow> qmi_vars w' = qmi_vars w"
  by (auto simp: next_turn_def qmi_vars_def split: list.splits)

lemma send_steps:
  assumes "QmiThreadSendQMI req w = Some (ret, rsp, w')"
  obtains t w0 w1 r req2 w2 w3 where "next_turn w = (t, w0)" "run_thread (turn_before t) w0 = Some w1"
    "QmiWwanSendQMI (turn_io t) req (w1\<lparr>s_pRequest := Some req, s_pResponse := None\<rparr>) = Some (r, req2, w2)"
    "run_thread (turn_after t) (w2\<lparr>s_pRequest := Some req2\<rparr>) = Some w3"
    "(ret, rsp, w') = (if r \<noteq> 0 then (r, None, w3)
       else if s_pRequest w3 = None then (0, s_pResponse w3, w3\<lparr>s_pResponse := None\<rparr>) else (ETIMEDOUT, None, w3))"
proof -
  obtain t w0 where t: "next_turn w = (t, w0)" by (cases "next_turn w")
  obtain w1 where w1: "run_thread (turn_before t) w0 = Some w1"
    using assms by (auto simp: QmiThreadSendQMI_def t bind_eq_Some_conv)
  obtain r req2 w2 where w2: "QmiWwanSendQMI (turn_io t) req (w1\<lparr>s_pRequest := Some req, s_pResponse := None\<rparr>) = Some (r, req2, w2)"
    using assms by (auto simp: QmiThreadSendQMI_def t w1 elim!: bind_pairE)
  obtain w3 where w3: "run_thread (turn_after t) (w2\<lparr>s_pRequest := Some req2\<rparr>) = Some w3"
    using assms by (auto simp: QmiThreadSendQMI_def t w1 w2 bind_eq_Some_conv)
  from assms have "(ret, rsp, w') = (if r \<noteq> 0 then (r, None, w3)
       else if s_pRequest w3 = None then (0, s_pResponse w3, w3\<lparr>s_pResponse := None\<rparr>) else (ETIMEDOUT, None, w3))"
    by (auto simp: QmiThreadSendQMI_def t w1 w2 w3 split: if_splits)
  with t w1 w2 w3 show thesis by (rule that)
qed

lemma set_client_fails: "set_client w req = Some (Inl err) \<Longrightarrow> err = - 19"
  by (auto simp: set_client_def ENODEV_def bind_eq_Some_conv split: if_splits)

lemma set_client_cong: "qmiclientId w = qmiclientId w' \<Longrightarrow> set_client w req = set_client w' req"
  by (simp add: set_client_def cong: if_cong)

lemma wwan_send_vars:
  "QmiWwanSendQMI io req w = Some (r, req', w') \<Longrightarrow> qmi_vars w' = qmi_vars w \<and> turns w' = turns w \<and>
     s_pRequest w' = s_pRequest w \<and> s_pResponse w' = s_pResponse w"
  by (cases "set_client w req"; cases "the (set_client w req)") (auto simp: QmiWwanSendQMI_def qmi_vars_def split: if_splits)

lemma send_vars: "QmiThreadSendQMI req w = Some (ret, rsp, w') \<Longrightarrow> qmi_vars w' = qmi_vars w"
  by (erule send_steps) (auto dest!: run_vars wwan_send_vars next_turn_vars simp: qmi_vars_def split: if_splits)

lemma send_turns: "QmiThreadSendQMI req w = Some (ret, rsp, w') \<Longrightarrow> turns w' = tl (turns w)"
  by (erule send_steps) (auto dest!: run_vars wwan_send_vars simp: next_turn_def split: if_splits list.splits)

text \<open>An answer fits the request as it was sent, and was read in this turn.\<close>

lemma send_answer:
  assumes "QmiThreadSendQMI req w = Some (ret, Some rsp, w')"
  shows "ret = 0 \<and> s_pRequest w' = None \<and> rsp \<in> read_msgs (turn_after (fst (next_turn w))) \<and>
    (\<exists>req'. set_client w req = Some (Inr req') \<and> is_response req' rsp = Some True)"
  using assms
proof (rule send_steps)
  fix t w0 w1 r req2 w2 w3
  assume 0: "next_turn w = (t, w0)" and 1: "run_thread (turn_before t) w0 = Some w1"
    and 2: "QmiWwanSendQMI (turn_io t) req (w1\<lparr>s_pRequest := Some req, s_pResponse := None\<rparr>) = Some (r, req2, w2)"
    and 3: "run_thread (turn_after t) (w2\<lparr>s_pRequest := Some req2\<rparr>) = Some w3"
    and 4: "(ret, Some rsp, w') = (if r \<noteq> 0 then (r, None, w3)
       else if s_pRequest w3 = None then (0, s_pResponse w3, w3\<lparr>s_pResponse := None\<rparr>) else (ETIMEDOUT, None, w3))"
  have "s_pResponse w2 = None" using wwan_send_vars [OF 2] by simp
  then have "waiting_ok req2 {} (w2\<lparr>s_pRequest := Some req2\<rparr>)" by (simp add: waiting_ok_def)
  from run_waiting [OF this 3] have ok: "waiting_ok req2 (read_msgs (turn_after t)) w3" by simp
  have c: "qmiclientId w1 = qmiclientId w"
    using run_vars [OF 1] next_turn_vars [OF 0] by (simp add: qmi_vars_def)
  have r: "r = 0" "s_pRequest w3 = None" "s_pResponse w3 = Some rsp" "ret = 0" "s_pRequest w' = None"
    using 4 by (auto split: if_splits)
  have "set_client w req = Some (Inr req2)"
    using 2 r(1) set_client_cong [of "w1\<lparr>s_pRequest := Some req, s_pResponse := None\<rparr>" w req] c
    by (cases "set_client w req"; cases "the (set_client w req)")
       (auto simp: QmiWwanSendQMI_def ENODEV_def dest: set_client_fails split: if_splits)
  with ok r 0 show ?thesis by (simp add: waiting_ok_def)
qed

lemma rd_update: "i \<noteq> j \<Longrightarrow> rd8 (m[i := b]) j = rd8 m j"
  by (simp add: rd8_def)

text \<open>Property C4: the answer a request gets is its own. If a request for a service ends with an answer,
  the answer was read during the wait for this request, carries the transaction number this request
  was given, the client id the modem gave for the service, and the service's number (the second data
  service's is the first's); no request is pending afterwards. A late answer to an earlier request
  is never taken for it.
\<close>

theorem answer_is_for_the_request:
  assumes "mux_request qtype ty b w = Some (err, Some rsp, w')" "qtype \<noteq> QMUX_TYPE_CTL"
  shows "err = 0 \<and> s_pRequest w' = None \<and> Ev_Read rsp \<in> set (turn_after (fst (next_turn w))) \<and>
    mux_tid rsp = Some (of_nat (next_tid (mux_counter w))) \<and>
    qmi_client rsp = Some (qmiclientId w qtype) \<and>
    qmi_type rsp = Some (if qtype = QMUX_TYPE_WDS_IPV6 then QMUX_TYPE_WDS else qtype)"
proof -
  obtain req where req: "ComposeQMUXMsg qtype ty (next_tid (mux_counter w)) b = Some req"
      and s: "QmiThreadSendQMI req (w\<lparr>mux_counter := next_tid (mux_counter w)\<rparr>) = Some (err, Some rsp, w')"
    using assms(1) by (auto simp: mux_request_def Let_def bind_eq_Some_conv)
  note f = composed_fields [OF req]
  have len: "13 \<le> length req" by (rule f)
  obtain req' where r: "set_client w req = Some (Inr req')" "is_response req' rsp = Some True"
    using send_answer [OF s] set_client_cong [of "w\<lparr>mux_counter := next_tid (mux_counter w)\<rparr>" w req] by auto
  have tid: "mux_tid (req[5 := x, 4 := y]) = mux_tid req" for x y
    by (simp add: mux_tid_def rd16_def rd_update)
  have fields: "mux_tid req' = Some (of_nat (next_tid (mux_counter w)))" "qmi_client req' = Some (qmiclientId w qtype)"
      "qmi_type req' = Some (if qtype = QMUX_TYPE_WDS_IPV6 then QMUX_TYPE_WDS else qtype)"
    using r(1) assms(2) f(5,8) len
    by (auto simp: set_client_def tid qmi_client_def qmi_type_def rd8_def split: if_splits)
  moreover have "(if qtype = QMUX_TYPE_WDS_IPV6 then QMUX_TYPE_WDS else qtype) \<noteq> QMUX_TYPE_CTL"
    using assms(2) by (simp add: QMUX_TYPE_WDS_def QMUX_TYPE_CTL_def)
  ultimately have "mux_tid rsp = mux_tid req' \<and> qmi_client rsp = qmi_client req' \<and> qmi_type rsp = qmi_type req'"
    using r(2) by (auto simp: is_response_def bind_eq_Some_conv split: if_splits)
  with fields send_answer [OF s] show ?thesis
    by (simp add: read_msgs_def next_turn_def split: list.splits)
qed

text \<open>A modem that answers the next request with the message given.\<close>

definition answering :: "bytes \<Rightarrow> int \<Rightarrow> turn" where
  "answering m n = \<lparr>turn_before = [], turn_io = Writes n, turn_after = [Ev_Read m]\<rparr>"

definition qmi_ready :: "turn list \<Rightarrow> qmi" where
  "qmi_ready ts = qmi_zero\<lparr>qmiclientId := (\<lambda>_. 5), turns := ts\<rparr>"

text \<open>The request as it is written to the device.\<close>

definition on_wire :: "qmi \<Rightarrow> byte \<Rightarrow> u16 \<Rightarrow> bytes \<Rightarrow> bytes" where
  "on_wire w qtype ty tlvs = (qmi_frame qtype 0 0 (next_tid (mux_counter w)) ty tlvs)
     [5 := qmiclientId w qtype, 4 := if qtype = QMUX_TYPE_WDS_IPV6 then QMUX_TYPE_WDS else qtype]"

definition ready_for :: "qmi \<Rightarrow> byte \<Rightarrow> bool" where
  "ready_for w qtype \<longleftrightarrow> cdc_wdm_open w \<and> thread_on w \<and> qmiclientId w qtype \<noteq> 0 \<and> qtype \<noteq> QMUX_TYPE_CTL \<and> qtype \<noteq> 0xFF"

definition after_exchange :: "qmi \<Rightarrow> bytes \<Rightarrow> turn list \<Rightarrow> qmi" where
  "after_exchange w req ts = w\<lparr>mux_counter := next_tid (mux_counter w), s_pRequest := None, s_pResponse := None,
     turns := ts, qmi_sent := qmi_sent w @ [req]\<rparr>"

lemma whole_message: "length ts < 65524 \<Longrightarrow> length (qmi_frame q c f tid ty ts) = unat (of_nat (12 + length ts) :: u16) + 1"
  by (subst unat_u16_of_nat) (simp_all add: qmi_frame_def)

text \<open>The answer to a request, given that the modem answers it.\<close>

lemma request_answered:
  assumes ready: "ready_for w qtype" and fits: "13 + max (length tlvs) n \<le> 256"
    and turn: "turns w = answering m (13 + int (length tlvs)) # ts"
    and m: "m = qmi_frame (if qtype = QMUX_TYPE_WDS_IPV6 then QMUX_TYPE_WDS else qtype) (qmiclientId w qtype) f
        (next_tid (mux_counter w)) ty' answer" and short: "length answer < 65524"
  shows "mux_request qtype ty (tlvs, n) w = Some (0, Some m, after_exchange w (on_wire w qtype ty tlvs) ts)"
proof -
  let ?tid = "next_tid (mux_counter w)" let ?req = "qmi_frame qtype 0 0 ?tid ty tlvs" let ?sent = "on_wire w qtype ty tlvs"
  define w1 where "w1 = w\<lparr>mux_counter := ?tid, turns := ts\<rparr>"
  have req: "ComposeQMUXMsg qtype ty ?tid (tlvs, n) = Some ?req" using fits by (simp add: composed)
  have len: "length ?req = 13 + length tlvs" by (simp add: qmi_frame_def)
  have q: "qtype \<noteq> QMUX_TYPE_CTL" "qtype \<noteq> 0xFF" "qmiclientId w qtype \<noteq> 0" "cdc_wdm_open w" "thread_on w"
    using ready by (simp_all add: ready_for_def)
  have ty: "qmi_type ?req = Some qtype" by (simp add: qmi_frame_def)
  have c: "set_client v ?req = Some (Inr ?sent)" if "qmiclientId v = qmiclientId w" for v
    using that q ty by (simp add: set_client_def on_wire_def)
  have sent: "QmiWwanSendQMI (Writes (13 + int (length tlvs))) ?req (w1\<lparr>s_pRequest := Some ?req, s_pResponse := None\<rparr>) =
      Some (0, ?sent, w1\<lparr>s_pRequest := Some ?req, s_pResponse := None, qmi_sent := qmi_sent w @ [?sent]\<rparr>)"
    using q(4) by (simp add: QmiWwanSendQMI_def c w1_def write_device_def on_wire_def len)
  have head: "take 4 (drop 6 ?sent) = take 4 (drop 6 ?req)" "6 < length ?sent"
    by (simp_all add: on_wire_def len)
  have tid: "mux_tid ?sent = Some (of_nat ?tid)" "qmi_client ?sent = Some (qmiclientId w qtype)"
      "qmi_type ?sent = Some (if qtype = QMUX_TYPE_WDS_IPV6 then QMUX_TYPE_WDS else qtype)"
    by (simp_all add: on_wire_def qmi_frame_def qmi_head_def mux_tid_def qmi_client_def qmi_type_def rd16_def rd8_def
      le16_def le_simps)
  have wire: "(if qtype = QMUX_TYPE_WDS_IPV6 then QMUX_TYPE_WDS else qtype) \<noteq> QMUX_TYPE_CTL"
    using q(1) by (simp add: QMUX_TYPE_CTL_def QMUX_TYPE_WDS_def)
  have mine: "is_response ?sent m = Some True"
    using tid wire by (simp add: is_response_def m qmi_frame_def split del: if_split)
  have whole: "qmi_length m = Some (of_nat (12 + length answer))" "length m = unat (of_nat (12 + length answer) :: u16) + 1"
    using whole_message [OF short] by (simp_all add: m qmi_frame_def del: of_nat_add)
  have thread: "QmiWwanThread (Ev_Read m) v = Some (v\<lparr>s_pRequest := None, s_pResponse := Some m\<rparr>)"
    if "thread_on v" "s_pRequest v = Some ?sent" for v
    using that mine whole by (simp add: QmiWwanThread_def QmiThreadRecvQMI_def)
  show ?thesis
    using q(4,5) turn sent
    by (simp add: mux_request_def Let_def req QmiThreadSendQMI_def next_turn_def answering_def w1_def thread
      after_exchange_def)
qed

theorem answer_is_for_the_request_witness:
  "mux_tid (qmi_frame 1 5 0x80 1 0x22 (tlv 2 [0, 0, 0, 0])) = Some (of_nat (next_tid 0))"
proof -
  let ?m = "qmi_frame 1 5 0x80 1 0x22 (tlv 2 [0, 0, 0, 0])"
  have "\<exists>w'. mux_request QMUX_TYPE_WDS 0x22 ([], 0) (qmi_ready [answering ?m 13]) = Some (0, Some ?m, w')"
    by (rule exI, rule request_answered [where f = "0x80" and ty' = "0x22" and answer = "tlv 2 [0, 0, 0, 0]"])
       (simp_all add: ready_for_def qmi_ready_def qmi_zero_def next_tid_def QMUX_TYPE_CTL_def QMUX_TYPE_WDS_def
          QMUX_TYPE_WDS_IPV6_def)
  then obtain w' where "mux_request QMUX_TYPE_WDS 0x22 ([], 0) (qmi_ready [answering ?m 13]) = Some (0, Some ?m, w')" ..
  from answer_is_for_the_request [OF this] show ?thesis
    by (simp add: QMUX_TYPE_CTL_def QMUX_TYPE_WDS_def qmi_ready_def qmi_zero_def)
qed

section \<open>A wait that the end of the thread cuts off\<close>

lemma run_thread_off: "\<not> thread_on w \<Longrightarrow> run_thread es w = Some w"
  by (induction es) (simp_all add: QmiWwanThread_def)

lemma cut_off_request:
  assumes "turns w = t # ts" "turn_before t = []" "turn_io t = Writes (13 + int (length (fst b)))"
    "turn_after t = e # es" "e = Ev_Hup \<or> e = Ev_Quit"
    "ready_for w qtype"
    "13 + max (length (fst b)) (snd b) \<le> 256"
  obtains w' where "mux_request qtype ty b w = Some (0, None, w')" "\<not> cdc_wdm_open w'"
    "qmi_vars w' = qmi_vars (w\<lparr>mux_counter := next_tid (mux_counter w)\<rparr>)"
proof -
  let ?tid = "next_tid (mux_counter w)"
  obtain req where req: "ComposeQMUXMsg qtype ty ?tid b = Some req" and len: "length req = 13 + length (fst b)"
    using assms(7) by (cases b) (auto simp: composed qmi_frame_def)
  note f = composed_fields [OF req]
  have q: "cdc_wdm_open w" "thread_on w" "qmiclientId w qtype \<noteq> 0" "qtype \<noteq> QMUX_TYPE_CTL" "qtype \<noteq> 0xFF"
    using assms(6) by (simp_all add: ready_for_def)
  define req' where "req' = req[5 := qmiclientId w qtype, 4 := if qtype = QMUX_TYPE_WDS_IPV6 then QMUX_TYPE_WDS else qtype]"
  have c: "set_client v req = Some (Inr req')" if "qmiclientId v = qmiclientId w" for v
    using that q f(5) by (simp add: set_client_def req'_def)
  define w1 where "w1 = w\<lparr>mux_counter := ?tid, turns := ts\<rparr>"
  have sent: "QmiWwanSendQMI (turn_io t) req (w1\<lparr>s_pRequest := Some req, s_pResponse := None\<rparr>) =
      Some (0, req', w1\<lparr>s_pRequest := Some req, s_pResponse := None, qmi_sent := qmi_sent w @ [req']\<rparr>)"
    using assms(3) q by (simp add: QmiWwanSendQMI_def c w1_def len write_device_def req'_def)
  have quit: "QmiWwanThread e v = thread_quit v" if "thread_on v" for v
    using assms(5) that by (auto simp: QmiWwanThread_def)
  obtain w3 where w3: "run_thread (e # es) (w1\<lparr>s_pResponse := None, qmi_sent := qmi_sent w @ [req'], s_pRequest := Some req'\<rparr>) = Some w3"
      "s_pRequest w3 = None" "s_pResponse w3 = None" "\<not> cdc_wdm_open w3"
    using q by (simp add: quit thread_quit_def QmiThreadRecvQMI_def send_to_main_def w1_def run_thread_off)
  have "QmiThreadSendQMI req (w\<lparr>mux_counter := ?tid\<rparr>) = Some (0, None, w3\<lparr>s_pResponse := None\<rparr>)"
    using assms(1,2,4) sent w3 by (simp add: QmiThreadSendQMI_def next_turn_def w1_def [symmetric] del: run_thread.simps(2))
  moreover from send_vars [OF this] have "qmi_vars (w3\<lparr>s_pResponse := None\<rparr>) = qmi_vars (w\<lparr>mux_counter := ?tid\<rparr>)" .
  ultimately show thesis
    using that w3(4) by (simp add: mux_request_def Let_def req)
qed

end
