(* ===== verification/Qmi_Setup.thy ===== *)
theory Qmi_Setup
  imports Qmi_Link
begin

text \<open>
  The requests of \<^verbatim>\<open>quectel_cm_5G/src/QMIThread.c\<close> made once at start-up: data format, SIM and PIN,
  firmware version, radio power and the loop-back test. They are named as in the source with the
  prefix \<open>qmi_\<close>, as the AT requests have the same names there. Each returns its number, what it
  writes through its pointers, and the state.
\<close>

section \<open>Answers\<close>

text \<open>\<open>qmi_rsp_check_and_return\<close>, and what follows it.\<close>

definition on_answer :: "answer option \<Rightarrow> (int \<Rightarrow> qmi \<Rightarrow> 'r) \<Rightarrow> (bytes \<Rightarrow> qmi \<Rightarrow> 'r option) \<Rightarrow> 'r option" where
  "on_answer a stop go = do {
     r \<leftarrow> a;
     (case r of Inl (err, w) \<Rightarrow> Some (stop err w) | Inr (m, w) \<Rightarrow> go m w) }"

text \<open>A TLV, if there is one.\<close>

definition with_tlv :: "bytes \<Rightarrow> nat \<Rightarrow> (nat \<Rightarrow> 'a option) \<Rightarrow> 'a option option" where
  "with_tlv m ty f = do {
     p \<leftarrow> GetTLV m ty;
     (case p of None \<Rightarrow> Some None | Some pos \<Rightarrow> map_option Some (f pos)) }"

definition tlv_value :: "bytes \<Rightarrow> nat \<Rightarrow> u32 option option" where
  "tlv_value m ty = with_tlv m ty (\<lambda>pos. tlv32 m pos 0)"

definition or_old :: "'a option \<Rightarrow> 'a \<Rightarrow> 'a" where
  "or_old x old = (case x of None \<Rightarrow> old | Some v \<Rightarrow> v)"

lemma or_old_simps [simp]: "or_old None v = v" "or_old (Some u) v = u"
  by (simp_all add: or_old_def)

definition just_err :: "int \<Rightarrow> qmi \<Rightarrow> int \<times> qmi" where "just_err err w = (err, w)"

section \<open>The data format\<close>

definition DATA_EP_TYPE_HSUSB :: u32 where "DATA_EP_TYPE_HSUSB = 2"
definition DATA_EP_TYPE_PCIE :: u32 where "DATA_EP_TYPE_PCIE = 3"

definition qmap_zero :: qmap_setting where
  "qmap_zero = \<lparr>rx_urb_size = 0, ep_type = 0, iface_id = 0, MuxId = 0, ul_max_datagrams = 0, ul_max_size = 0,
     dl_minimum_padding = 0\<rparr>"

definition qmap_of_profile :: "profile \<Rightarrow> qmap_setting" where
  "qmap_of_profile p = \<lparr>rx_urb_size = word_of_int (qmap_size p),
     ep_type = (if hardware_interface p = HARDWARE_PCIE then DATA_EP_TYPE_PCIE else DATA_EP_TYPE_HSUSB),
     iface_id = 4, MuxId = word_of_int (muxid p), ul_max_datagrams = 11, ul_max_size = 8 * 1024,
     dl_minimum_padding = 0\<rparr>"

definition qmap_of_driver :: "rmnet_info \<Rightarrow> qmap_setting \<Rightarrow> qmap_setting" where
  "qmap_of_driver r q = (if ri_size r = 0 then q
     else q\<lparr>rx_urb_size := ri_rx_urb_size r, ep_type := ri_ep_type r, iface_id := ri_iface_id r,
            dl_minimum_padding := ri_dl_minimum_padding r\<rparr>)"

text \<open>With QMAP: the profile, the settings and the state before the first request.\<close>

definition qmap_prepare :: "profile \<Rightarrow> qmi \<Rightarrow> profile \<times> qmap_setting \<times> qmi" where
  "qmap_prepare p w =
     (if qmap_mode p = 0 then (p, qmap_zero, w)
      else let p = p\<lparr>rawIP := 1, qmap_version := (if qmap_version p = 9 then 9 else 5)\<rparr>;
               v = (if ri_size (rmnet p) = 0 then word_of_int (qmap_version p) else ri_qmap_version (rmnet p))
           in (p, qmap_of_driver (rmnet p) (qmap_of_profile p), w\<lparr>s_9x07 := 1, qmap_protocol := v\<rparr>))"

text \<open>What the modem answers for the uplink (\<open>QUECTEL_UL_DATA_AGG\<close>).\<close>

definition uplink_settings :: "bytes \<Rightarrow> qmap_setting \<Rightarrow> qmap_setting option" where
  "uplink_settings m q = do {
     d \<leftarrow> tlv_value m 0x17; s \<leftarrow> tlv_value m 0x18; g \<leftarrow> tlv_value m 0x1A;
     Some (q\<lparr>ul_max_datagrams := (case d of None \<Rightarrow> ul_max_datagrams q | Some v \<Rightarrow> min (ul_max_datagrams q) v),
             ul_max_size := (case s of None \<Rightarrow> ul_max_size q | Some v \<Rightarrow> min (ul_max_size q) v),
             dl_minimum_padding := or_old g (dl_minimum_padding q)\<rparr>) }"

definition data_format_answer :: "bytes \<Rightarrow> profile \<Rightarrow> qmap_setting \<Rightarrow> qmi \<Rightarrow> (profile \<times> qmap_setting \<times> qmi) option" where
  "data_format_answer m p q w = do {
     link \<leftarrow> tlv_value m 0x11;
     (let (p, w) = (case link of None \<Rightarrow> (p, w)
            | Some v \<Rightarrow> let r = (if v = 2 then 1 else 0) in (p\<lparr>rawIP := r\<rparr>, w\<lparr>s_9x07 := r\<rparr>)) in do {
       rx \<leftarrow> tlv_value m 0x16;
       (let q = (if qmap_mode p = 0 then q else q\<lparr>rx_urb_size := or_old rx (rx_urb_size q)\<rparr>) in
        if ul_max_datagrams q = 0 then Some (p, q, w)
        else do {
          q \<leftarrow> uplink_settings m q;
          Some (p, q, if ul_max_datagrams q > 1 then w\<lparr>driver_settings := driver_settings w @ [q]\<rparr> else w) }) }) }"

definition set_data_format :: "profile \<Rightarrow> qmap_setting \<Rightarrow> qmi \<Rightarrow> ((int \<times> profile \<times> qmi) + (profile \<times> qmap_setting \<times> qmi)) option" where
  "set_data_format p q w =
     (if qmap_mode p \<noteq> 0 \<and> wda_client p = 0 then Some (Inr (p, q, w))
      else on_answer (qmi_exchange QMUX_TYPE_WDS_ADMIN 0x0020 (WdaSetDataFormat (qmap_protocol w) q) w)
        (\<lambda>err w. Inl (err, p, w)) (\<lambda>m w. map_option Inr (data_format_answer m p q w)))"

text \<open>Whether the answer was good, and what the macro would return. For IPv4 nobody looks at the
  answer to the second request.\<close>

definition bind_family4 :: "profile \<Rightarrow> qmap_setting \<Rightarrow> qmi \<Rightarrow> ((int \<times> qmi) + qmi) option" where
  "bind_family4 p q w =
     (if \<not> enable_ipv4 p then Some (Inr w)
      else on_answer (if qmapnet_adapter p = [] then Some (Inr ([], w))
                      else qmi_exchange QMUX_TYPE_WDS 0x00A2 (WdsSetQMUXBindMuxDataPort q) w)
        (\<lambda>err w. Inl (err, w))
        (\<lambda>_ w. do { (_, _, w) \<leftarrow> mux_request QMUX_TYPE_WDS 0x004D (WdsSetClientIPFamilyPref 4) w; Some (Inr w) }))"

definition bind_family6 :: "profile \<Rightarrow> qmap_setting \<Rightarrow> qmi \<Rightarrow> ((int \<times> qmi) + qmi) option" where
  "bind_family6 p q w =
     (if \<not> enable_ipv6 p then Some (Inr w)
      else on_answer (if qmapnet_adapter p = [] then Some (Inr ([], w))
                      else qmi_exchange QMUX_TYPE_WDS_IPV6 0x00A2 (WdsSetQMUXBindMuxDataPort q) w)
        (\<lambda>err w. Inl (err, w))
        (\<lambda>_ w. on_answer (qmi_exchange QMUX_TYPE_WDS_IPV6 0x004D (WdsSetClientIPFamilyPref 6) w)
           (\<lambda>err w. Inl (err, w)) (\<lambda>_ w. Some (Inr w))))"

definition qmi_requestSetEthMode :: "qmi \<Rightarrow> profile \<Rightarrow> (int \<times> profile \<times> qmi) option" where
  "qmi_requestSetEthMode w p = (case qmap_prepare p w of (p, q, w) \<Rightarrow> do {
     r \<leftarrow> set_data_format p q w;
     (case r of Inl x \<Rightarrow> Some x
      | Inr (p, q, w) \<Rightarrow> do {
          r \<leftarrow> bind_family4 p q w;
          (case r of Inl (err, w) \<Rightarrow> Some (err, p, w)
           | Inr w \<Rightarrow> do {
               r \<leftarrow> bind_family6 p q w;
               (case r of Inl (err, w) \<Rightarrow> Some (err, p, w)
                | Inr w \<Rightarrow> do {
                    (_, _, w) \<leftarrow> mux_request QMUX_TYPE_WDS 0x0051 (WdsSetAutoConnect 0) w;
                    Some (0, p, w) }) }) }) })"

section \<open>SIM and PIN\<close>

definition QMI_PIN_STATUS_NOT_INIT :: byte where "QMI_PIN_STATUS_NOT_INIT = 0"
definition QMI_PIN_STATUS_NOT_VERIF :: byte where "QMI_PIN_STATUS_NOT_VERIF = 1"
definition QMI_PIN_STATUS_VERIFIED :: byte where "QMI_PIN_STATUS_VERIFIED = 2"
definition QMI_PIN_STATUS_DISABLED :: byte where "QMI_PIN_STATUS_DISABLED = 3"
definition QMI_PIN_STATUS_BLOCKED :: byte where "QMI_PIN_STATUS_BLOCKED = 4"
definition QMI_PIN_STATUS_PERM_BLOCKED :: byte where "QMI_PIN_STATUS_PERM_BLOCKED = 5"
definition UIM_CARD_STATE_PRESENT :: byte where "UIM_CARD_STATE_PRESENT = 1"

lemmas pin_status_defs = QMI_PIN_STATUS_NOT_INIT_def QMI_PIN_STATUS_NOT_VERIF_def QMI_PIN_STATUS_VERIFIED_def
  QMI_PIN_STATUS_DISABLED_def QMI_PIN_STATUS_BLOCKED_def QMI_PIN_STATUS_PERM_BLOCKED_def UIM_CARD_STATE_PRESENT_def

text \<open>The question the two SIM requests start with; the second number is the one for modems older than
  the MDM9x07.\<close>

definition card_request :: "u16 \<Rightarrow> qmi \<Rightarrow> answer option" where
  "card_request dms w = (if s_9x07 w \<noteq> 0 then qmi_exchange QMUX_TYPE_UIM 0x002F (body []) w
     else qmi_exchange QMUX_TYPE_DMS dms (body []) w)"

definition pin_sim_status :: "byte \<Rightarrow> sim_status option" where
  "pin_sim_status s =
     (if s = QMI_PIN_STATUS_NOT_VERIF then Some SIM_PIN
      else if s = QMI_PIN_STATUS_BLOCKED then Some SIM_PUK
      else if s = QMI_PIN_STATUS_PERM_BLOCKED then Some SIM_BAD else None)"

definition requestGetPINStatus :: "qmi \<Rightarrow> sim_status \<Rightarrow> (int \<times> sim_status \<times> qmi) option" where
  "requestGetPINStatus w sim = on_answer (card_request 0x002B w) (\<lambda>err w. (err, sim, w))
     (\<lambda>m w. do {
        s \<leftarrow> with_tlv m 0x11 (\<lambda>pos. tlv8 m pos 0);
        Some (0, case s of None \<Rightarrow> sim | Some s \<Rightarrow> or_old (pin_sim_status s) sim, w) })"

text \<open>The card's TLV has 25 bytes, of which those at 12 and 13 are the state of the card and of the
  universal PIN, and the last the length of the application's name; the PIN state lies behind the
  name.\<close>

definition card_state :: "bytes \<Rightarrow> (byte \<times> byte) option" where
  "card_state m = do {
     r \<leftarrow> with_tlv m 0x10 (\<lambda>pos. do {
       aid \<leftarrow> rd8 m (pos + 24); cs \<leftarrow> rd8 m (pos + 12);
       (if cs = UIM_CARD_STATE_PRESENT
        then do {
          u \<leftarrow> rd8 m (pos + 25 + unat aid);
          s \<leftarrow> (if u = 1 then rd8 m (pos + 13) else rd8 m (pos + 25 + unat aid + 1));
          Some (cs, s) }
        else Some (cs, QMI_PIN_STATUS_NOT_VERIF)) });
     Some (or_old r (0x01, QMI_PIN_STATUS_NOT_VERIF)) }"

definition card_sim_status :: "byte \<times> byte \<Rightarrow> sim_status" where
  "card_sim_status c = (case c of (cs, pin) \<Rightarrow>
     if cs \<noteq> 0x01 then SIM_ABSENT
     else if pin = QMI_PIN_STATUS_VERIFIED \<or> pin = QMI_PIN_STATUS_DISABLED then SIM_READY
     else if pin = QMI_PIN_STATUS_BLOCKED then SIM_PUK
     else if pin = QMI_PIN_STATUS_PERM_BLOCKED then SIM_BAD
     else if pin = QMI_PIN_STATUS_NOT_INIT then SIM_READY
     else if pin = QMI_PIN_STATUS_NOT_VERIF then SIM_PIN
     else SIM_ABSENT)"

text \<open>The state of the card of an older modem is the byte at 23 of its answer.\<close>

definition old_sim_status :: "bytes \<Rightarrow> qmi \<Rightarrow> (sim_status \<times> qmi) option" where
  "old_sim_status m w = do {
     st \<leftarrow> rd8 m 23;
     (if st = 0x00 then Some (SIM_READY, w)
      else if st = 0x01 then do { (_, sim, w) \<leftarrow> requestGetPINStatus w SIM_ABSENT; Some (sim, w) }
      else Some (SIM_ABSENT, w)) }"

text \<open>The name of the status for the log comes from an array that ends before \<open>SIM_BAD\<close>.\<close>

definition SIM_Status_String :: "sim_status \<Rightarrow> string option" where
  "SIM_Status_String s = (case s of SIM_ABSENT \<Rightarrow> Some ''SIM_ABSENT'' | SIM_NOT_READY \<Rightarrow> Some ''SIM_NOT_READY''
     | SIM_READY \<Rightarrow> Some ''SIM_READY'' | SIM_PIN \<Rightarrow> Some ''SIM_PIN'' | SIM_PUK \<Rightarrow> Some ''SIM_PUK''
     | SIM_NETWORK_PERSONALIZATION \<Rightarrow> Some ''SIM_NETWORK_PERSONALIZATION'' | SIM_BAD \<Rightarrow> None)"

definition qmi_requestGetSIMStatus :: "qmi \<Rightarrow> (int \<times> sim_status option \<times> qmi) option" where
  "qmi_requestGetSIMStatus w = on_answer (card_request 0x0044 w) (\<lambda>err w. (err, None, w))
     (\<lambda>m w. do {
        (sim, w) \<leftarrow> (if s_9x07 w \<noteq> 0 then do { c \<leftarrow> card_state m; Some (card_sim_status c, w) } else old_sim_status m w);
        _ \<leftarrow> SIM_Status_String sim;
        Some (0, Some sim, w) })"

definition qmi_requestEnterSimPin :: "qmi \<Rightarrow> string \<Rightarrow> (int \<times> qmi) option" where
  "qmi_requestEnterSimPin w pin = on_answer
     (if s_9x07 w \<noteq> 0 then qmi_exchange QMUX_TYPE_UIM 0x0026 (UimVerifyPinReqSend pin) w
      else qmi_exchange QMUX_TYPE_DMS 0x0028 (DmsUIMVerifyPinReqSend pin) w)
     just_err (\<lambda>_ w. Some (0, w))"

section \<open>Version, radio power, loop-back\<close>

text \<open>\<open>uchar2char\<close>: at most \<open>n - 1\<close> bytes, read back as a string up to the first zero.\<close>

definition uchar2char :: "nat \<Rightarrow> bytes \<Rightarrow> string" where
  "uchar2char n s = takeWhile (\<lambda>c. c \<noteq> CHR 0x00) (map (\<lambda>b. char_of (unat b)) (take (n - 1) s))"

text \<open>\<open>uchar2char\<close> on the value of a TLV whose length may lie.\<close>

definition tlv_string :: "nat \<Rightarrow> bytes \<Rightarrow> nat \<Rightarrow> string option" where
  "tlv_string n m pos = do { l \<leftarrow> tlv_len m pos; v \<leftarrow> tlvn m pos 0 (min (n - 1) (unat l)); Some (uchar2char n v) }"

definition qmi_requestBaseBandVersion :: "qmi \<Rightarrow> profile \<Rightarrow> (int \<times> profile \<times> qmi) option" where
  "qmi_requestBaseBandVersion w p = on_answer (qmi_exchange QMUX_TYPE_DMS 0x0023 (body []) w) (\<lambda>err w. (err, p, w))
     (\<lambda>m w. do {
        v \<leftarrow> with_tlv m 0x01 (\<lambda>pos. do { l \<leftarrow> tlv_len m pos; (if l = 0 then Some (BaseBandVersion p) else tlv_string 64 m pos) });
        Some (0, p\<lparr>BaseBandVersion := or_old v (BaseBandVersion p)\<rparr>, w) })"

definition DMS_OP_MODE_ONLINE :: byte where "DMS_OP_MODE_ONLINE = 0"
definition DMS_OP_MODE_LOW_POWER :: byte where "DMS_OP_MODE_LOW_POWER = 1"

definition requestRadioPower :: "qmi \<Rightarrow> int \<Rightarrow> (int \<times> qmi) option" where
  "requestRadioPower w state = on_answer
     (qmi_exchange QMUX_TYPE_DMS 0x002E (DmsSetOperatingModeReq (if state \<noteq> 0 then DMS_OP_MODE_ONLINE else DMS_OP_MODE_LOW_POWER)) w)
     just_err
     (\<lambda>_ w. on_answer (qmi_exchange QMUX_TYPE_UIM (if state \<noteq> 0 then 0x0031 else 0x0030) (UimSetCardSlotReq 0x01) w)
        just_err (\<lambda>_ w. Some (0, w)))"

definition qmi_requestSetLoopBackState :: "qmi \<Rightarrow> int \<Rightarrow> int \<Rightarrow> (int \<times> qmi) option" where
  "qmi_requestSetLoopBackState w state factor = on_answer
     (qmi_exchange QMUX_TYPE_WDS_ADMIN 0x002F (WdaSetLoopBackReq (word_of_int state) (word_of_int factor)) w)
     just_err (\<lambda>_ w. Some (0, w))"

section \<open>Reading a message made of TLVs\<close>

definition holds_at :: "bytes \<Rightarrow> nat \<Rightarrow> bytes \<Rightarrow> bool" where
  "holds_at m pos v \<longleftrightarrow> tlv_len m pos = Some (of_nat (length v)) \<and> rdn m (pos + 3) (length v) = Some v"

lemma rdn_rd8: "rdn m a n = Some v \<Longrightarrow> i < n \<Longrightarrow> rd8 m (a + i) = Some (v ! i)"
  by (auto simp: rdn_def rd8_def split: if_splits)

lemma rdn_part: "rdn m a n = Some v \<Longrightarrow> i + k \<le> n \<Longrightarrow> rdn m (a + i) k = Some (take k (drop i v))"
proof -
  assume a: "rdn m a n = Some v" and ik: "i + k \<le> n"
  then have v: "v = take n (drop a m)" "a + n \<le> length m" by (auto simp: rdn_def split: if_splits)
  have "take k (drop i v) = take k (drop (a + i) m)"
    using ik by (simp add: v(1) drop_take add.commute min_absorb1)
  then show ?thesis using v(2) ik by (simp add: rdn_def)
qed

lemma holds_at_byte: "holds_at m pos v \<Longrightarrow> i < length v \<Longrightarrow> tlv8 m pos i = Some (v ! i)"
  using rdn_rd8 [of m "pos + 3" "length v" v i] by (simp add: holds_at_def tlv8_def)

lemma holds_at_string:
  assumes "holds_at m pos v" "length v < 65536"
  shows "tlv_string n m pos = Some (uchar2char n v)"
proof -
  define k where "k = min (n - 1) (length v)"
  have "rdn m (pos + 3) k = Some (take k v)"
    using rdn_part [of m "pos + 3" "length v" v 0 k] assms(1) by (simp add: holds_at_def k_def)
  moreover have "uchar2char n (take k v) = uchar2char n v"
    by (cases "n - 1 \<le> length v") (simp_all add: uchar2char_def k_def)
  ultimately show ?thesis
    using assms by (simp add: holds_at_def tlv_string_def tlvn_def unat_u16_of_nat k_def [symmetric] One_nat_def [symmetric] del: One_nat_def)
qed

lemma find_tlv:
  assumes "length (tlv_bytes ts) < 65536"
  shows "case map_of ts t of
      None \<Rightarrow> GetTLV (qmi_frame q c f tid ty (tlv_bytes ts)) (unat t) = Some None
    | Some v \<Rightarrow> \<exists>pos. GetTLV (qmi_frame q c f tid ty (tlv_bytes ts)) (unat t) = Some (Some pos) \<and>
        holds_at (qmi_frame q c f tid ty (tlv_bytes ts)) pos v"
proof -
  let ?m = "qmi_frame q c f tid ty (tlv_bytes ts)"
  have r: "do { p \<leftarrow> GetTLV ?m (unat t);
     (case p of None \<Rightarrow> Some None
      | Some pos \<Rightarrow> do { l \<leftarrow> tlv_len ?m pos; v \<leftarrow> tlvn ?m pos 0 (unat l); Some (Some v) }) } = Some (map_of ts t)"
    using get_tlv_loop_value [OF refl assms, of "qmi_head q c f tid ty (length (tlv_bytes ts))" t 0]
    unfolding length_head by (simp only: GetTLV_def qmi_frame_def head_fields bind.bind_lunit MSG_TLVS_def)
  then obtain p where p: "GetTLV ?m (unat t) = Some p" by (cases "GetTLV ?m (unat t)") auto
  show ?thesis
  proof (cases p)
    case None
    with r p show ?thesis by (cases "map_of ts t") simp_all
  next
    case (Some pos)
    from r p Some have "do { l \<leftarrow> tlv_len ?m pos; v \<leftarrow> tlvn ?m pos 0 (unat l); Some (Some v) } = Some (map_of ts t)"
      by simp
    note steps = this
    obtain l where l: "tlv_len ?m pos = Some l" using steps by (cases "tlv_len ?m pos") simp_all
    obtain v where v: "tlvn ?m pos 0 (unat l) = Some v" using steps l by (cases "tlvn ?m pos 0 (unat l)") simp_all
    have "map_of ts t = Some v" using steps l v by simp
    note l v this
    moreover from this(2) have "length v = unat l" by (auto simp: tlvn_def dest: rdn_length)
    ultimately show ?thesis using p Some
      by (auto simp: holds_at_def tlvn_def word_unat_eq_iff unsigned_of_nat)
  qed
qed

text \<open>A TLV that is not there, and one that is.\<close>

lemma with_tlv_absent:
  assumes "length (tlv_bytes ts) < 65536" "map_of ts t = None"
  shows "with_tlv (qmi_frame q c f tid ty (tlv_bytes ts)) (unat t) g = Some None"
  using find_tlv [OF assms(1), of q c f tid ty t] assms(2) by (simp add: with_tlv_def)

lemma with_tlv_present:
  assumes "length (tlv_bytes ts) < 65536" "map_of ts t = Some v"
    "\<And>pos. holds_at (qmi_frame q c f tid ty (tlv_bytes ts)) pos v \<Longrightarrow> g pos = Some r"
  shows "with_tlv (qmi_frame q c f tid ty (tlv_bytes ts)) (unat t) g = Some (Some r)"
  using find_tlv [OF assms(1), of q c f tid ty t] assms(2,3) by (auto simp: with_tlv_def)

lemma map_of_length: "map_of ts t = Some v \<Longrightarrow> length v \<le> length (tlv_bytes ts)"
  by (induction ts) (auto split: if_splits)

lemma with_tlv_byte:
  assumes "length (tlv_bytes ts) < 65536" "map_of ts t = Some v" "i < length v"
  shows "with_tlv (qmi_frame q c f tid ty (tlv_bytes ts)) (unat t) (\<lambda>pos. tlv8 (qmi_frame q c f tid ty (tlv_bytes ts)) pos i) = Some (Some (v ! i))"
  by (rule with_tlv_present [OF assms(1,2)]) (rule holds_at_byte [OF _ assms(3)])

lemma with_tlv_string:
  assumes "length (tlv_bytes ts) < 65536"
  shows "with_tlv (qmi_frame q c f tid ty (tlv_bytes ts)) (unat t) (tlv_string n (qmi_frame q c f tid ty (tlv_bytes ts))) =
    Some (map_option (uchar2char n) (map_of ts t))"
proof (cases "map_of ts t")
  case (Some v)
  then have "length v < 65536" using map_of_length [OF Some] assms by simp
  then show ?thesis using with_tlv_present [OF assms Some holds_at_string] Some by simp
qed (simp add: with_tlv_absent [OF assms])

text \<open>The result of an answer whose first TLV says so.\<close>

lemma result_fields:
  "mux_result (qmi_frame q c f tid ty (tlv 0x02 (le16 r @ le16 e) @ ys)) = Some r"
  "mux_error (qmi_frame q c f tid ty (tlv 0x02 (le16 r @ le16 e) @ ys)) = Some e"
proof -
  obtain n where m: "qmi_frame q c f tid ty (tlv 0x02 (le16 r @ le16 e) @ ys) =
      qmi_head q c f tid ty n @ [0x02] @ le16 4 @ le16 r @ le16 e @ ys"
    by (simp add: qmi_frame_def tlv_def)
  show "mux_result (qmi_frame q c f tid ty (tlv 0x02 (le16 r @ le16 e) @ ys)) = Some r"
    "mux_error (qmi_frame q c f tid ty (tlv 0x02 (le16 r @ le16 e) @ ys)) = Some e"
    using rd16_at [of 16 "qmi_head q c f tid ty n @ [0x02] @ le16 4" r "le16 e @ ys"]
      rd16_at [of 18 "qmi_head q c f tid ty n @ [0x02] @ le16 4 @ le16 r" e ys]
    by (simp_all add: mux_result_def mux_error_def m)
qed

lemma uchar2char_str_bytes:
  assumes "length s < n" "CHR 0x00 \<notin> set s"
  shows "uchar2char n (str_bytes s) = s"
proof -
  have "map (\<lambda>b. char_of (unat b)) (str_bytes s) = s"
    by (simp add: str_bytes_def ord_of_def comp_def unsigned_of_nat take_bit_nat_eq_self)
  moreover have "take (n - 1) (str_bytes s) = str_bytes s" using assms by (simp add: str_bytes_def)
  ultimately show ?thesis using assms(2) by (auto simp: uchar2char_def takeWhile_eq_all_conv)
qed

end
