(* ===== verification/Qmi_Reg.thy ===== *)
theory Qmi_Reg
  imports Qmi_Setup
begin

text \<open>
  Network registration over QMI (\<^verbatim>\<open>quectel_cm_5G/src/QMIThread.c\<close>): \<open>requestRegistrationState\<close>, with
  \<open>requestRegistrationState2\<close> for modems from the MDM9x07 on, the home network, and the CDMA country
  and network codes. What is written to the log (codes, attachment, data class) is kept in
  \<open>reg_report\<close>.
\<close>

section \<open>CDMA codes\<close>

text \<open>The conversions; \<open>buf\<close> never gets below ten where ten is taken from it.\<close>

definition cdma_digit :: "nat \<Rightarrow> nat \<times> nat" where
  "cdma_digit buf = (let d = buf mod 10 in (d, if d = 0 then (buf - 10) div 10 else buf div 10))"

definition quectel_convert_cdma_mcc_2_ascii_mcc :: "u16 \<Rightarrow> u16" where
  "quectel_convert_cdma_mcc_2_ascii_mcc mcc =
     (if mcc = 0x3FF then 3
      else case cdma_digit (unat mcc + 111) of (d3, buf) \<Rightarrow> (case cdma_digit buf of (d2, buf) \<Rightarrow>
        let d1 = (if buf = 10 then 0 else buf)
        in if d1 < 10 \<and> d2 < 10 \<and> d3 < 10 then of_nat (d1 * 100 + d2 * 10 + d3) else 0))"

definition quectel_convert_cdma_mnc_2_ascii_mnc :: "u16 \<Rightarrow> u16" where
  "quectel_convert_cdma_mnc_2_ascii_mnc imsi_11_12 =
     (if imsi_11_12 = 0x7F then 7
      else case cdma_digit (unat imsi_11_12 + 11) of (d2, buf) \<Rightarrow>
        let d1 = (if buf = 10 then 0 else buf)
        in if d1 < 10 \<and> d2 < 10 then of_nat (d1 * 10 + d2) else 0)"

section \<open>The home network\<close>

text \<open>Both callers pass null for the system numbers, so that TLV is only searched for.\<close>

definition requestGetHomeNetwork :: "qmi \<Rightarrow> (int \<times> u16 \<times> u16 \<times> qmi) option" where
  "requestGetHomeNetwork w = on_answer (qmi_exchange QMUX_TYPE_NAS 0x0025 (body []) w) (\<lambda>err w. (err, 0, 0, w))
     (\<lambda>m w. do {
        h \<leftarrow> with_tlv m 0x01 (\<lambda>pos. do { mcc \<leftarrow> tlv16 m pos 0; mnc \<leftarrow> tlv16 m pos 2; Some (mcc, mnc) });
        _ \<leftarrow> GetTLV m 0x10;
        (case or_old h (0, 0) of (mcc, mnc) \<Rightarrow> Some (0, mcc, mnc, w)) })"

text \<open>The codes of the home network in place of those known so far.\<close>

definition home_codes :: "u16 \<Rightarrow> u16 \<Rightarrow> qmi \<Rightarrow> (u16 \<times> u16 \<times> qmi) option" where
  "home_codes mcc mnc w = do {
     (err, cmcc, cmnc, w) \<leftarrow> requestGetHomeNetwork w;
     Some (if err = 0 \<and> cmcc \<noteq> 0
       then (quectel_convert_cdma_mcc_2_ascii_mcc cmcc, quectel_convert_cdma_mnc_2_ascii_mnc cmnc, w)
       else (mcc, mnc, w)) }"

section \<open>Data classes\<close>

definition WWAN_DATA_CLASS_GPRS :: u32 where "WWAN_DATA_CLASS_GPRS = 0x1"
definition WWAN_DATA_CLASS_EDGE :: u32 where "WWAN_DATA_CLASS_EDGE = 0x2"
definition WWAN_DATA_CLASS_UMTS :: u32 where "WWAN_DATA_CLASS_UMTS = 0x4"
definition WWAN_DATA_CLASS_HSDPA :: u32 where "WWAN_DATA_CLASS_HSDPA = 0x8"
definition WWAN_DATA_CLASS_HSUPA :: u32 where "WWAN_DATA_CLASS_HSUPA = 0x10"
definition WWAN_DATA_CLASS_LTE :: u32 where "WWAN_DATA_CLASS_LTE = 0x20"
definition WWAN_DATA_CLASS_5G_NSA :: u32 where "WWAN_DATA_CLASS_5G_NSA = 0x40"
definition WWAN_DATA_CLASS_5G_SA :: u32 where "WWAN_DATA_CLASS_5G_SA = 0x80"
definition WWAN_DATA_CLASS_1XRTT :: u32 where "WWAN_DATA_CLASS_1XRTT = 0x10000"
definition WWAN_DATA_CLASS_1XEVDO :: u32 where "WWAN_DATA_CLASS_1XEVDO = 0x20000"
definition WWAN_DATA_CLASS_1XEVDO_REVA :: u32 where "WWAN_DATA_CLASS_1XEVDO_REVA = 0x40000"
definition WWAN_DATA_CLASS_1XEVDV :: u32 where "WWAN_DATA_CLASS_1XEVDV = 0x80000"
definition WWAN_DATA_CLASS_3XRTT :: u32 where "WWAN_DATA_CLASS_3XRTT = 0x100000"
definition WWAN_DATA_CLASS_1XEVDO_REVB :: u32 where "WWAN_DATA_CLASS_1XEVDO_REVB = 0x200000"
definition WWAN_DATA_CLASS_UMB :: u32 where "WWAN_DATA_CLASS_UMB = 0x400000"
definition WWAN_DATA_CLASS_CUSTOM :: u32 where "WWAN_DATA_CLASS_CUSTOM = 0x80000000"

lemmas data_class_defs = WWAN_DATA_CLASS_GPRS_def WWAN_DATA_CLASS_EDGE_def WWAN_DATA_CLASS_UMTS_def
  WWAN_DATA_CLASS_HSDPA_def WWAN_DATA_CLASS_HSUPA_def WWAN_DATA_CLASS_LTE_def WWAN_DATA_CLASS_5G_NSA_def
  WWAN_DATA_CLASS_5G_SA_def WWAN_DATA_CLASS_1XRTT_def WWAN_DATA_CLASS_1XEVDO_def WWAN_DATA_CLASS_1XEVDO_REVA_def
  WWAN_DATA_CLASS_1XEVDV_def WWAN_DATA_CLASS_3XRTT_def WWAN_DATA_CLASS_1XEVDO_REVB_def WWAN_DATA_CLASS_UMB_def
  WWAN_DATA_CLASS_CUSTOM_def

definition class2str :: "(u32 \<times> string) list" where
  "class2str = [(0, ''UNKNOWN''), (WWAN_DATA_CLASS_GPRS, ''GPRS''), (WWAN_DATA_CLASS_EDGE, ''EDGE''),
     (WWAN_DATA_CLASS_UMTS, ''UMTS''), (WWAN_DATA_CLASS_HSDPA, ''HSDPA''), (WWAN_DATA_CLASS_HSUPA, ''HSUPA''),
     (WWAN_DATA_CLASS_LTE, ''LTE''), (WWAN_DATA_CLASS_5G_NSA, ''5G_NSA''), (WWAN_DATA_CLASS_5G_SA, ''5G_SA''),
     (WWAN_DATA_CLASS_1XRTT, ''1XRTT''), (WWAN_DATA_CLASS_1XEVDO, ''1XEVDO''),
     (WWAN_DATA_CLASS_1XEVDO_REVA, ''1XEVDO_REVA''), (WWAN_DATA_CLASS_1XEVDV, ''1XEVDV''),
     (WWAN_DATA_CLASS_3XRTT, ''3XRTT''), (WWAN_DATA_CLASS_1XEVDO_REVB, ''1XEVDO_REVB''),
     (WWAN_DATA_CLASS_UMB, ''UMB''), (WWAN_DATA_CLASS_CUSTOM, ''CUSTOM'')]"

definition wwan_data_class2str :: "u32 \<Rightarrow> string" where
  "wwan_data_class2str c = (case map_of class2str c of None \<Rightarrow> ''UNKNOWN'' | Some s \<Rightarrow> s)"

text \<open>The first class of a list that a set of classes has.\<close>

fun first_class :: "u32 \<Rightarrow> u32 list \<Rightarrow> u32 option" where
  "first_class caps [] = None"
| "first_class caps (c # cs) = (if caps AND c \<noteq> 0 then Some c else first_class caps cs)"

definition cdma_classes :: "u32 list" where
  "cdma_classes = [WWAN_DATA_CLASS_1XEVDO_REVB, WWAN_DATA_CLASS_1XEVDO_REVA, WWAN_DATA_CLASS_1XEVDO,
     WWAN_DATA_CLASS_1XRTT, WWAN_DATA_CLASS_3XRTT, WWAN_DATA_CLASS_UMB]"

definition gsm_classes :: "u32 list" where
  "gsm_classes = [WWAN_DATA_CLASS_5G_SA, WWAN_DATA_CLASS_5G_NSA, WWAN_DATA_CLASS_LTE, WWAN_DATA_CLASS_HSDPA,
     WWAN_DATA_CLASS_HSUPA, WWAN_DATA_CLASS_UMTS, WWAN_DATA_CLASS_EDGE, WWAN_DATA_CLASS_GPRS]"

text \<open>Three digits, ended by the byte \<open>0xFF\<close> where there are fewer.\<close>

definition char2ushort :: "bytes \<Rightarrow> u16" where
  "char2ushort s = word_of_int (c_atoi (map (\<lambda>b. char_of (unat b)) (takeWhile (\<lambda>b. b \<noteq> 0xFF \<and> b \<noteq> 0) s)))"

section \<open>The system information\<close>

datatype device_class = DEVICE_CLASS_UNKNOWN | DEVICE_CLASS_CDMA | DEVICE_CLASS_GSM

text \<open>The locals of \<open>requestRegistrationState2\<close>; an additional field of the LTE system is there only if
  its TLV was seen.\<close>

record sys_info =
  si_ps :: byte
  si_mcc :: u16
  si_mnc :: u16
  is_lte :: bool
  DeviceClass :: device_class
  DataCapList :: u32
  pDataCapStr :: string
  endc_available :: "byte option"
  restrict_dcnr :: "byte option"

definition sys_info_zero :: sys_info where
  "sys_info_zero = \<lparr>si_ps = 0, si_mcc = 0, si_mnc = 0, is_lte = False, DeviceClass = DEVICE_CLASS_UNKNOWN,
     DataCapList = 0, pDataCapStr = ''UNKNOW'', endc_available = None, restrict_dcnr = None\<rparr>"

text \<open>A service that is there (status 2).\<close>

definition in_service :: "nat \<Rightarrow> sys_info \<Rightarrow> qmi \<Rightarrow> sys_info \<times> qmi" where
  "in_service t s w =
     (if t = 0x10 then
        (s\<lparr>DataCapList := WWAN_DATA_CLASS_1XRTT OR WWAN_DATA_CLASS_1XEVDO OR WWAN_DATA_CLASS_1XEVDO_REVA OR
             WWAN_DATA_CLASS_1XEVDV OR WWAN_DATA_CLASS_1XEVDO_REVB,
           DeviceClass := DEVICE_CLASS_CDMA\<rparr>, w\<lparr>s_is_cdma := \<not> is_lte s\<rparr>)
      else if t = 0x11 then
        (s\<lparr>DataCapList := WWAN_DATA_CLASS_3XRTT OR WWAN_DATA_CLASS_UMB, DeviceClass := DEVICE_CLASS_CDMA\<rparr>,
         w\<lparr>s_is_cdma := \<not> is_lte s\<rparr>)
      else if t = 0x12 then
        (s\<lparr>DataCapList := WWAN_DATA_CLASS_GPRS OR WWAN_DATA_CLASS_EDGE, DeviceClass := DEVICE_CLASS_GSM\<rparr>, w)
      else if t = 0x13 then (s\<lparr>DataCapList := WWAN_DATA_CLASS_UMTS, DeviceClass := DEVICE_CLASS_GSM\<rparr>, w)
      else if t = 0x14 then
        (s\<lparr>DataCapList := WWAN_DATA_CLASS_LTE, DeviceClass := DEVICE_CLASS_GSM, is_lte := True\<rparr>, w\<lparr>s_is_cdma := False\<rparr>)
      else if t = 0x4A then
        (s\<lparr>DataCapList := DataCapList s OR WWAN_DATA_CLASS_5G_SA, DeviceClass := DEVICE_CLASS_GSM, is_lte := True\<rparr>,
         w\<lparr>s_is_cdma := False\<rparr>)
      else (s\<lparr>pDataCapStr := ''TD-SCDMA''\<rparr>, w))"

text \<open>Attached to the packet domain, as a system's TLV says.\<close>

definition ps_attached :: "nat \<Rightarrow> sys_info \<Rightarrow> qmi \<Rightarrow> sys_info \<times> qmi" where
  "ps_attached t s w =
     (if t = 0x15 \<or> t = 0x16 then (s\<lparr>si_ps := 1\<rparr>, w\<lparr>s_is_cdma := \<not> is_lte s\<rparr>)
      else if t = 0x19 then (s\<lparr>si_ps := 1, is_lte := True\<rparr>, w\<lparr>s_is_cdma := False\<rparr>)
      else (s\<lparr>si_ps := 1\<rparr>, w))"

definition domain_step :: "bytes \<Rightarrow> nat \<Rightarrow> nat \<Rightarrow> sys_info \<Rightarrow> qmi \<Rightarrow> (sys_info \<times> qmi) option" where
  "domain_step m pos t s w = do {
     valid \<leftarrow> tlv8 m pos 0;
     (if valid \<noteq> 1 then Some (s, w)
      else do { dom \<leftarrow> tlv8 m pos 1; Some (if dom AND 2 \<noteq> 0 then ps_attached t s w else (s, w)) }) }"

definition network_step :: "bytes \<Rightarrow> nat \<Rightarrow> nat \<Rightarrow> sys_info \<Rightarrow> sys_info option" where
  "network_step m pos at s = do {
     valid \<leftarrow> rd8 m (pos + at);
     (if valid \<noteq> 1 then Some s
      else do {
        mcc \<leftarrow> rdn m (pos + at + 1) 3; mnc \<leftarrow> rdn m (pos + at + 4) 3;
        Some (s\<lparr>si_mcc := char2ushort mcc, si_mnc := char2ushort mnc\<rparr>) }) }"

definition hdr_step :: "bytes \<Rightarrow> nat \<Rightarrow> sys_info \<Rightarrow> qmi \<Rightarrow> (sys_info \<times> qmi) option" where
  "hdr_step m pos s w = do {
     (s, w) \<leftarrow> domain_step m pos 0x16 s w;
     w \<leftarrow> (if si_ps s = 0 then Some w else do {
       valid \<leftarrow> rd8 m (pos + 13);
       (if valid \<noteq> 1 then Some w
        else do { h \<leftarrow> rd8 m (pos + 14); Some (if h = 3 then w\<lparr>s_hdr_personality := 2\<rparr> else w) }) });
     (mcc, mnc, w) \<leftarrow> home_codes (si_mcc s) (si_mnc s) w;
     Some (s\<lparr>si_mcc := mcc, si_mnc := mnc\<rparr>, w) }"

definition system_tlvs :: "nat list" where "system_tlvs = [0x15, 0x17, 0x18, 0x19, 0x25, 0x4B]"
definition service_tlvs :: "nat list" where "service_tlvs = [0x10, 0x11, 0x12, 0x13, 0x14, 0x24, 0x4A]"

text \<open>One TLV of the answer.\<close>

definition sys_info_tlv :: "bytes \<Rightarrow> nat \<Rightarrow> nat \<Rightarrow> sys_info \<Rightarrow> qmi \<Rightarrow> (sys_info \<times> qmi) option" where
  "sys_info_tlv m pos t s w =
     (if t \<in> set service_tlvs
      then do { st \<leftarrow> tlv8 m pos 0; Some (if st = 2 then in_service t s w else (s, w)) }
      else if t = 0x4E then do { v \<leftarrow> tlv8 m pos 0; Some (s\<lparr>endc_available := Some v\<rparr>, w) }
      else if t = 0x4F then do { v \<leftarrow> tlv8 m pos 0; Some (s\<lparr>restrict_dcnr := Some v\<rparr>, w) }
      else if t = 0x16 then hdr_step m pos s w
      else if t \<in> set system_tlvs
      then do {
        (s, w) \<leftarrow> domain_step m pos t s w;
        s \<leftarrow> network_step m pos (if t = 0x15 then 38 else 22) s;
        Some (s, w) }
      else Some (s, w))"

text \<open>The loop over the TLVs. \<open>left\<close> is \<open>remainingLen\<close>, a \<open>LONG\<close>: it may become negative, which ends
  the loop.\<close>

function sys_info_loop :: "bytes \<Rightarrow> nat \<Rightarrow> int \<Rightarrow> sys_info \<Rightarrow> qmi \<Rightarrow> (sys_info \<times> qmi) option" where
  "sys_info_loop m pos remain s w =
     (if remain \<le> 0 then Some (s, w)
      else do {
        t \<leftarrow> rd8 m pos;
        (s, w) \<leftarrow> sys_info_tlv m pos (unat t) s w;
        l \<leftarrow> tlv_len m pos;
        sys_info_loop m (pos + unat l + 3) (remain - (int (unat l) + 3)) s w })"
  by pat_completeness auto
termination
proof (relation "measure (\<lambda>(m, pos, remain, s, w). nat remain)")
  fix m :: bytes and pos t :: nat and remain :: int and s s' :: sys_info and w w' :: qmi and b r l
  assume "\<not> remain \<le> 0"
  then have "nat (remain - (int (unat (l :: u16)) + 3)) < nat remain" by linarith
  then show "((m, pos + unat l + 3, remain - (int (unat l) + 3), s', w'), (m, pos, remain, s, w))
      \<in> measure (\<lambda>(m, pos, remain, s, w). nat remain)" by simp
qed simp

declare sys_info_loop.simps [simp del]

text \<open>After the loop: the dual connectivity with 5G, and the class for the log.\<close>

definition add_nsa :: "sys_info \<Rightarrow> sys_info" where
  "add_nsa s =
     (if DataCapList s AND WWAN_DATA_CLASS_LTE \<noteq> 0
      then case (endc_available s, restrict_dcnr s) of
          (Some e, Some r) \<Rightarrow> if e \<noteq> 0 \<and> r = 0 then s\<lparr>DataCapList := DataCapList s OR WWAN_DATA_CLASS_5G_NSA\<rparr> else s
        | _ \<Rightarrow> s
      else s)"

definition class_of :: "sys_info \<Rightarrow> qmi \<Rightarrow> string \<times> qmi" where
  "class_of s w =
     (if DeviceClass s = DEVICE_CLASS_CDMA
      then (if s_hdr_personality w = 2 then ''eHRPD''
            else case first_class (DataCapList s) cdma_classes of None \<Rightarrow> pDataCapStr s | Some c \<Rightarrow> wwan_data_class2str c, w)
      else case first_class (DataCapList s) gsm_classes of
          None \<Rightarrow> (pDataCapStr s, w)
        | Some c \<Rightarrow>
            (if c = WWAN_DATA_CLASS_HSDPA \<and> DataCapList s AND WWAN_DATA_CLASS_HSUPA \<noteq> 0 then ''HSDPA_HSUPA''
             else wwan_data_class2str c,
             if c = WWAN_DATA_CLASS_5G_SA \<or> c = WWAN_DATA_CLASS_5G_NSA then w\<lparr>s_5g_type := c\<rparr> else w))"

definition report :: "u16 \<Rightarrow> u16 \<Rightarrow> byte \<Rightarrow> string \<Rightarrow> qmi \<Rightarrow> qmi" where
  "report mcc mnc ps cls w = w\<lparr>reg_report := Some (mcc, mnc, ps, cls)\<rparr>"

definition requestRegistrationState2 :: "qmi \<Rightarrow> (int \<times> byte option \<times> qmi) option" where
  "requestRegistrationState2 w = on_answer (qmi_exchange QMUX_TYPE_NAS 0x004D (body []) w) (\<lambda>err w. (err, Some 0, w))
     (\<lambda>m w. do {
        len \<leftarrow> mux_length m;
        (s, w) \<leftarrow> sys_info_loop m MSG_TLVS (int (unat len)) sys_info_zero
           (w\<lparr>s_is_cdma := False, s_5g_type := 0, s_hdr_personality := 0\<rparr>);
        (let s = add_nsa s; (cls, w) = class_of s w
         in Some (0, Some (si_ps s), report (si_mcc s) (si_mnc s) (si_ps s) cls w)) })"

section \<open>Older modems\<close>

definition data_caps :: "byte \<Rightarrow> string" where
  "data_caps c =
     (case map_of [(0x01, ''GPRS''), (0x02, ''EDGE''), (0x03, ''HSDPA''), (0x04, ''HSUPA''), (0x05, ''UMTS''),
        (0x06, ''1XRTT''), (0x07, ''1XEVDO''), (0x08, ''1XEVDO_REVA''), (0x09, ''GPRS''), (0x0A, ''1XEVDO_REVB''),
        (0x0B, ''LTE''), (0x0C, ''HSDPA''), (0x0D, ''HSDPA'')] c of
        None \<Rightarrow> ''UNKNOW'' | Some s \<Rightarrow> s)"

definition data_cap_name :: "bytes \<Rightarrow> string option" where
  "data_cap_name m = do {
     r \<leftarrow> with_tlv m 0x11 (\<lambda>pos. do {
       n \<leftarrow> tlv8 m pos 0;
       (if n = 0 then Some ''UNKNOW''
        else do {
          c \<leftarrow> tlv8 m pos 1;
          (if n = 2 \<and> c = 0x06
           then do { d \<leftarrow> tlv8 m pos 2; Some (data_caps (if d = 0x08 \<or> d = 0x0A then d else c)) }
           else Some (data_caps c)) }) });
     Some (or_old r ''UNKNOW'') }"

text \<open>The serving system: registration, attachment, and the radio interface in use, if any.\<close>

definition serving_system :: "bytes \<Rightarrow> (byte \<times> byte option) option" where
  "serving_system m = do {
     r \<leftarrow> with_tlv m 0x01 (\<lambda>pos. do {
       reg \<leftarrow> tlv8 m pos 0;
       (if reg \<noteq> 0x01 then Some (0x02, None)
        else do {
          ps \<leftarrow> tlv8 m pos 2; used \<leftarrow> tlv8 m pos 4;
          (if used = 0 then Some (ps, None) else do { rif \<leftarrow> tlv8 m pos 5; Some (ps, Some rif) }) }) });
     Some (or_old r (0, None)) }"

definition cdma_codes :: "bytes \<Rightarrow> u16 \<Rightarrow> u16 \<Rightarrow> qmi \<Rightarrow> (u16 \<times> u16 \<times> qmi) option" where
  "cdma_codes m mcc mnc w = do {
     (mcc, mnc, w) \<leftarrow> home_codes mcc mnc (w\<lparr>s_is_cdma := True\<rparr>);
     h \<leftarrow> with_tlv m 0x23 (\<lambda>pos. tlv8 m pos 0);
     Some (mcc, mnc, w\<lparr>s_hdr_personality := (case h of None \<Rightarrow> 0 | Some h \<Rightarrow> uint h)\<rparr>) }"

definition registration_answer :: "bytes \<Rightarrow> qmi \<Rightarrow> (int \<times> byte option \<times> qmi) option" where
  "registration_answer m w = do {
     plmn \<leftarrow> with_tlv m 0x12 (\<lambda>pos. do { mcc \<leftarrow> tlv16 m pos 0; mnc \<leftarrow> tlv16 m pos 2; Some (mcc, mnc) });
     (ps, rif) \<leftarrow> serving_system m;
     cls \<leftarrow> data_cap_name m;
     (let (mcc, mnc) = or_old plmn (0, 0); cls = (if rif = Some 0x09 then ''TD-SCDMA'' else cls); w = w\<lparr>s_is_cdma := False\<rparr> in
      if rif = Some 0x01 \<or> rif = Some 0x02
      then do {
        (mcc, mnc, w) \<leftarrow> cdma_codes m mcc mnc w;
        Some (0, Some ps, report mcc mnc ps (if s_hdr_personality w = 2 then ''eHRPD'' else cls) w) }
      else Some (0, Some ps, report mcc mnc ps cls w)) }"

definition qmi_requestRegistrationState :: "qmi \<Rightarrow> (int \<times> byte option \<times> qmi) option" where
  "qmi_requestRegistrationState w =
     (if s_9x07 w \<noteq> 0 then requestRegistrationState2 w
      else on_answer (qmi_exchange QMUX_TYPE_NAS 0x0024 (body []) w) (\<lambda>err w. (err, None, w)) registration_answer)"

section \<open>CDMA codes are decimal digits\<close>

text \<open>A CDMA network codes a digit as itself, and 0 as 10, and takes 111 (11) from the number of three
  (two) digits.\<close>

definition cdma_code :: "nat \<Rightarrow> nat" where
  "cdma_code d = (if d = 0 then 10 else d)"

lemma cdma_digit_code: "d < 10 \<Longrightarrow> 0 < n \<Longrightarrow> cdma_digit (10 * n + cdma_code d) = (d, n)"
  by (auto simp: cdma_digit_def cdma_code_def)

text \<open>The conversion of a CDMA country code gives back its three decimal digits. For all
  digits, the code that a CDMA network uses for them is turned into the number they write; likewise for
  the two digits of a network code.
\<close>

theorem cdma_codes_decoded:
  assumes "d1 < 10" "d2 < 10" "d3 < 10"
  shows "quectel_convert_cdma_mcc_2_ascii_mcc (of_nat (100 * cdma_code d1 + 10 * cdma_code d2 + cdma_code d3 - 111)) =
      of_nat (100 * d1 + 10 * d2 + d3) \<and>
    quectel_convert_cdma_mnc_2_ascii_mnc (of_nat (10 * cdma_code d1 + cdma_code d2 - 11)) = of_nat (10 * d1 + d2)"
proof
  have c: "1 \<le> cdma_code d" "cdma_code d \<le> 10" if "d < 10" for d
    using that by (auto simp: cdma_code_def)
  have num: "(if cdma_code d = 10 then 0 else cdma_code d) = d" if "d < 10" for d
    using that by (simp add: cdma_code_def)
  let ?a = "100 * cdma_code d1 + 10 * cdma_code d2 + cdma_code d3"
  have a: "111 \<le> ?a" "?a \<le> 1110" using c [OF assms(1)] c [OF assms(2)] c [OF assms(3)] by linarith+
  have ua: "unat (of_nat (?a - 111) :: u16) = ?a - 111" by (rule unat_u16_of_nat) (use a in linarith)
  then have "(of_nat (?a - 111) :: u16) \<noteq> 0x3FF" using a by (auto simp: word_unat_eq_iff)
  moreover have "cdma_digit ?a = (d3, 10 * cdma_code d1 + cdma_code d2)"
    using cdma_digit_code [OF assms(3), of "10 * cdma_code d1 + cdma_code d2"] c [OF assms(1)] by (simp add: algebra_simps)
  moreover have "cdma_digit (10 * cdma_code d1 + cdma_code d2) = (d2, cdma_code d1)"
    using cdma_digit_code [OF assms(2), of "cdma_code d1"] c [OF assms(1)] by simp
  ultimately show "quectel_convert_cdma_mcc_2_ascii_mcc (of_nat (?a - 111)) = of_nat (100 * d1 + 10 * d2 + d3)"
    using ua a assms num [OF assms(1)] by (simp add: quectel_convert_cdma_mcc_2_ascii_mcc_def Let_def mult.commute)
  let ?b = "10 * cdma_code d1 + cdma_code d2"
  have b: "11 \<le> ?b" "?b \<le> 110" using c [OF assms(1)] c [OF assms(2)] by linarith+
  have ub: "unat (of_nat (?b - 11) :: u16) = ?b - 11" by (rule unat_u16_of_nat) (use b in linarith)
  then have "(of_nat (?b - 11) :: u16) \<noteq> 0x7F" using b by (auto simp: word_unat_eq_iff)
  moreover have "cdma_digit ?b = (d2, cdma_code d1)"
    using cdma_digit_code [OF assms(2), of "cdma_code d1"] c [OF assms(1)] by simp
  ultimately show "quectel_convert_cdma_mnc_2_ascii_mnc (of_nat (?b - 11)) = of_nat (10 * d1 + d2)"
    using ub b assms num [OF assms(1)] by (simp add: quectel_convert_cdma_mnc_2_ascii_mnc_def Let_def mult.commute)
qed

theorem cdma_codes_decoded_witness:
  "quectel_convert_cdma_mcc_2_ascii_mcc 359 = 460 \<and> quectel_convert_cdma_mnc_2_ascii_mnc 92 = 3"
  using cdma_codes_decoded [of 4 6 0] cdma_codes_decoded [of 0 3 0] by (simp add: cdma_code_def)

end
