(* ===== verification/Qmi_Call.thy ===== *)
theory Qmi_Call
  imports Qmi_Reg
begin

text \<open>
  Data calls and profiles over QMI (\<^verbatim>\<open>quectel_cm_5G/src/QMIThread.c\<close>): starting, querying and ending a
  call, its addresses, and the modem's profile; and the table \<open>qmi_request_ops\<close>.
\<close>

section \<open>Calls\<close>

definition wds_service :: "int \<Rightarrow> byte" where
  "wds_service fam = (if fam = IpFamilyV4 then QMUX_TYPE_WDS else QMUX_TYPE_WDS_IPV6)"

definition call_handle :: "int \<Rightarrow> qmi \<Rightarrow> u32" where
  "call_handle fam w = (if fam = IpFamilyV4 then WdsConnectionIPv4Handle w else WdsConnectionIPv6Handle w)"

definition set_handle :: "int \<Rightarrow> u32 \<Rightarrow> qmi \<Rightarrow> qmi" where
  "set_handle fam h w = (if fam = IpFamilyV4 then w\<lparr>WdsConnectionIPv4Handle := h\<rparr> else w\<lparr>WdsConnectionIPv6Handle := h\<rparr>)"

definition packet_status :: "bytes \<Rightarrow> byte option" where
  "packet_status m = do {
     r \<leftarrow> with_tlv m 0x01 (\<lambda>pos. do {
       st \<leftarrow> tlv8 m pos 0; l \<leftarrow> tlv_len m pos;
       (if l = 2 then do { again \<leftarrow> tlv8 m pos 1; Some (if again = 0x01 then QWDS_PKT_DATA_DISCONNECTED else st) }
        else Some st) });
     Some (or_old r QWDS_PKT_DATA_DISCONNECTED) }"

definition qmi_requestQueryDataCall :: "qmi \<Rightarrow> int \<Rightarrow> (int \<times> byte option \<times> qmi) option" where
  "qmi_requestQueryDataCall w fam = on_answer (qmi_exchange (wds_service fam) 0x0022 (body []) w) (\<lambda>err w. (err, None, w))
     (\<lambda>m w. do {
        st \<leftarrow> packet_status m;
        Some (0, Some st, if st = QWDS_PKT_DATA_DISCONNECTED then set_handle fam 0 w else w) })"

text \<open>The reasons a refused call carries go to the log; the function then reads the error number out of
  the answer it has just freed. \<open>freed\<close> is what it finds there.\<close>

definition refused_call :: "u16 \<Rightarrow> bytes \<Rightarrow> qmi \<Rightarrow> (int \<times> qmi) option" where
  "refused_call freed m w = do {
     _ \<leftarrow> with_tlv m 0x10 (\<lambda>pos. tlv16 m pos 0);
     _ \<leftarrow> with_tlv m 0x11 (\<lambda>pos. do { t \<leftarrow> tlv16 m pos 0; v \<leftarrow> tlv16 m pos 2; Some (t, v) });
     Some (uint freed, w) }"

definition setup_answer :: "u16 \<Rightarrow> int \<Rightarrow> int \<times> bytes option \<times> qmi \<Rightarrow> (int \<times> qmi) option" where
  "setup_answer freed fam x = (case x of (err, rsp, w) \<Rightarrow>
     (case rsp of None \<Rightarrow> Some (err, w)
      | Some m \<Rightarrow> if err < 0 then Some (err, w) else do {
          r \<leftarrow> mux_result m; e \<leftarrow> mux_error m;
          (if r \<noteq> 0 \<or> e \<noteq> 0 then refused_call freed m w
           else do { h \<leftarrow> rd32 m 23; Some (0, set_handle fam h w) }) }))"

definition qmi_requestSetupDataCall :: "u16 \<Rightarrow> qmi \<Rightarrow> profile \<Rightarrow> int \<Rightarrow> (int \<times> profile \<times> qmi) option" where
  "qmi_requestSetupDataCall freed w p fam = (let p = p\<lparr>curIpFamily := fam\<rparr> in do {
     x \<leftarrow> mux_request (wds_service fam) 0x0020 (WdsStartNwInterfaceReq (s_is_cdma w) (s_hdr_personality w) p) w;
     (err, w) \<leftarrow> setup_answer freed fam x;
     Some (err, p, w) })"

definition qmi_requestDeactivateDefaultPDP :: "qmi \<Rightarrow> profile \<Rightarrow> int \<Rightarrow> (int \<times> profile \<times> qmi) option" where
  "qmi_requestDeactivateDefaultPDP w p fam =
     (if (fam = IpFamilyV4 \<or> fam = IpFamilyV6) \<and> call_handle fam w = 0 then Some (0, p, w)
      else on_answer (qmi_exchange (wds_service fam) 0x0021 (WdsStopNwInterfaceReq (call_handle fam w)) w)
        (\<lambda>err w. (err, p, w)) (\<lambda>_ w. Some (0, p, set_handle fam 0 w)))"

section \<open>Addresses\<close>

definition ip6_value :: "bytes \<Rightarrow> nat \<Rightarrow> bytes option option" where
  "ip6_value m ty = with_tlv m ty (\<lambda>pos. tlvn m pos 0 16)"

definition ip6_prefixed :: "bytes \<Rightarrow> nat \<Rightarrow> (bytes \<times> byte) option option" where
  "ip6_prefixed m ty = with_tlv m ty (\<lambda>pos. do { a \<leftarrow> tlvn m pos 0 16; n \<leftarrow> tlv8 m pos 16; Some (a, n) })"

definition pcscf6 :: "bytes \<Rightarrow> profile \<Rightarrow> profile option" where
  "pcscf6 m p = do {
     r \<leftarrow> with_tlv m 0x2E (\<lambda>pos. do {
       n \<leftarrow> tlv8 m pos 0;
       (if n = 1 then do { a \<leftarrow> tlvn m pos 1 16; Some (p\<lparr>PCSCFIpv6Addr1 := a\<rparr>) }
        else if n = 2 then do { a \<leftarrow> tlvn m pos 1 16; b \<leftarrow> tlvn m pos 17 16; Some (p\<lparr>PCSCFIpv6Addr1 := a, PCSCFIpv6Addr2 := b\<rparr>) }
        else Some p) });
     Some (or_old r p) }"

definition pcscf4 :: "bytes \<Rightarrow> profile \<Rightarrow> profile option" where
  "pcscf4 m p = do {
     r \<leftarrow> with_tlv m 0x23 (\<lambda>pos. do {
       n \<leftarrow> tlv8 m pos 0;
       (if n = 1 then do { a \<leftarrow> tlv32 m pos 1; Some (p\<lparr>PCSCFIpv4Addr1 := a\<rparr>) }
        else if n = 2 then do { a \<leftarrow> tlv32 m pos 1; b \<leftarrow> tlv32 m pos 5; Some (p\<lparr>PCSCFIpv4Addr1 := a, PCSCFIpv4Addr2 := b\<rparr>) }
        else Some p) });
     Some (or_old r p) }"

definition ipv4_settings :: "bytes \<Rightarrow> ipv4_t \<Rightarrow> ipv4_t option" where
  "ipv4_settings m a = do {
     d1 \<leftarrow> tlv_value m 0x15; d2 \<leftarrow> tlv_value m 0x16; g \<leftarrow> tlv_value m 0x20; s \<leftarrow> tlv_value m 0x21; i \<leftarrow> tlv_value m 0x1E;
     Some (a\<lparr>DnsPrimary := or_old d1 (DnsPrimary a), DnsSecondary := or_old d2 (DnsSecondary a),
             Gateway := or_old g (Gateway a), SubnetMask := or_old s (SubnetMask a), Address := or_old i (Address a)\<rparr>) }"

definition ipv6_settings :: "bytes \<Rightarrow> ipv6_t \<Rightarrow> ipv6_t option" where
  "ipv6_settings m a = do {
     d1 \<leftarrow> ip6_value m 0x27; d2 \<leftarrow> ip6_value m 0x28; g \<leftarrow> ip6_prefixed m 0x26; i \<leftarrow> ip6_prefixed m 0x25;
     (let (ga, gn) = or_old g (Gateway6 a, PrefixLengthGateway a); (ia, n) = or_old i (Address6 a, PrefixLengthIPAddr a)
      in Some (a\<lparr>DnsPrimary6 := or_old d1 (DnsPrimary6 a), DnsSecondary6 := or_old d2 (DnsSecondary6 a),
             Gateway6 := ga, PrefixLengthGateway := gn, Address6 := ia, PrefixLengthIPAddr := n\<rparr>)) }"

definition address_answer :: "int \<Rightarrow> bytes \<Rightarrow> profile \<Rightarrow> profile option" where
  "address_answer fam m p = do {
     p \<leftarrow> pcscf6 m p; p \<leftarrow> pcscf4 m p;
     a4 \<leftarrow> ipv4_settings m (ipv4 p); a6 \<leftarrow> ipv6_settings m (ipv6 p);
     mtu \<leftarrow> tlv_value m 0x29;
     Some (p\<lparr>ipv4 := (if fam = IpFamilyV4 then a4\<lparr>Mtu := or_old mtu (Mtu a4)\<rparr> else a4),
             ipv6 := (if fam = IpFamilyV4 then a6 else a6\<lparr>Mtu6 := or_old mtu (Mtu6 a6)\<rparr>)\<rparr>) }"

definition clear_address :: "int \<Rightarrow> profile \<Rightarrow> profile" where
  "clear_address fam p = (if fam = IpFamilyV4 then p\<lparr>ipv4 := ipv4_zero\<rparr>
     else if fam = IpFamilyV6 then p\<lparr>ipv6 := ipv6_zero\<rparr> else p)"

definition qmi_requestGetIPAddress :: "qmi \<Rightarrow> profile \<Rightarrow> int \<Rightarrow> (int \<times> profile \<times> qmi) option" where
  "qmi_requestGetIPAddress w p fam = (let p = clear_address fam p in
     if (fam = IpFamilyV4 \<or> fam = IpFamilyV6) \<and> call_handle fam w = 0 then Some (0, p, w)
     else on_answer (qmi_exchange (wds_service fam) 0x002D WdsGetRuntimeSettingReq w) (\<lambda>err w. (err, p, w))
       (\<lambda>m w. do { p \<leftarrow> address_answer fam m p; Some (0, p, w) }))"

section \<open>The modem's profile\<close>

definition qmi_ipStr :: "int \<Rightarrow> string option" where
  "qmi_ipStr i = (if i = 0 then Some ''IPV4'' else if i = 1 then Some ''NULL'' else if i = 2 then Some ''IPV6''
     else if i = 3 then Some ''IPV4V6'' else None)"

definition same_profile :: "profile \<Rightarrow> bool" where
  "same_profile p \<longleftrightarrow> old_apn p = str_or_empty (apn p) \<and> old_user p = str_or_empty (user p) \<and>
     old_password p = str_or_empty (password p) \<and> old_iptype p = iptype p \<and> old_auth p = auth p"

definition qmi_requestSetProfile :: "qmi \<Rightarrow> profile \<Rightarrow> (int \<times> profile \<times> qmi) option" where
  "qmi_requestSetProfile w p = do {
     _ \<leftarrow> qmi_ipStr (iptype p);
     (if pdp p = 0 then Some (-1, p, w)
      else if same_profile p then Some (0, p, w)
      else on_answer (qmi_exchange QMUX_TYPE_WDS 0x0028 (WdsModifyProfileSettingsReq p) w)
        (\<lambda>err w. (err, p, w)) (\<lambda>_ w. Some (1, p, w))) }"

definition QMI_ERR_EXTENDED_INTERNAL :: u16 where "QMI_ERR_EXTENDED_INTERNAL = 0x51"

text \<open>The profile is created and asked for again as long as the modem does not know it. \<open>Inl\<close>: the
  function returns; \<open>Inr\<close>: the answer. A turn is used up each time, so the number of turns and one
  more is fuel enough.\<close>

primrec profile_query :: "nat \<Rightarrow> profile \<Rightarrow> qmi \<Rightarrow> answer option" where
  "profile_query 0 p w = None"
| "profile_query (Suc n) p w = do {
     (err, rsp, w) \<leftarrow> mux_request QMUX_TYPE_WDS 0x002B (WdsGetProfileSettingsReqSend p) w;
     unknown \<leftarrow> (case rsp of None \<Rightarrow> Some False
       | Some m \<Rightarrow> if err \<noteq> 0 then Some False
           else do { r \<leftarrow> mux_result m;
             (if r = 0 then Some False else do { e \<leftarrow> mux_error m; Some (e = QMI_ERR_EXTENDED_INTERNAL) }) });
     (if unknown
      then do {
        r \<leftarrow> qmi_exchange QMUX_TYPE_WDS 0x0027 (WdsCreateProfileSettingsReqSend p) w;
        (case r of Inl x \<Rightarrow> Some (Inl x) | Inr (_, w) \<Rightarrow> profile_query n p w) }
      else rsp_check (err, rsp, w)) }"

definition forget_profile :: "profile \<Rightarrow> profile" where
  "forget_profile p = p\<lparr>old_apn := [], old_user := [], old_password := [], old_auth := 0, old_iptype := 0,
     iptype := (if enable_ipv4 p \<and> enable_ipv6 p then 3 else if enable_ipv6 p then 2 else 0)\<rparr>"

definition profile_answer :: "bytes \<Rightarrow> profile \<Rightarrow> profile option" where
  "profile_answer m p = do {
     a \<leftarrow> with_tlv m 0x14 (tlv_string 64 m); u \<leftarrow> with_tlv m 0x1B (tlv_string 64 m); s \<leftarrow> with_tlv m 0x1C (tlv_string 64 m);
     au \<leftarrow> with_tlv m 0x1D (\<lambda>pos. tlv8 m pos 0); ip \<leftarrow> with_tlv m 0x11 (\<lambda>pos. tlv8 m pos 0);
     (let p = p\<lparr>old_apn := or_old a (old_apn p), old_user := or_old u (old_user p), old_password := or_old s (old_password p),
              old_auth := (case au of None \<Rightarrow> old_auth p | Some b \<Rightarrow> uint b),
              old_iptype := (case ip of None \<Rightarrow> old_iptype p | Some b \<Rightarrow> uint b)\<rparr>
      in do { _ \<leftarrow> qmi_ipStr (old_iptype p); Some p }) }"

definition qmi_requestGetProfile :: "qmi \<Rightarrow> profile \<Rightarrow> (int \<times> profile \<times> qmi) option" where
  "qmi_requestGetProfile w p = (let p = forget_profile p in
     if pdp p = 0 then Some (0, p, w)
     else on_answer (profile_query (length (turns w) + 1) p w) (\<lambda>err w. (err, p, w))
       (\<lambda>m w. do { p \<leftarrow> profile_answer m p; Some (0, p, w) }))"

section \<open>The table\<close>

definition qmi_request_ops :: "u16 \<Rightarrow> qmi request_ops" where
  "qmi_request_ops freed = \<lparr>
     rq_BaseBandVersion = Some qmi_requestBaseBandVersion,
     rq_SetEthMode = Some qmi_requestSetEthMode,
     rq_SetLoopBackState = Some qmi_requestSetLoopBackState,
     rq_GetSIMStatus = Some qmi_requestGetSIMStatus,
     rq_EnterSimPin = Some qmi_requestEnterSimPin,
     rq_SetProfile = Some qmi_requestSetProfile,
     rq_GetProfile = Some qmi_requestGetProfile,
     rq_RegistrationState = qmi_requestRegistrationState,
     rq_SetupDataCall = qmi_requestSetupDataCall freed,
     rq_QueryDataCall = qmi_requestQueryDataCall,
     rq_DeactivateDefaultPDP = qmi_requestDeactivateDefaultPDP,
     rq_GetIPAddress = qmi_requestGetIPAddress,
     rq_GetSignalInfo = None,
     rq_GetCellInfoList = None,
     rq_GetICCID = None,
     rq_GetIMSI = None,
     rq_GetCoexWWANState = None\<rparr>"

text \<open>A request that is answered: with a good result, and with a refusal.\<close>

definition result_tlv :: "u16 \<Rightarrow> u16 \<Rightarrow> bytes" where
  "result_tlv r e = tlv 0x02 (le16 r @ le16 e)"

definition wire_type :: "byte \<Rightarrow> byte" where
  "wire_type qtype = (if qtype = QMUX_TYPE_WDS_IPV6 then QMUX_TYPE_WDS else qtype)"

lemma exchange_answered:
  assumes "ready_for w qtype" "13 + max (length tlvs) n \<le> 256"
    "turns w = answering m (13 + int (length tlvs)) # ts"
    "m = qmi_frame (wire_type qtype) (qmiclientId w qtype) f (next_tid (mux_counter w)) ty' (result_tlv r e @ ys)"
    "length ys < 65517"
  shows "qmi_exchange qtype ty (tlvs, n) w = Some (if r = 0 \<and> e = 0
    then Inr (m, after_exchange w (on_wire w qtype ty tlvs) ts)
    else Inl (uint e, after_exchange w (on_wire w qtype ty tlvs) ts))"
proof -
  have "mux_request qtype ty (tlvs, n) w = Some (0, Some m, after_exchange w (on_wire w qtype ty tlvs) ts)"
    by (rule request_answered [OF assms(1-3) assms(4) [unfolded wire_type_def]]) (use assms(5) in \<open>simp add: result_tlv_def\<close>)
  then show ?thesis
    using result_fields [of "wire_type qtype" "qmiclientId w qtype" f "next_tid (mux_counter w)" ty' r e ys]
    by (simp add: qmi_exchange_def rsp_check_def assms(4) result_tlv_def)
qed

section \<open>Fuel\<close>

lemma request_turns: "mux_request qtype ty b w = Some (err, rsp, w') \<Longrightarrow> turns w' = tl (turns w)"
  by (auto simp: mux_request_def Let_def bind_eq_Some_conv dest!: send_turns)

lemma exchange_turns:
  assumes "qmi_exchange qtype ty b w = Some r"
  shows "case r of Inl (err, w') \<Rightarrow> turns w' = tl (turns w) | Inr (m, w') \<Rightarrow> turns w' = tl (turns w)"
proof -
  obtain err rsp w' where q: "mux_request qtype ty b w = Some (err, rsp, w')" and c: "rsp_check (err, rsp, w') = Some r"
    using assms by (cases "mux_request qtype ty b w") (auto simp: qmi_exchange_def)
  from request_turns [OF q] c show ?thesis
    by (auto simp: rsp_check_def bind_eq_Some_conv split: option.splits if_splits)
qed

text \<open>With no turn left the device cannot be written, so nothing is answered.\<close>

lemma no_turn_no_answer:
  assumes "turns w = []" "mux_request qtype ty b w = Some (err, rsp, w')"
  shows "rsp = None"
proof (rule ccontr)
  assume "rsp \<noteq> None"
  then obtain m req where "QmiThreadSendQMI req (w\<lparr>mux_counter := next_tid (mux_counter w)\<rparr>) = Some (err, Some m, w')"
    using assms(2) by (auto simp: mux_request_def Let_def bind_eq_Some_conv)
  from send_answer [OF this] assms(1) show False
    by (simp add: next_turn_def no_turn_def read_msgs_def)
qed



section \<open>Storing a profile\<close>

text \<open>The TLVs of the request that changes a profile, behind the one that names it.\<close>

definition stored_tlvs :: "profile \<Rightarrow> (byte \<times> bytes) list" where
  "stored_tlvs p = (0x11, [byte_of_int (iptype p)]) #
     (case apn p of None \<Rightarrow> [] | Some s \<Rightarrow> [(0x14, str_bytes s)]) @
     (case user p of None \<Rightarrow> [] | Some s \<Rightarrow> [(0x1B, str_bytes s)]) @
     (case password p of None \<Rightarrow> [] | Some s \<Rightarrow> [(0x1C, str_bytes s)]) @
     (if user p \<noteq> None \<and> password p \<noteq> None then [(0x1D, [byte_of_int (auth p)])] else [])"

lemma tlv_bytes_append [simp]: "tlv_bytes (xs @ ys) = tlv_bytes xs @ tlv_bytes ys"
  by (simp add: tlv_bytes_def)

lemma modify_tlvs: "fst (WdsModifyProfileSettingsReq p) = tlv 0x01 [0x00, byte_of_int (pdp p)] @ tlv_bytes (stored_tlvs p)"
  by (simp add: WdsModifyProfileSettingsReq_def stored_tlvs_def opt_tlv_def body_def Let_def split: option.split)

lemma map_of_stored:
  "map_of (stored_tlvs p) 0x11 = Some [byte_of_int (iptype p)]"
  "map_of (stored_tlvs p) 0x14 = map_option str_bytes (apn p)"
  "map_of (stored_tlvs p) 0x1B = map_option str_bytes (user p)"
  "map_of (stored_tlvs p) 0x1C = map_option str_bytes (password p)"
  "map_of (stored_tlvs p) 0x1D = (if user p \<noteq> None \<and> password p \<noteq> None then Some [byte_of_int (auth p)] else None)"
  by (simp_all add: stored_tlvs_def map_add_def split: option.split)

definition storable :: "string option \<Rightarrow> bool" where
  "storable s \<longleftrightarrow> (case s of None \<Rightarrow> True | Some t \<Rightarrow> length t < 64 \<and> CHR 0x00 \<notin> set t)"

lemma storable_string: "storable s \<Longrightarrow> or_old (map_option (uchar2char 64) (map_option str_bytes s)) [] = str_or_empty s"
  by (auto simp: storable_def str_or_empty_def uchar2char_str_bytes split: option.splits)

lemma stored_length: "storable (apn p) \<Longrightarrow> storable (user p) \<Longrightarrow> storable (password p) \<Longrightarrow> length (tlv_bytes (stored_tlvs p)) < 300"
  by (auto simp: stored_tlvs_def storable_def str_bytes_def split: option.splits)

lemma uint_byte_of_int: "0 \<le> i \<Longrightarrow> i < 256 \<Longrightarrow> uint (byte_of_int i) = i"
  by (simp add: byte_of_int_def unsigned_of_int take_bit_int_eq_self)

text \<open>Property C20: a profile is written to the modem once. If the modem keeps the TLVs that the request to
  change the profile carried and gives them back when it is asked for its profile, then what is read
  equals what was written, and the profile is not written again. This needs names below 64 characters,
  and an authentication other than 0 only beside a user and a password, as it is not sent otherwise.
\<close>

theorem profile_written_once:
  assumes p: "p = forget_profile p0" and pdp: "pdp p \<noteq> 0"
    and strings: "storable (apn p)" "storable (user p)" "storable (password p)"
    and auth: "0 \<le> auth p" "auth p < 256" "auth p = 0 \<or> user p \<noteq> None \<and> password p \<noteq> None"
    and stored: "fst (WdsModifyProfileSettingsReq p) = tlv 0x01 [0x00, byte_of_int (pdp p)] @ stored"
  shows "\<exists>p'. profile_answer (qmi_frame q c f tid 0x2B (result_tlv 0 0 @ stored)) (forget_profile p0) = Some p' \<and>
    qmi_requestSetProfile w p' = Some (0, p', w)"
proof -
  define ts where "ts = (0x02, le16 0 @ le16 0) # stored_tlvs p"
  let ?m = "qmi_frame q c f tid 0x2B (result_tlv 0 0 @ stored)"
  have m: "?m = qmi_frame q c f tid 0x2B (tlv_bytes ts)"
    using stored by (simp add: modify_tlvs ts_def result_tlv_def)
  have len: "length (tlv_bytes ts) < 65536"
    using stored_length [OF strings] by (simp add: ts_def)
  have get: "map_of ts 0x11 = Some [byte_of_int (iptype p)]" "map_of ts 0x14 = map_option str_bytes (apn p)"
    "map_of ts 0x1B = map_option str_bytes (user p)" "map_of ts 0x1C = map_option str_bytes (password p)"
    "map_of ts 0x1D = (if user p \<noteq> None \<and> password p \<noteq> None then Some [byte_of_int (auth p)] else None)"
    by (simp_all add: ts_def map_of_stored)
  note str = with_tlv_string [OF len, of q c f tid "0x2B" _ 64, folded m]
  have ip: "0 \<le> iptype p" "iptype p < 256" "iptype p \<in> {0, 2, 3}" by (auto simp: p forget_profile_def)
  have s: "with_tlv ?m 0x14 (tlv_string 64 ?m) = Some (map_option (uchar2char 64) (map_option str_bytes (apn p)))"
    "with_tlv ?m 0x1B (tlv_string 64 ?m) = Some (map_option (uchar2char 64) (map_option str_bytes (user p)))"
    "with_tlv ?m 0x1C (tlv_string 64 ?m) = Some (map_option (uchar2char 64) (map_option str_bytes (password p)))"
    using str [of "0x14"] str [of "0x1B"] str [of "0x1C"] get by simp_all
  have b: "with_tlv ?m 0x11 (\<lambda>pos. tlv8 ?m pos 0) = Some (Some (byte_of_int (iptype p)))"
    using with_tlv_byte [OF len get(1), of 0 q c f tid "0x2B", folded m] by simp
  have a: "with_tlv ?m 0x1D (\<lambda>pos. tlv8 ?m pos 0) =
      Some (if user p \<noteq> None \<and> password p \<noteq> None then Some (byte_of_int (auth p)) else None)"
    using with_tlv_byte [OF len, of "0x1D" "[byte_of_int (auth p)]" 0 q c f tid "0x2B", folded m]
      with_tlv_absent [OF len, of "0x1D" q c f tid "0x2B", folded m] get(5)
    by (cases "user p = None"; cases "password p = None") auto
  have old: "old_apn p = []" "old_user p = []" "old_password p = []" "old_auth p = 0" "old_iptype p = 0"
    by (simp_all add: p forget_profile_def)
  define p' where "p' = p\<lparr>old_apn := str_or_empty (apn p), old_user := str_or_empty (user p),
     old_password := str_or_empty (password p), old_auth := auth p, old_iptype := iptype p\<rparr>"
  have au: "(case if user p \<noteq> None \<and> password p \<noteq> None then Some (byte_of_int (auth p)) else None of
      None \<Rightarrow> 0 | Some b \<Rightarrow> uint b) = auth p"
    using auth(3) uint_byte_of_int [OF auth(1,2)] by (cases "user p = None"; cases "password p = None") auto
  have "qmi_ipStr (iptype p) \<noteq> None" using ip(3) by (auto simp: qmi_ipStr_def)
  then obtain n where n: "qmi_ipStr (iptype p) = Some n" by blast
  have "profile_answer ?m p = do { _ \<leftarrow> qmi_ipStr (iptype p); Some p' }"
    by (simp only: profile_answer_def s a b bind.bind_lunit Let_def old storable_string [OF strings(1)]
        storable_string [OF strings(2)] storable_string [OF strings(3)] au option.case uint_byte_of_int [OF ip(1,2)]
        p'_def) simp
  then have "profile_answer ?m p = Some p'" by (simp add: n)
  moreover have "qmi_requestSetProfile w p' = Some (0, p', w)"
    using ip(3) pdp by (auto simp: qmi_requestSetProfile_def same_profile_def p'_def qmi_ipStr_def)
  ultimately show ?thesis using p by blast
qed

theorem profile_written_once_witness:
  "\<exists>p'. profile_answer (qmi_frame 1 5 0x80 2 0x2B (result_tlv 0 0 @ tlv_bytes
       [(0x11, [0x03]), (0x14, str_bytes ''net''), (0x1B, str_bytes ''me''), (0x1C, str_bytes ''pw''), (0x1D, [0x02])]))
     (forget_profile (profile_zero\<lparr>apn := Some ''net'', user := Some ''me'', password := Some ''pw'', auth := 2,
        enable_ipv4 := True, enable_ipv6 := True, pdp := 1\<rparr>)) = Some p' \<and>
   qmi_requestSetProfile qmi_zero p' = Some (0, p', qmi_zero)"
  by (rule profile_written_once [OF refl])
     (simp_all add: forget_profile_def profile_zero_def storable_def WdsModifyProfileSettingsReq_def opt_tlv_def body_def
        byte_of_int_def)

section \<open>Calls that fail\<close>

definition start_body :: "qmi \<Rightarrow> profile \<Rightarrow> int \<Rightarrow> qmi_body" where
  "start_body w p fam = WdsStartNwInterfaceReq (s_is_cdma w) (s_hdr_personality w) (p\<lparr>curIpFamily := fam\<rparr>)"

text \<open>Property C36: when the thread that reads the device ends while the main loop waits for the answer to
  the request that starts a call (the modem hung up, or the program is told to quit), the request
  reports success: 0 comes back, although the modem has started nothing and the handle of the call is
  as it was.
\<close>

theorem cut_off_call_succeeds:
  assumes "ready_for w (wds_service fam)" "start_body w p fam = (tlvs, k)" "13 + max (length tlvs) k \<le> 256"
    "turns w = \<lparr>turn_before = [], turn_io = Writes (13 + int (length tlvs)), turn_after = e # es\<rparr> # ts"
    "e = Ev_Hup \<or> e = Ev_Quit"
  shows "\<exists>w'. qmi_requestSetupDataCall freed w p fam = Some (0, p\<lparr>curIpFamily := fam\<rparr>, w') \<and>
    call_handle fam w' = call_handle fam w \<and> \<not> cdc_wdm_open w'"
proof -
  obtain w' where "mux_request (wds_service fam) 0x20 (tlvs, k) w = Some (0, None, w')" "\<not> cdc_wdm_open w'"
      "qmi_vars w' = qmi_vars (w\<lparr>mux_counter := next_tid (mux_counter w)\<rparr>)"
    by (rule cut_off_request [OF assms(4) _ _ _ assms(5,1), of "(tlvs, k)"]) (use assms(3) in simp_all)
  moreover from this(3) have "call_handle fam w' = call_handle fam w" by (simp add: qmi_vars_def call_handle_def)
  ultimately show ?thesis
    using assms(2) by (simp add: qmi_requestSetupDataCall_def start_body_def setup_answer_def)
qed

text \<open>What a refused call returns is not the modem's error. The number is read out of the
  answer after it has been freed, so it is whatever that memory holds then; if this is zero, the refused
  call counts as made.
\<close>

theorem refused_call_returns_freed_memory:
  assumes "ready_for w (wds_service fam)" "start_body w p fam = (tlvs, k)" "13 + max (length tlvs) k \<le> 256"
    "turns w = answering m (13 + int (length tlvs)) # ts"
    "m = qmi_frame (wire_type (wds_service fam)) (qmiclientId w (wds_service fam)) f (next_tid (mux_counter w)) 0x20
       (result_tlv r e)" "r \<noteq> 0"
  shows "\<exists>w'. qmi_requestSetupDataCall freed w p fam = Some (uint freed, p\<lparr>curIpFamily := fam\<rparr>, w') \<and>
    call_handle fam w' = call_handle fam w"
proof -
  let ?w = "after_exchange w (on_wire w (wds_service fam) 0x20 tlvs) ts"
  have q: "mux_request (wds_service fam) 0x20 (tlvs, k) w = Some (0, Some m, ?w)"
    by (rule request_answered [OF assms(1,3,4) assms(5) [unfolded wire_type_def]]) (simp add: result_tlv_def)
  have res: "mux_result m = Some r" "mux_error m = Some e"
    using result_fields [of "wire_type (wds_service fam)" "qmiclientId w (wds_service fam)" f "next_tid (mux_counter w)" "0x20" r e "[]"]
    by (simp_all add: assms(5) result_tlv_def)
  have m: "m = qmi_frame (wire_type (wds_service fam)) (qmiclientId w (wds_service fam)) f (next_tid (mux_counter w)) 0x20
       (tlv_bytes [(0x02, le16 r @ le16 e)])"
    by (simp add: assms(5) result_tlv_def)
  have none: "with_tlv m (unat t) g = Some None" if "t \<noteq> 0x02" for t :: byte and g :: "nat \<Rightarrow> u16 option"
    using that unfolding m by (intro with_tlv_absent) simp_all
  have none2: "with_tlv m (unat t) g = Some None" if "t \<noteq> 0x02" for t :: byte and g :: "nat \<Rightarrow> (u16 \<times> u16) option"
    using that unfolding m by (intro with_tlv_absent) simp_all
  have "refused_call freed m v = Some (uint freed, v)" for v
    using none [of "0x10"] none2 [of "0x11"] by (simp add: refused_call_def)
  then have "setup_answer freed fam (0, Some m, ?w) = Some (uint freed, ?w)"
    using assms(6) by (simp add: setup_answer_def res)
  moreover have "call_handle fam ?w = call_handle fam w" by (simp add: after_exchange_def call_handle_def)
  ultimately show ?thesis
    using assms(2) q by (simp add: qmi_requestSetupDataCall_def start_body_def)
qed

theorem cut_off_call_succeeds_witness:
  "\<exists>w'. qmi_requestSetupDataCall 0 (qmi_ready [\<lparr>turn_before = [], turn_io = Writes 21, turn_after = [Ev_Hup]\<rparr>])
      profile_zero IpFamilyV4 = Some (0, profile_zero\<lparr>curIpFamily := IpFamilyV4\<rparr>, w') \<and>
    call_handle IpFamilyV4 w' = call_handle IpFamilyV4 (qmi_ready [\<lparr>turn_before = [], turn_io = Writes 21, turn_after = [Ev_Hup]\<rparr>]) \<and>
    \<not> cdc_wdm_open w'"
  by (rule cut_off_call_succeeds [where tlvs = "tlv 0x30 [1] @ tlv 0x19 [4]" and k = 8 and e = Ev_Hup and es = "[]" and ts = "[]"])
     (simp_all add: ready_for_def qmi_ready_def qmi_zero_def wds_service_def QMUX_TYPE_WDS_def QMUX_TYPE_CTL_def
        start_body_def WdsStartNwInterfaceReq_def start_nw_login_def profile_zero_def opt_tlv_def body_def byte_of_int_def
        IpFamilyV4_def)

theorem refused_call_returns_freed_memory_witness:
  "\<exists>w'. qmi_requestSetupDataCall 0 (qmi_ready [answering (qmi_frame 1 5 0x80 1 0x20 (result_tlv 1 0x0E)) 21])
      profile_zero IpFamilyV4 = Some (0, profile_zero\<lparr>curIpFamily := IpFamilyV4\<rparr>, w') \<and>
    call_handle IpFamilyV4 w' = call_handle IpFamilyV4 (qmi_ready [answering (qmi_frame 1 5 0x80 1 0x20 (result_tlv 1 0x0E)) 21])"
  using refused_call_returns_freed_memory [where w = "qmi_ready [answering (qmi_frame 1 5 0x80 1 0x20 (result_tlv 1 0x0E)) 21]"
      and fam = IpFamilyV4 and p = profile_zero and tlvs = "tlv 0x30 [1] @ tlv 0x19 [4]" and k = 8 and ts = "[]" and f = "0x80"
      and m = "qmi_frame 1 5 0x80 1 0x20 (result_tlv 1 0x0E)" and r = 1 and e = "0x0E" and freed = 0]
  by (simp add: ready_for_def qmi_ready_def qmi_zero_def wds_service_def wire_type_def QMUX_TYPE_WDS_def QMUX_TYPE_CTL_def
        QMUX_TYPE_WDS_IPV6_def start_body_def WdsStartNwInterfaceReq_def start_nw_login_def profile_zero_def opt_tlv_def
        body_def byte_of_int_def IpFamilyV4_def next_tid_def)

end
