(* ===== verification/Qmi_Wwan.thy ===== *)
theory Qmi_Wwan
  imports Qmi_Link
begin

text \<open>
  \<^verbatim>\<open>quectel_cm_5G/src/QmiWwanCM.c\<close>: the control messages that make the channel ready, get a
  client id for every service and give it back, and the device operations the main loop calls.
  A control message has its flags, transaction number, type and length at 6, 7, 8 and 10, and its
  TLVs from 12.
\<close>

section \<open>Control messages\<close>

definition next_ctl_tid :: "nat \<Rightarrow> nat" where
  "next_ctl_tid t = (if t + 1 > 0xFF then 1 else t + 1)"

definition ctl_frame :: "nat \<Rightarrow> u16 \<Rightarrow> bytes \<Rightarrow> bytes" where
  "ctl_frame tid ty tlvs =
     [0x01] @ le16 (of_nat (11 + length tlvs)) @ [0x00, QMUX_TYPE_CTL, 0x00] @
     [0x00, of_nat tid] @ le16 ty @ le16 (of_nat (length tlvs)) @ tlvs"

definition ComposeQCTLMsg :: "nat \<Rightarrow> u16 \<Rightarrow> bytes \<Rightarrow> bytes option" where
  "ComposeQCTLMsg tid ty tlvs =
     (if 12 + length tlvs > WDM_DEFAULT_BUFSIZE then None else Some (ctl_frame tid ty tlvs))"

definition ctl_request :: "u16 \<Rightarrow> bytes \<Rightarrow> qmi \<Rightarrow> (int \<times> bytes option \<times> qmi) option" where
  "ctl_request ty tlvs w = (let tid = next_ctl_tid (ctl_counter w) in do {
     req \<leftarrow> ComposeQCTLMsg tid ty tlvs;
     QmiThreadSendQMI req (w\<lparr>ctl_counter := tid\<rparr>) })"

definition CtlGetVersionReq :: bytes where "CtlGetVersionReq = tlv 0x01 [0xFF]"
definition CtlGetClientIdReq :: "byte \<Rightarrow> bytes" where "CtlGetClientIdReq ty = tlv 0x01 [ty]"
definition CtlReleaseClientIdReq :: "byte \<Rightarrow> byte \<Rightarrow> bytes" where "CtlReleaseClientIdReq ty c = tlv 0x01 [ty, c]"
definition CtlLibQmiProxyOpenReq :: "string \<Rightarrow> bytes" where "CtlLibQmiProxyOpenReq path = tlv 0x01 (str_bytes path)"

definition ctl_result :: "bytes \<Rightarrow> u16 option" where "ctl_result m = rd16 m 15"
definition ctl_error :: "bytes \<Rightarrow> u16 option" where "ctl_error m = rd16 m 17"

section \<open>Client ids\<close>

text \<open>The client id of the answer is read before the result is looked at.\<close>

definition QmiWwanGetClientID :: "byte \<Rightarrow> qmi \<Rightarrow> (byte \<times> qmi) option" where
  "QmiWwanGetClientID ty w = do {
     (_, rsp, w) \<leftarrow> ctl_request 0x22 (CtlGetClientIdReq ty) w;
     (case rsp of None \<Rightarrow> Some (0, w)
      | Some m \<Rightarrow> do {
          r \<leftarrow> ctl_result m; e \<leftarrow> ctl_error m; c \<leftarrow> rd8 m 23;
          (if r \<noteq> 0 \<or> e \<noteq> 0 then Some (0, w)
           else do { t \<leftarrow> rd8 m 22; Some (if t = ty then c else 0, w) }) }) }"

definition QmiWwanReleaseClientID :: "byte \<Rightarrow> byte \<Rightarrow> qmi \<Rightarrow> qmi option" where
  "QmiWwanReleaseClientID ty c w = do {
     (_, _, w) \<leftarrow> ctl_request 0x23 (CtlReleaseClientIdReq ty c) w; Some w }"

definition get_client :: "byte \<Rightarrow> byte \<Rightarrow> qmi \<Rightarrow> qmi option" where
  "get_client slot ty w = do { (c, w) \<leftarrow> QmiWwanGetClientID ty w; Some (w\<lparr>qmiclientId := (qmiclientId w)(slot := c)\<rparr>) }"

section \<open>Getting ready\<close>

definition libqmi_proxy_open :: "string \<Rightarrow> qmi \<Rightarrow> (int \<times> qmi) option" where
  "libqmi_proxy_open path w = do {
     (ret, rsp, w) \<leftarrow> ctl_request 0xFF00 (CtlLibQmiProxyOpenReq path) w;
     (case rsp of None \<Rightarrow> Some (-1, w)
      | Some m \<Rightarrow> if ret \<noteq> 0 then Some (-1, w) else do {
          r \<leftarrow> ctl_result m; e \<leftarrow> ctl_error m;
          Some (if r = 0 \<and> e = 0 then 0 else -1, w) }) }"

primrec sync_loop :: "nat \<Rightarrow> int \<Rightarrow> qmi \<Rightarrow> (int \<times> qmi) option" where
  "sync_loop 0 ret w = Some (ret, w)"
| "sync_loop (Suc n) ret w = do {
     (ret, _, w) \<leftarrow> ctl_request 0x27 [] w;
     (if ret = 0 then Some (0, w) else sync_loop n ret w) }"

text \<open>The loop over the services of the version answer, five bytes each: service, major and minor
  version.\<close>

fun version_scan :: "bytes \<Rightarrow> nat \<Rightarrow> nat \<Rightarrow> int \<Rightarrow> int option" where
  "version_scan m pos 0 v = Some v"
| "version_scan m pos (Suc n) v = do {
     t \<leftarrow> rd8 m pos;
     v \<leftarrow> (if t = QMUX_TYPE_WDS_ADMIN then do { minor \<leftarrow> rd16 m (pos + 3); Some (if minor > 16 then 1 else 0) } else Some v);
     version_scan m (pos + 5) n v }"

definition qmap_version_of :: "bytes option \<Rightarrow> profile \<Rightarrow> profile option" where
  "qmap_version_of rsp p = (case rsp of None \<Rightarrow> Some p
     | Some m \<Rightarrow> if qmap_mode p = 0 then Some p else do {
         r \<leftarrow> ctl_result m; e \<leftarrow> (if r = 0 then ctl_error m else Some 0);
         (if r \<noteq> 0 \<or> e \<noteq> 0 then Some p
          else do { n \<leftarrow> rd8 m 22; v \<leftarrow> version_scan m 23 (unat n) (qmap_version p); Some (p\<lparr>qmap_version := v\<rparr>) }) })"

definition get_clients :: "profile \<Rightarrow> qmi \<Rightarrow> (profile \<times> qmi) option" where
  "get_clients p w = do {
     w \<leftarrow> get_client QMUX_TYPE_WDS QMUX_TYPE_WDS w;
     w \<leftarrow> (if enable_ipv6 p then get_client QMUX_TYPE_WDS_IPV6 QMUX_TYPE_WDS w else Some w);
     w \<leftarrow> get_client QMUX_TYPE_DMS QMUX_TYPE_DMS w;
     w \<leftarrow> get_client QMUX_TYPE_NAS QMUX_TYPE_NAS w;
     w \<leftarrow> get_client QMUX_TYPE_UIM QMUX_TYPE_UIM w;
     w \<leftarrow> get_client QMUX_TYPE_WDS_ADMIN QMUX_TYPE_WDS_ADMIN w;
     Some (p\<lparr>wda_client := uint (qmiclientId w QMUX_TYPE_WDS_ADMIN)\<rparr>, w) }"

definition QmiWwanInit :: "qmi \<Rightarrow> profile \<Rightarrow> (int \<times> profile \<times> qmi) option" where
  "QmiWwanInit w p = do {
     (ret, w) \<leftarrow> (if proxy p = ''qmi-proxy'' then libqmi_proxy_open (qmichannel p) w else Some (0, w));
     (if ret \<noteq> 0 then Some (ret, p, w)
      else do {
        (ret, w) \<leftarrow> (if proxy p = [] then sync_loop 10 0 w else Some (0, w));
        (if ret \<noteq> 0 then Some (ret, p, w)
         else do {
           (_, rsp, w) \<leftarrow> ctl_request 0x21 CtlGetVersionReq w;
           p \<leftarrow> qmap_version_of rsp p;
           (p, w) \<leftarrow> get_clients p w;
           Some (0, p, w) }) }) }"

text \<open>The 255 entries of \<open>qmiclientId\<close>, those in use given back.\<close>

fun release_from :: "byte list \<Rightarrow> qmi \<Rightarrow> qmi option" where
  "release_from [] w = Some w"
| "release_from (t # ts) w =
     (if qmiclientId w t = 0 then release_from ts w
      else do {
        w \<leftarrow> QmiWwanReleaseClientID t (qmiclientId w t) w;
        release_from ts (w\<lparr>qmiclientId := (qmiclientId w)(t := 0)\<rparr>) })"

definition QmiWwanDeInit :: "qmi \<Rightarrow> qmi option" where
  "QmiWwanDeInit w = release_from (map of_nat [0..<255]) w"

section \<open>The start of the thread\<close>

definition QUECTEL_QMI_PROXY :: string where "QUECTEL_QMI_PROXY = ''quectel-qmi-proxy''"
definition QUECTEL_QRTR_PROXY :: string where "QUECTEL_QRTR_PROXY = ''quectel-qrtr-proxy''"

text \<open>The proxy's name ends in the last character of the device's.\<close>

definition choose_proxy :: "profile \<Rightarrow> profile option" where
  "choose_proxy p =
     (if qmichannel p = [] then None
      else let num = last (qmichannel p); named = (\<lambda>s. p\<lparr>proxy := c_snprintf 32 (s @ [num])\<rparr>) in
        Some (if proxy p \<noteq> [] then (if starts_with (proxy p) QUECTEL_QMI_PROXY then named QUECTEL_QMI_PROXY else p)
              else if starts_with (qmichannel p) ''/dev/mhi_IPCR'' then named QUECTEL_QRTR_PROXY
              else if qmap_mode p > 1 then named QUECTEL_QMI_PROXY
              else p))"

definition start_thread :: "bool \<Rightarrow> profile \<Rightarrow> qmi \<Rightarrow> (profile \<times> qmi) option" where
  "start_thread opened p w = do {
     p \<leftarrow> choose_proxy p;
     Some (p, send_to_main (if opened then RIL_INDICATE_DEVICE_CONNECTED else RIL_INDICATE_DEVICE_DISCONNECTED, None)
       (w\<lparr>cdc_wdm_open := opened, thread_on := opened, wait_for_quit := False\<rparr>)) }"

definition qmiwwan_qmidev_ops :: "qmi device_ops" where
  "qmiwwan_qmidev_ops = \<lparr>
     dev_init = Some (\<lambda>w p. map_option (\<lambda>(err, p, w). (err, p, False, w)) (QmiWwanInit w p)),
     dev_deinit = Some QmiWwanDeInit,
     dev_events = (\<lambda>w. (qmi_to_main w, w\<lparr>qmi_to_main := []\<rparr>))\<rparr>"

end
