(* ===== verification/Qmi_Ops.thy ===== *)
theory Qmi_Ops
  imports Qmi_Call Qmi_Wwan Main_Inv
begin

text \<open>
  The main loop over QMI: the table of requests keeps the laws the loop relies on, and what follows
  for its runs; attachment to the packet domain as the loop learns of it.
\<close>

section \<open>Attached to the packet domain\<close>

text \<open>A system's TLV that says the packet domain is there, and TLVs that have the fields they should.
  The TLV of an HDR system is left out: it makes the function ask for the home network.\<close>

definition ps_domain :: "byte \<times> bytes \<Rightarrow> bool" where
  "ps_domain x = (case x of (t, v) \<Rightarrow> unat t \<in> set system_tlvs \<and> v ! 0 = 1 \<and> v ! 1 AND 2 \<noteq> 0)"

definition well_sized :: "byte \<times> bytes \<Rightarrow> bool" where
  "well_sized x = (case x of (t, v) \<Rightarrow> t \<noteq> 0x16 \<and>
     (unat t \<in> set service_tlvs \<or> t = 0x4E \<or> t = 0x4F \<longrightarrow> v \<noteq> []) \<and>
     (unat t \<in> set system_tlvs \<longrightarrow> (if t = 0x15 then 42 else 26) \<le> length v))"

lemma in_service_ps: "si_ps (fst (in_service t s w)) = si_ps s"
  by (simp add: in_service_def)

lemma ps_attached_ps: "si_ps (fst (ps_attached t s w)) = 1"
  by (simp add: ps_attached_def)

lemma domain_step_ps:
  assumes "holds_at m pos v" "2 \<le> length v"
  shows "\<exists>s' w'. domain_step m pos t s w = Some (s', w') \<and>
    si_ps s' = (if v ! 0 = 1 \<and> v ! 1 AND 2 \<noteq> 0 then 1 else si_ps s)"
proof -
  have l: "0 < length v" "1 < length v" using assms(2) by (cases v; auto)+
  note b = holds_at_byte [OF assms(1) l(1)] holds_at_byte [OF assms(1) l(2)]
  obtain s' w' where p: "ps_attached t s w = (s', w')" "si_ps s' = 1"
    using ps_attached_ps [of t s w] by (cases "ps_attached t s w") simp
  show ?thesis by (simp only: domain_step_def b bind.bind_lunit p if_split) (simp add: p(2))
qed

lemma network_step_ps:
  assumes "holds_at m pos v" "at + 4 \<le> length v" "3 \<le> at"
  shows "\<exists>s'. network_step m pos at s = Some s' \<and> si_ps s' = si_ps s"
proof -
  have r: "rdn m (pos + 3) (length v) = Some v" using assms(1) by (simp add: holds_at_def)
  obtain b where b: "rd8 m (pos + at) = Some b"
    using rdn_rd8 [OF r, of "at - 3"] assms(2,3) by (auto simp: add.assoc)
  obtain x where x: "rdn m (pos + at + 1) 3 = Some x"
    using rdn_part [OF r, of "at - 2" 3] assms(2,3) by (simp add: add.assoc)
  have e: "pos + 3 + (at + 1) = pos + at + 4" by simp
  obtain y where y: "rdn m (pos + at + 4) 3 = Some y"
    using rdn_part [OF r, of "at + 1" 3, unfolded e] assms(2) by auto
  show ?thesis by (simp only: network_step_def b x y bind.bind_lunit) simp
qed

lemma sys_info_tlv_ps:
  assumes "holds_at m pos v" "well_sized (t, v)"
  shows "\<exists>s' w'. sys_info_tlv m pos (unat t) s w = Some (s', w') \<and>
    si_ps s' = (if ps_domain (t, v) then 1 else si_ps s)"
proof -
  have hdr: "unat t \<noteq> 0x16" using assms(2) by (auto simp: well_sized_def word_unat_eq_iff)
  have e: "unat t = 0x4E \<longleftrightarrow> t = 0x4E" "unat t = 0x4F \<longleftrightarrow> t = 0x4F" "unat t = 0x15 \<longleftrightarrow> t = 0x15"
    by (auto simp: word_unat_eq_iff)
  consider "unat t \<in> set service_tlvs \<or> t = 0x4E \<or> t = 0x4F" | "unat t \<in> set system_tlvs"
    | "unat t \<notin> set service_tlvs" "t \<noteq> 0x4E" "t \<noteq> 0x4F" "unat t \<notin> set system_tlvs" by blast
  then show ?thesis
  proof cases
    case 1
    then have b: "tlv8 m pos 0 = Some (v ! 0)"
      using holds_at_byte [OF assms(1), of 0] assms(2) by (auto simp: well_sized_def)
    have "\<not> ps_domain (t, v)" using 1 by (auto simp: ps_domain_def system_tlvs_def service_tlvs_def)
    then show ?thesis using 1 b in_service_ps [of "unat t" s w]
      by (cases "in_service (unat t) s w") (auto simp: sys_info_tlv_def service_tlvs_def e)
  next
    case 2
    let ?at = "if unat t = 0x15 then 38 else 22 :: nat"
    have n: "?at + 4 \<le> length v" "2 \<le> length v" "3 \<le> ?at" using assms(2) 2 e by (auto simp: well_sized_def split: if_splits)
    obtain s1 w1 where d: "domain_step m pos (unat t) s w = Some (s1, w1)"
        "si_ps s1 = (if v ! 0 = 1 \<and> v ! 1 AND 2 \<noteq> 0 then 1 else si_ps s)"
      using domain_step_ps [OF assms(1) n(2)] by blast
    obtain s2 where k: "network_step m pos ?at s1 = Some s2" "si_ps s2 = si_ps s1"
      using network_step_ps [OF assms(1) n(1,3), of s1] by blast
    have "sys_info_tlv m pos (unat t) s w = Some (s2, w1)"
      using 2 hdr d(1) k(1) by (auto simp: sys_info_tlv_def system_tlvs_def service_tlvs_def)
    then show ?thesis using 2 d(2) k(2) by (simp add: ps_domain_def)
  next
    case 3
    then show ?thesis using hdr e by (simp add: sys_info_tlv_def ps_domain_def)
  qed
qed

lemma sys_info_loop_ps:
  assumes "\<forall>x \<in> set ts. well_sized x" "length (tlv_bytes ts) < 65536"
  shows "\<exists>s' w'. sys_info_loop (xs @ tlv_bytes ts) (length xs) (int (length (tlv_bytes ts))) s w = Some (s', w') \<and>
    si_ps s' = (if \<exists>x \<in> set ts. ps_domain x then 1 else si_ps s)"
  using assms
proof (induction ts arbitrary: xs s w)
  case Nil
  then show ?case by (simp add: sys_info_loop.simps)
next
  case (Cons a ts)
  obtain t v where a: "a = (t, v)" by (cases a)
  let ?m = "xs @ tlv_bytes (a # ts)"
  have lt: "length v < 65536" using Cons.prems(2) a by simp
  have at: "rd8 ?m (length xs) = Some t" "holds_at ?m (length xs) v"
    using tlv_at [OF refl, where xs = xs and t = t and v = v and ys = "tlv_bytes ts"] lt a
    by (simp_all add: holds_at_def tlv_len_def)
  obtain s1 w1 where 1: "sys_info_tlv ?m (length xs) (unat t) s w = Some (s1, w1)"
      "si_ps s1 = (if ps_domain (t, v) then 1 else si_ps s)"
    using sys_info_tlv_ps [OF at(2), of t s w] Cons.prems(1) a by auto
  have n: "unat (of_nat (length v) :: u16) = length v" using lt by (rule unat_u16_of_nat)
  have rest: "length (tlv_bytes ts) < 65536" using Cons.prems(2) a by simp
  from n have u: "uint (of_nat (length v) :: u16) = int (length v)" by (simp add: uint_nat)
  have "sys_info_loop ?m (length xs) (int (length (tlv_bytes (a # ts)))) s w =
      sys_info_loop ((xs @ tlv t v) @ tlv_bytes ts) (length (xs @ tlv t v)) (int (length (tlv_bytes ts))) s1 w1"
    using at 1(1) n u by (subst sys_info_loop.simps) (simp add: a holds_at_def ac_simps)
  moreover obtain s2 w2 where "sys_info_loop ((xs @ tlv t v) @ tlv_bytes ts) (length (xs @ tlv t v)) (int (length (tlv_bytes ts))) s1 w1 = Some (s2, w2)"
      "si_ps s2 = (if \<exists>x \<in> set ts. ps_domain x then 1 else si_ps s1)"
    using Cons.IH [OF _ rest, of "xs @ tlv t v" s1 w1] Cons.prems(1) by auto
  ultimately show ?case using 1(2) a by auto
qed



section \<open>The laws of the requests\<close>

lemma on_answerE:
  assumes "on_answer a stop go = Some r"
  obtains err w where "a = Some (Inl (err, w))" "r = stop err w"
  | m w where "a = Some (Inr (m, w))" "go m w = Some r"
proof (cases a)
  case (Some y)
  show thesis
  proof (cases y)
    case (Inl z)
    then show thesis using assms Some that(1) by (cases z) (simp add: on_answer_def)
  next
    case (Inr z)
    then show thesis using assms Some that(2) by (cases z) (simp add: on_answer_def)
  qed
qed (use assms in \<open>simp add: on_answer_def\<close>)

lemma with_tlvD: "with_tlv m ty f = Some (Some x) \<Longrightarrow> \<exists>pos. f pos = Some x"
  by (auto simp: with_tlv_def bind_eq_Some_conv split: option.splits)

lemma setup_families_kept:
  assumes "qmi_requestSetupDataCall freed w p fam = Some (err, p', w')"
  shows "same_families p p'"
proof -
  obtain x where "do { (err, w) \<leftarrow> setup_answer freed fam x; Some (err, p\<lparr>curIpFamily := fam\<rparr>, w) } = Some (err, p', w')"
    using assms by (auto simp: qmi_requestSetupDataCall_def Let_def bind_eq_Some_conv)
  then have "p' = p\<lparr>curIpFamily := fam\<rparr>" by (auto elim: bind_pairE)
  then show ?thesis by (simp add: same_families_def)
qed

lemma deactivate_families_kept: "qmi_requestDeactivateDefaultPDP w p fam = Some (err, p', w') \<Longrightarrow> same_families p p'"
  by (auto simp: qmi_requestDeactivateDefaultPDP_def elim!: on_answerE split: if_splits)

lemma pcscf_families:
  "pcscf6 m p = Some q \<Longrightarrow> same_families p q" "pcscf4 m p = Some q \<Longrightarrow> same_families p q"
proof -
  have r: "(\<And>pos z. f pos = Some z \<Longrightarrow> same_families p z) \<Longrightarrow> with_tlv m ty f = Some r \<Longrightarrow> same_families p (or_old r p)"
    for f and r :: "profile option" and ty using with_tlvD by (cases r) fastforce+
  show "pcscf6 m p = Some q \<Longrightarrow> same_families p q" "pcscf4 m p = Some q \<Longrightarrow> same_families p q"
    by (auto simp: pcscf6_def pcscf4_def bind_eq_Some_conv same_families_def split: if_splits
        elim!: r [unfolded same_families_def, rotated])
qed

lemma address_answer_families:
  assumes "address_answer fam m p = Some q"
  shows "same_families p q"
proof -
  obtain p1 p2 where 1: "pcscf6 m p = Some p1" and 2: "pcscf4 m p1 = Some p2" and "same_families p2 q"
    using assms by (auto simp: address_answer_def bind_eq_Some_conv same_families_def)
  then show ?thesis using pcscf_families(1) [OF 1] pcscf_families(2) [OF 2] same_families_trans by blast
qed

lemma address_families_kept:
  assumes "qmi_requestGetIPAddress w p fam = Some (err, p', w')"
  shows "same_families p p'"
proof -
  have c: "same_families p (clear_address fam p)" by (simp add: clear_address_def same_families_def)
  then show ?thesis using assms
    by (auto simp: qmi_requestGetIPAddress_def Let_def bind_eq_Some_conv elim!: on_answerE split: if_splits
        dest!: address_answer_families intro: same_families_trans)
qed

interpretation qmi_ops: request_laws "qmi_request_ops freed" for freed
  by unfold_locales
     (auto simp: qmi_request_ops_def dest: setup_families_kept deactivate_families_kept address_families_kept)

section \<open>A family without a client\<close>

lemma no_client_no_answer:
  assumes "qmiclientId w qtype = 0" "qtype \<noteq> QMUX_TYPE_CTL" "mux_request qtype ty b w = Some (err, rsp, w')"
  shows "rsp = None" "qmiclientId w' = qmiclientId w"
proof -
  let ?w = "w\<lparr>mux_counter := next_tid (mux_counter w)\<rparr>"
  obtain req where req: "ComposeQMUXMsg qtype ty (next_tid (mux_counter w)) b = Some req"
    and send: "QmiThreadSendQMI req ?w = Some (err, rsp, w')"
    using assms(3) by (auto simp: mux_request_def Let_def bind_eq_Some_conv)
  have "qmi_type req = Some qtype" using composed_fields [OF req] by simp
  then have "set_client ?w req \<noteq> Some (Inr req')" for req'
    using assms(1,2) by (simp add: set_client_def)
  then show "rsp = None" using send_answer [of req ?w err _ w'] send by (cases rsp) auto
  show "qmiclientId w' = qmiclientId w" using send_vars [OF send] by (simp add: qmi_vars_def)
qed

lemma no_client_no_state:
  assumes "qmiclientId w QMUX_TYPE_WDS_IPV6 = 0" "qmi_requestQueryDataCall w IpFamilyV6 = Some (err, st, w')"
  shows "st = None" "qmiclientId w' = qmiclientId w"
proof -
  have s: "wds_service IpFamilyV6 = QMUX_TYPE_WDS_IPV6" by (simp add: wds_service_def IpFamilyV4_def IpFamilyV6_def)
  have c: "QMUX_TYPE_WDS_IPV6 \<noteq> QMUX_TYPE_CTL" by (simp add: QMUX_TYPE_WDS_IPV6_def QMUX_TYPE_CTL_def)
  obtain e rsp v where q: "mux_request QMUX_TYPE_WDS_IPV6 0x0022 (body []) w = Some (e, rsp, v)"
    using assms(2) by (cases "mux_request QMUX_TYPE_WDS_IPV6 0x0022 (body []) w")
      (auto simp: qmi_requestQueryDataCall_def s qmi_exchange_def on_answer_def)
  note n = no_client_no_answer [OF assms(1) c q]
  have "qmi_exchange QMUX_TYPE_WDS_IPV6 0x0022 (body []) w = Some (Inl (e, v))"
    by (simp add: qmi_exchange_def q n(1) rsp_check_def)
  then have "(err, st, w') = (e, None, v)" using assms(2) by (simp add: qmi_requestQueryDataCall_def s on_answer_def)
  then show "st = None" "qmiclientId w' = qmiclientId w" using n(2) by simp_all
qed



end
