(* ===== verification/Qlist.thy ===== *)
theory Qlist
  imports Prelude
begin

text \<open>
  The ring lists of \<^verbatim>\<open>quectel_cm_5G/src/qlist.h\<close>, used by the two proxies: nodes are addresses, the
  memory gives the next and the previous node of each. A ring with its head is abstracted to the list
  of its other nodes, in the order \<open>qlist_for_each\<close> visits them.
\<close>

section \<open>Operations\<close>

record qlist_mem =
  nxt :: "nat \<Rightarrow> nat"
  prv :: "nat \<Rightarrow> nat"

definition set_next :: "nat \<Rightarrow> nat \<Rightarrow> qlist_mem \<Rightarrow> qlist_mem" where
  "set_next n v h = h\<lparr>nxt := (nxt h)(n := v)\<rparr>"

definition set_prev :: "nat \<Rightarrow> nat \<Rightarrow> qlist_mem \<Rightarrow> qlist_mem" where
  "set_prev n v h = h\<lparr>prv := (prv h)(n := v)\<rparr>"

lemma set_simps [simp]:
  "nxt (set_next n v h) = (nxt h)(n := v)" "prv (set_next n v h) = prv h"
  "prv (set_prev n v h) = (prv h)(n := v)" "nxt (set_prev n v h) = nxt h"
  by (simp_all add: set_next_def set_prev_def)

definition qlist_init :: "nat \<Rightarrow> qlist_mem \<Rightarrow> qlist_mem" where
  "qlist_init node h = (let h = set_next node node h in set_prev node node h)"

definition qlist_add_tail :: "nat \<Rightarrow> nat \<Rightarrow> qlist_mem \<Rightarrow> qlist_mem" where
  "qlist_add_tail head item h =
     (let h = set_next item head h;
          h = set_prev item (prv h head) h;
          h = set_next (prv h head) item h
      in set_prev head item h)"

definition qlist_remove :: "nat \<Rightarrow> qlist_mem \<Rightarrow> qlist_mem" where
  "qlist_remove item h =
     (let h = set_prev (nxt h item) (prv h item) h
      in set_next (prv h item) (nxt h item) h)"

definition qlist_empty :: "nat \<Rightarrow> qlist_mem \<Rightarrow> bool" where "qlist_empty head h \<longleftrightarrow> head = nxt h head"
definition qlist_head :: "nat \<Rightarrow> qlist_mem \<Rightarrow> nat" where "qlist_head head h = nxt h head"
definition qlist_tail :: "nat \<Rightarrow> qlist_mem \<Rightarrow> nat" where "qlist_tail head h = prv h head"

text \<open>The nodes \<open>qlist_for_each\<close> visits from \<open>node\<close> on; it may run forever.\<close>

partial_function (option) for_each_from :: "nat \<Rightarrow> nat \<Rightarrow> qlist_mem \<Rightarrow> nat list option" where
  "for_each_from node head h =
     (if node = head then Some []
      else do { ns \<leftarrow> for_each_from (nxt h node) head h; Some (node # ns) })"

definition qlist_for_each :: "nat \<Rightarrow> qlist_mem \<Rightarrow> nat list option" where
  "qlist_for_each head h = for_each_from (nxt h head) head h"

section \<open>The list a ring holds\<close>

fun path :: "(nat \<Rightarrow> nat) \<Rightarrow> nat \<Rightarrow> nat list \<Rightarrow> nat \<Rightarrow> bool" where
  "path f a [] b \<longleftrightarrow> f a = b"
| "path f a (x # xs) b \<longleftrightarrow> f a = x \<and> path f x xs b"

definition ring :: "qlist_mem \<Rightarrow> nat \<Rightarrow> nat list \<Rightarrow> bool" where
  "ring h a xs \<longleftrightarrow> distinct (a # xs) \<and> path (nxt h) a xs a \<and> path (prv h) a (rev xs) a"

definition end_of :: "nat \<Rightarrow> nat list \<Rightarrow> nat" where
  "end_of a xs = (if xs = [] then a else last xs)"

lemma end_of_simps [simp]: "end_of a [] = a" "end_of a (x # xs) = end_of x xs" "end_of a (xs @ [x]) = x"
  by (simp_all add: end_of_def)

lemma end_of_in: "end_of a xs \<in> set (a # xs)"
  by (simp add: end_of_def)

lemma path_update: "u \<notin> set (a # xs) \<Longrightarrow> path (f(u := v)) a xs b = path f a xs b"
  by (induction xs arbitrary: a) auto

lemma path_last: "path f a xs b \<Longrightarrow> f (end_of a xs) = b"
  by (induction xs arbitrary: a) auto

lemma path_append: "path f a (xs @ y # ys) b \<longleftrightarrow> path f a xs y \<and> path f y ys b"
  by (induction xs arbitrary: a) auto

lemma path_end: "distinct (a # xs) \<Longrightarrow> path f a xs b \<Longrightarrow> path (f(end_of a xs := c)) a xs c"
proof (induction xs arbitrary: a)
  case (Cons x xs)
  have "end_of x xs \<noteq> a" using end_of_in [of x xs] Cons.prems(1) by auto
  then show ?case using Cons by simp
qed simp

text \<open>A node cut out of a path.\<close>

lemma path_cut:
  assumes "path f a (xs @ y # zs) b" "distinct (a # xs @ y # zs)"
  shows "path (f(end_of a xs := f y)) a (xs @ zs) b"
proof -
  have 1: "path f a xs y" "path f y zs b" using assms(1) by (simp_all add: path_append)
  have d: "distinct (a # xs)" using assms(2) by simp
  show ?thesis
  proof (cases zs)
    case Nil
    then show ?thesis using path_end [OF d 1(1)] 1(2) by simp
  next
    case (Cons z zs')
    have "end_of a xs \<notin> set (z # zs')" using end_of_in [of a xs] assms(2) Cons by auto
    then have "path (f(end_of a xs := z)) z zs' b" using 1(2) Cons by (simp add: path_update)
    then show ?thesis using path_end [OF d 1(1), of z] 1(2) Cons by (simp add: path_append)
  qed
qed

lemma ring_init: "ring (qlist_init n h) n []"
  by (simp add: ring_def qlist_init_def)

lemma ring_ends:
  assumes "ring h a xs"
  shows "nxt h a = end_of a (rev xs)" "prv h a = end_of a xs"
proof -
  show "nxt h a = end_of a (rev xs)" using assms by (cases xs) (simp_all add: ring_def)
  show "prv h a = end_of a xs" using assms by (cases xs rule: rev_cases) (simp_all add: ring_def)
qed

lemma ring_add_tail:
  assumes "ring h a xs" "n \<notin> set (a # xs)"
  shows "ring (qlist_add_tail a n h) a (xs @ [n])"
proof -
  have d: "distinct (a # xs)" and p: "path (nxt h) a xs a" "path (prv h) a (rev xs) a"
    using assms(1) by (simp_all add: ring_def)
  have e: "end_of a xs \<noteq> n" using end_of_in [of a xs] assms(2) by auto
  have "nxt (qlist_add_tail a n h) = (nxt h)(n := a, end_of a xs := n)"
    using assms(2) by (simp add: qlist_add_tail_def Let_def ring_ends [OF assms(1)])
  moreover have "path ((nxt h)(n := a, end_of a xs := n)) a (xs @ [n]) a"
    using path_end [OF d, of "(nxt h)(n := a)" a n] p(1) e assms(2) by (simp add: path_append path_update)
  moreover have "prv (qlist_add_tail a n h) = (prv h)(n := end_of a xs, a := n)"
    using assms(2) by (simp add: qlist_add_tail_def Let_def ring_ends [OF assms(1)])
  moreover have "path ((prv h)(n := end_of a xs, a := n)) n (rev xs) a"
    using p(2) assms(2) d ring_ends(2) [OF assms(1)]
    by (cases "rev xs") (auto simp: path_update end_of_def)
  ultimately show ?thesis using d assms(2) by (simp add: ring_def)
qed

lemma ring_remove:
  assumes "ring h a (xs @ n # ys)"
  shows "ring (qlist_remove n h) a (xs @ ys)"
proof -
  have d: "distinct (a # xs @ n # ys)" and p: "path (nxt h) a (xs @ n # ys) a" "path (prv h) a (rev ys @ n # rev xs) a"
    using assms by (simp_all add: ring_def)
  have x: "prv h n = end_of a xs"
    using p(2) by (cases xs rule: rev_cases) (simp_all add: path_append)
  have y: "nxt h n = end_of a (rev ys)"
    using p(1) by (cases ys) (simp_all add: path_append)
  have ny: "end_of a (rev ys) \<noteq> n" using end_of_in [of a "rev ys"] d by auto
  have "nxt (qlist_remove n h) = (nxt h)(end_of a xs := nxt h n)"
    using ny by (simp add: qlist_remove_def Let_def x y)
  moreover have "prv (qlist_remove n h) = (prv h)(end_of a (rev ys) := prv h n)"
    by (simp add: qlist_remove_def Let_def x y)
  moreover have "path ((nxt h)(end_of a xs := nxt h n)) a (xs @ ys) a"
    by (rule path_cut [OF p(1) d])
  moreover have "path ((prv h)(end_of a (rev ys) := prv h n)) a (rev ys @ rev xs) a"
    by (rule path_cut [OF p(2)]) (use d in auto)
  ultimately show ?thesis using d by (simp add: ring_def)
qed

lemma for_each_path:
  assumes "path (nxt h) x ys a" "distinct (a # x # ys)"
  shows "for_each_from x a h = Some (x # ys)"
  using assms
proof (induction ys arbitrary: x)
  case Nil
  then show ?case by (simp add: for_each_from.simps [of x] for_each_from.simps [of a])
next
  case (Cons y ys)
  then show ?case by (simp add: for_each_from.simps [of x])
qed

lemma for_each_ring: "ring h a xs \<Longrightarrow> qlist_for_each a h = Some xs"
  by (cases xs) (auto simp: qlist_for_each_def ring_def for_each_from.simps [of a] intro!: for_each_path)

lemma ring_distinct: "ring h a xs \<Longrightarrow> distinct xs"
  by (simp add: ring_def)

lemma ring_empty: "ring h a xs \<Longrightarrow> qlist_empty a h \<longleftrightarrow> xs = []"
  by (cases xs) (auto simp: qlist_empty_def ring_def)

lemma ring_head: "ring h a (x # xs) \<Longrightarrow> qlist_head a h = x"
  by (simp add: qlist_head_def ring_def)

lemma ring_tail: "ring h a (xs @ [x]) \<Longrightarrow> qlist_tail a h = x"
  by (simp add: qlist_tail_def ring_ends)

section \<open>The interface\<close>

text \<open>What is done to a list: a node is added at the end, or one is taken out.\<close>

datatype list_op = Add_Tail nat | Remove nat

primrec on_list :: "list_op \<Rightarrow> nat list \<Rightarrow> nat list" where
  "on_list (Add_Tail n) xs = xs @ [n]"
| "on_list (Remove n) xs = remove1 n xs"

primrec on_ring :: "nat \<Rightarrow> list_op \<Rightarrow> qlist_mem \<Rightarrow> qlist_mem" where
  "on_ring a (Add_Tail n) h = qlist_add_tail a n h"
| "on_ring a (Remove n) h = qlist_remove n h"

text \<open>Only new nodes are added and only nodes of the list taken out, and never the head.\<close>

fun proper :: "nat \<Rightarrow> list_op list \<Rightarrow> nat list \<Rightarrow> bool" where
  "proper a [] xs \<longleftrightarrow> True"
| "proper a (Add_Tail n # os) xs \<longleftrightarrow> n \<noteq> a \<and> n \<notin> set xs \<and> proper a os (xs @ [n])"
| "proper a (Remove n # os) xs \<longleftrightarrow> n \<in> set xs \<and> proper a os (remove1 n xs)"

text \<open>A list as its users see it: a relation \<open>R\<close> between the memory and the nodes in order, which each
  operation keeps. The users of a list prove what they need from these laws alone.\<close>

locale node_list =
  fixes R :: "'m \<Rightarrow> nat list \<Rightarrow> bool" and a :: nat
    and add :: "nat \<Rightarrow> 'm \<Rightarrow> 'm" and rem :: "nat \<Rightarrow> 'm \<Rightarrow> 'm"
    and emp :: "'m \<Rightarrow> bool" and visit :: "'m \<Rightarrow> nat list option"
  assumes nodes_distinct: "R m xs \<Longrightarrow> distinct xs"
    and add_law: "R m xs \<Longrightarrow> n \<noteq> a \<Longrightarrow> n \<notin> set xs \<Longrightarrow> R (add n m) (xs @ [n])"
    and remove_law: "R m (xs @ n # ys) \<Longrightarrow> R (rem n m) (xs @ ys)"
    and empty_law: "R m xs \<Longrightarrow> emp m \<longleftrightarrow> xs = []"
    and visit_law: "R m xs \<Longrightarrow> visit m = Some xs"
begin

lemma remove_any:
  assumes "R m xs" "n \<in> set xs"
  shows "R (rem n m) (remove1 n xs)"
proof -
  obtain ys zs where x: "xs = ys @ n # zs" "n \<notin> set ys" using assms(2) split_list_first by metis
  then show ?thesis using remove_law [of m ys n zs] assms(1) by (simp add: remove1_append)
qed

lemma script:
  assumes "R m xs" "proper a os xs"
    and "\<And>n m. step (Add_Tail n) m = add n m" "\<And>n m. step (Remove n) m = rem n m"
  shows "R (fold step os m) (fold on_list os xs)"
  using assms(1,2)
proof (induction os arbitrary: m xs)
  case (Cons x os)
  then show ?case by (cases x) (simp_all add: assms(3,4) add_law remove_any)
qed simp

lemma script_visit:
  assumes "R m xs" "proper a os xs"
    and "\<And>n m. step (Add_Tail n) m = add n m" "\<And>n m. step (Remove n) m = rem n m"
  shows "visit (fold step os m) = Some (fold on_list os xs) \<and> (emp (fold step os m) \<longleftrightarrow> fold on_list os xs = [])"
  using script [OF assms(1,2), of step] assms(3,4) by (simp add: visit_law empty_law)

end

interpretation ring_list: node_list "\<lambda>h. ring h a" a "qlist_add_tail a" qlist_remove "qlist_empty a" "qlist_for_each a" for a
  by unfold_locales (simp_all add: ring_distinct ring_add_tail ring_remove for_each_ring ring_empty)

text \<open>Property C21: the ring lists are lists. From a new list on, whatever nodes are added at its end and
  taken out from anywhere, \<open>qlist_for_each\<close> comes to an end and visits exactly the nodes that are left,
  in the order in which they were added, and the test for emptiness is right. Only a node that is not in
  the list may be added, and only one that is may be taken out.\<close>

theorem ring_lists_are_lists:
  assumes "proper a os []"
  shows "qlist_for_each a (fold (on_ring a) os (qlist_init a h)) = Some (fold on_list os []) \<and>
    (qlist_empty a (fold (on_ring a) os (qlist_init a h)) \<longleftrightarrow> fold on_list os [] = [])"
  by (rule ring_list.script_visit [OF ring_init assms]) simp_all

theorem ring_lists_are_lists_witness:
  "qlist_for_each 1 (fold (on_ring 1) [Add_Tail 5, Add_Tail 7, Add_Tail 3, Remove 7, Add_Tail 7]
     (qlist_init 1 \<lparr>nxt = (\<lambda>_. 0), prv = (\<lambda>_. 0)\<rparr>)) = Some [5, 3, 7]"
  using ring_lists_are_lists [of 1 "[Add_Tail 5, Add_Tail 7, Add_Tail 3, Remove 7, Add_Tail 7]"
      "\<lparr>nxt = (\<lambda>_. 0), prv = (\<lambda>_. 0)\<rparr>"] by simp

end
