(* ===== verification/Qmi_Proxy.thy ===== *)
theory Qmi_Proxy
  imports Qmi_Msg Qlist
begin

text \<open>
  \<^verbatim>\<open>quectel_cm_5G/src/quectel-qmi-proxy.c\<close>: the program that shares one QMI device among several
  clients of a local socket. The two ring lists and the list of client ids of each connection are
  lists here (\<^verbatim>\<open>Qlist\<close> shows that the ring lists are). Messages are read into one buffer of 4096
  bytes that keeps what a shorter message leaves of the one before. \<open>None\<close> is an access outside a
  queued message.
\<close>

section \<open>State\<close>

record connection =
  ClientFd :: int
  client_ids :: "(byte \<times> byte) list"

text \<open>The static variables, and what was written to the device and to the clients.\<close>

record qmi_proxy =
  qmi_proxy_server_fd :: int
  qmi_proxy_connection :: "connection list"
  qmi_proxy_ctl_msg :: "(int \<times> bytes) list"
  qmi_sync_done :: bool
  modem_reset_flag :: bool
  qmi_buf :: bytes
  to_dev :: "bytes list"
  to_clients :: "(int \<times> bytes) list"

definition proxy_start :: "int \<Rightarrow> qmi_proxy" where
  "proxy_start server = \<lparr>qmi_proxy_server_fd = server, qmi_proxy_connection = [], qmi_proxy_ctl_msg = [],
     qmi_sync_done = False, modem_reset_flag = False, qmi_buf = replicate 4096 0, to_dev = [], to_clients = []\<rparr>"

text \<open>Where a message is to be written: to the device (\<open>None\<close>) or to a client. \<open>can\<close> tells whether
  \<open>poll\<close> finds the place writable; what is not written is lost, and nobody looks at that.\<close>

type_synonym writable = "int option \<Rightarrow> bool"

definition QMICTL_CTL_FLAG_RSP :: byte where "QMICTL_CTL_FLAG_RSP = 0x01"
definition QMICTL_GET_CLIENT_ID_RESP :: u16 where "QMICTL_GET_CLIENT_ID_RESP = 0x0022"
definition QMICTL_RELEASE_CLIENT_ID_RESP :: u16 where "QMICTL_RELEASE_CLIENT_ID_RESP = 0x0023"
definition QMICTL_REVOKE_CLIENT_ID_IND :: u16 where "QMICTL_REVOKE_CLIENT_ID_IND = 0x0024"
definition QMICTL_SYNC_REQ :: u16 where "QMICTL_SYNC_REQ = 0x0027"

definition ctl_flags :: "bytes \<Rightarrow> byte option" where "ctl_flags m = rd8 m 6"

section \<open>Connections\<close>

definition accept_qmi_connection :: "int \<Rightarrow> qmi_proxy \<Rightarrow> qmi_proxy" where
  "accept_qmi_connection clientfd x =
     x\<lparr>qmi_proxy_connection := qmi_proxy_connection x @ [\<lparr>ClientFd = clientfd, client_ids = []\<rparr>]\<rparr>"

text \<open>The first element with a property taken out.\<close>

fun remove_first :: "('a \<Rightarrow> bool) \<Rightarrow> 'a list \<Rightarrow> 'a list" where
  "remove_first P [] = []"
| "remove_first P (y # ys) = (if P y then ys else y # remove_first P ys)"

definition cleanup_qmi_connection :: "int \<Rightarrow> qmi_proxy \<Rightarrow> qmi_proxy" where
  "cleanup_qmi_connection fd x =
     (if \<exists>c \<in> set (qmi_proxy_connection x). ClientFd c = fd
      then x\<lparr>qmi_proxy_ctl_msg := remove_first (\<lambda>q. fst q = fd) (qmi_proxy_ctl_msg x),
             qmi_proxy_connection := remove_first (\<lambda>c. ClientFd c = fd) (qmi_proxy_connection x)\<rparr>
      else x)"

definition id_result :: "bytes \<Rightarrow> (byte \<times> byte) option option" where
  "id_result m = do {
     r \<leftarrow> rd16 m 15; e \<leftarrow> rd16 m 17;
     (if r \<noteq> 0 \<or> e \<noteq> 0 then Some None
      else do { t \<leftarrow> rd8 m 22; c \<leftarrow> rd8 m 23; Some (Some (t, c)) }) }"

definition get_client_id :: "bytes \<Rightarrow> connection \<Rightarrow> connection option" where
  "get_client_id m con = do {
     r \<leftarrow> id_result m;
     Some (case r of None \<Rightarrow> con | Some i \<Rightarrow> con\<lparr>client_ids := client_ids con @ [i]\<rparr>) }"

definition release_client_id :: "bytes \<Rightarrow> connection \<Rightarrow> connection option" where
  "release_client_id m con = do {
     r \<leftarrow> id_result m;
     Some (case r of None \<Rightarrow> con | Some i \<Rightarrow> con\<lparr>client_ids := remove_first (\<lambda>j. i = j) (client_ids con)\<rparr>) }"

section \<open>Sending\<close>

definition message_of :: "bytes \<Rightarrow> bytes option" where
  "message_of m = do { l \<leftarrow> qmi_length m; rdn m 0 (unat l + 1) }"

definition send_qmi_to_cdc_wdm :: "writable \<Rightarrow> bytes \<Rightarrow> qmi_proxy \<Rightarrow> qmi_proxy option" where
  "send_qmi_to_cdc_wdm can m x =
     (if can None then do { b \<leftarrow> message_of m; Some (x\<lparr>to_dev := to_dev x @ [b]\<rparr>) } else Some x)"

definition send_qmi_to_client :: "writable \<Rightarrow> bytes \<Rightarrow> int \<Rightarrow> qmi_proxy \<Rightarrow> qmi_proxy option" where
  "send_qmi_to_client can m fd x =
     (if can (Some fd) then do { b \<leftarrow> message_of m; Some (x\<lparr>to_clients := to_clients x @ [(fd, b)]\<rparr>) } else Some x)"

section \<open>A message of the device\<close>

text \<open>A control answer, for one connection of the client whose request is the oldest.\<close>

definition answer_connection :: "bytes \<Rightarrow> connection \<Rightarrow> connection option" where
  "answer_connection m con = do {
     ty \<leftarrow> ctl_type m;
     (if ty = QMICTL_GET_CLIENT_ID_RESP then get_client_id m con
      else if ty = QMICTL_RELEASE_CLIENT_ID_RESP \<or> ty = QMICTL_REVOKE_CLIENT_ID_IND then release_client_id m con
      else Some con) }"

fun answer_client :: "writable \<Rightarrow> int \<Rightarrow> connection list \<Rightarrow> connection list \<Rightarrow> qmi_proxy \<Rightarrow> qmi_proxy option" where
  "answer_client can fd before [] x = Some (x\<lparr>qmi_proxy_connection := before\<rparr>)"
| "answer_client can fd before (c # cs) x =
     (if ClientFd c \<noteq> fd then answer_client can fd (before @ [c]) cs x
      else do {
        x \<leftarrow> send_qmi_to_client can (qmi_buf x) fd x;
        c \<leftarrow> answer_connection (qmi_buf x) c;
        ty \<leftarrow> ctl_type (qmi_buf x);
        answer_client can fd (before @ [c]) cs
          (if ty = QMICTL_REVOKE_CLIENT_ID_IND then x\<lparr>modem_reset_flag := True\<rparr> else x) })"

text \<open>The oldest request, once for each connection of its client.\<close>

fun send_request :: "writable \<Rightarrow> int \<times> bytes \<Rightarrow> connection list \<Rightarrow> qmi_proxy \<Rightarrow> qmi_proxy option" where
  "send_request can q [] x = Some x"
| "send_request can q (c # cs) x =
     (if ClientFd c \<noteq> fst q then send_request can q cs x
      else do { x \<leftarrow> send_qmi_to_cdc_wdm can (snd q) x; send_request can q cs x })"

definition next_request :: "writable \<Rightarrow> qmi_proxy \<Rightarrow> qmi_proxy option" where
  "next_request can x = (case qmi_proxy_ctl_msg x of [] \<Rightarrow> Some x
     | q # _ \<Rightarrow> send_request can q (qmi_proxy_connection x) x)"

definition recv_ctl_from_dev :: "writable \<Rightarrow> qmi_proxy \<Rightarrow> qmi_proxy option" where
  "recv_ctl_from_dev can x = do {
     flags \<leftarrow> ctl_flags (qmi_buf x);
     x \<leftarrow> (case qmi_proxy_ctl_msg x of [] \<Rightarrow> Some x
       | (fd, _) # rest \<Rightarrow> if flags \<noteq> QMICTL_CTL_FLAG_RSP then Some x
           else do {
             x \<leftarrow> answer_client can fd [] (qmi_proxy_connection x) x;
             Some (x\<lparr>qmi_proxy_ctl_msg := rest\<rparr>) });
     next_request can x }"

text \<open>A message of a service goes to every client id it fits; the client id 0 fits all of the service.\<close>

fun send_fitting :: "writable \<Rightarrow> byte \<Rightarrow> byte \<Rightarrow> (int \<times> byte \<times> byte) list \<Rightarrow> qmi_proxy \<Rightarrow> qmi_proxy option" where
  "send_fitting can t c [] x = Some x"
| "send_fitting can t c ((fd, t', c') # is) x =
     (if t = t' \<and> (c = 0 \<or> c = c')
      then do { x \<leftarrow> send_qmi_to_client can (qmi_buf x) fd x; send_fitting can t c is x }
      else send_fitting can t c is x)"

definition all_ids :: "qmi_proxy \<Rightarrow> (int \<times> byte \<times> byte) list" where
  "all_ids x = concat (map (\<lambda>con. map (\<lambda>i. (ClientFd con, i)) (client_ids con)) (qmi_proxy_connection x))"

definition recv_qmi_from_dev :: "writable \<Rightarrow> qmi_proxy \<Rightarrow> qmi_proxy option" where
  "recv_qmi_from_dev can x =
     (if qmi_proxy_server_fd x = -1 then Some (x\<lparr>qmi_sync_done := True\<rparr>)
      else do {
        t \<leftarrow> qmi_type (qmi_buf x);
        (if t = QMUX_TYPE_CTL then recv_ctl_from_dev can x
         else do { c \<leftarrow> qmi_client (qmi_buf x); send_fitting can t c (all_ids x) x }) })"

section \<open>A message of a client\<close>

definition recv_qmi_from_client :: "writable \<Rightarrow> nat \<Rightarrow> int \<Rightarrow> qmi_proxy \<Rightarrow> qmi_proxy option" where
  "recv_qmi_from_client can nreads clientfd x =
     (if qmi_proxy_server_fd x \<le> 0 then send_qmi_to_cdc_wdm can (qmi_buf x) x
      else do {
        t \<leftarrow> qmi_type (qmi_buf x);
        (if t \<noteq> QMUX_TYPE_CTL then send_qmi_to_cdc_wdm can (qmi_buf x) x
         else do {
           ty \<leftarrow> ctl_type (qmi_buf x);
           (if ty = QMICTL_SYNC_REQ then Some x
            else do {
              x \<leftarrow> (if qmi_proxy_ctl_msg x = [] then send_qmi_to_cdc_wdm can (qmi_buf x) x else Some x);
              Some (x\<lparr>qmi_proxy_ctl_msg := qmi_proxy_ctl_msg x @ [(clientfd, take nreads (qmi_buf x))]\<rparr>) }) }) })"

section \<open>The loop\<close>

text \<open>The descriptors that are polled besides that of the device: 66 in all.\<close>

definition polled_clients :: "qmi_proxy \<Rightarrow> int list" where
  "polled_clients x = map ClientFd (take (66 - (if qmi_proxy_server_fd x > 0 then 2 else 1)) (qmi_proxy_connection x))"

text \<open>What the loop finds at one descriptor: a message or an error of the device, a new client, a
  message of a client or its end. The flag of the result says that the loop is left.\<close>

datatype proxy_event = Dev_Msg bytes | Dev_Gone | New_Client int | Client_Msg int bytes | Client_Gone int

definition read_buf :: "bytes \<Rightarrow> qmi_proxy \<Rightarrow> qmi_proxy" where
  "read_buf m x = x\<lparr>qmi_buf := take 4096 m @ drop (length m) (qmi_buf x)\<rparr>"

definition size_fits :: "bytes \<Rightarrow> qmi_proxy \<Rightarrow> bool" where
  "size_fits m x \<longleftrightarrow> map_option (\<lambda>l. unat l + 1) (qmi_length (qmi_buf x)) = Some (min 4096 (length m))"

definition proxy_event :: "writable \<Rightarrow> proxy_event \<Rightarrow> qmi_proxy \<Rightarrow> (bool \<times> qmi_proxy) option" where
  "proxy_event can e x = (case e of
     Dev_Gone \<Rightarrow> Some (True, x)
   | New_Client fd \<Rightarrow> Some (False, accept_qmi_connection fd x)
   | Client_Gone fd \<Rightarrow> Some (False, cleanup_qmi_connection fd x)
   | Dev_Msg m \<Rightarrow> (let x = read_buf m x in
       if \<not> size_fits m x then Some (False, x)
       else do { x \<leftarrow> recv_qmi_from_dev can x; Some (modem_reset_flag x, x) })
   | Client_Msg fd m \<Rightarrow> (let x = read_buf m x in
       if \<not> size_fits m x then Some (False, x)
       else do { x \<leftarrow> recv_qmi_from_client can (min 4096 (length m)) fd x; Some (False, x) }))"

text \<open>At the end every connection is cleaned up.\<close>

function close_all :: "qmi_proxy \<Rightarrow> qmi_proxy" where
  "close_all x = (case qmi_proxy_connection x of [] \<Rightarrow> x | c # _ \<Rightarrow> close_all (cleanup_qmi_connection (ClientFd c) x))"
  by pat_completeness auto
termination
  by (relation "measure (\<lambda>x. length (qmi_proxy_connection x))") (auto simp: cleanup_qmi_connection_def)

declare close_all.simps [simp del]

fun qmi_proxy_loop :: "(writable \<times> proxy_event) list \<Rightarrow> qmi_proxy \<Rightarrow> qmi_proxy option" where
  "qmi_proxy_loop [] x = Some x"
| "qmi_proxy_loop ((can, e) # es) x = do {
     (quit, x) \<leftarrow> proxy_event can e x;
     (if quit then Some (close_all x) else qmi_proxy_loop es x) }"

section \<open>Synchronisation\<close>

text \<open>The message of round \<open>i\<close>. For each round: whether the send returned a number above 0, and
  whether the thread has seen any message of the device since the start by the end of the second
  that follows. The result, and the messages handed to the send.\<close>

definition sync_message :: "nat \<Rightarrow> bytes" where
  "sync_message i = [0x01] @ le16 11 @ [0x00, QMUX_TYPE_CTL, 0x00] @ [0x00, of_nat (i + 1)] @ le16 QMICTL_SYNC_REQ @ le16 0"

fun init_rounds :: "nat \<Rightarrow> (bool \<times> bool) list \<Rightarrow> bytes list \<times> bool" where
  "init_rounds i [] = ([], False)"
| "init_rounds i ((written, synced) # rs) =
     (if i \<ge> 10 then ([], False)
      else if \<not> written then ([sync_message i], synced)
      else if synced then ([sync_message i], True)
      else case init_rounds (i + 1) rs of (ms, d) \<Rightarrow> (sync_message i # ms, d))"

definition qmi_proxy_init :: "(bool \<times> bool) list \<Rightarrow> int \<times> bytes list" where
  "qmi_proxy_init rs = (case init_rounds 0 rs of (ms, d) \<Rightarrow> (if d then 0 else -1, ms))"

section \<open>Requests and answers in order\<close>

definition is_ctl :: "bytes \<Rightarrow> bool" where "is_ctl m \<longleftrightarrow> qmi_type m = Some QMUX_TYPE_CTL"

definition is_request :: "bytes \<Rightarrow> bool" where "is_request m \<longleftrightarrow> is_ctl m \<and> ctl_type m \<noteq> Some QMICTL_SYNC_REQ"

definition is_answer :: "bytes \<Rightarrow> bool" where "is_answer m \<longleftrightarrow> is_ctl m \<and> ctl_flags m = Some QMICTL_CTL_FLAG_RSP"

text \<open>A message with the number of bytes its header states, that has a control header.\<close>

definition whole :: "bytes \<Rightarrow> bool" where
  "whole m \<longleftrightarrow> 12 \<le> length m \<and> length m \<le> 4096 \<and> map_option (\<lambda>l. unat l + 1) (qmi_length m) = Some (length m)"

text \<open>Runs in which no client leaves and the device answers only what it was asked. \<open>fds\<close> are the
  clients, \<open>k\<close> the number of requests without an answer.\<close>

fun orderly :: "int list \<Rightarrow> nat \<Rightarrow> proxy_event list \<Rightarrow> bool" where
  "orderly fds k [] \<longleftrightarrow> True"
| "orderly fds k (New_Client fd # es) \<longleftrightarrow> fd \<notin> set fds \<and> orderly (fds @ [fd]) k es"
| "orderly fds k (Client_Msg fd m # es) \<longleftrightarrow> fd \<in> set fds \<and> whole m \<and> orderly fds (if is_request m then k + 1 else k) es"
| "orderly fds k (Dev_Msg m # es) \<longleftrightarrow> whole m \<and>
     (if is_answer m then k > 0 \<and> ctl_type m \<noteq> Some QMICTL_REVOKE_CLIENT_ID_IND \<and> orderly fds (k - 1) es
      else (is_ctl m \<longrightarrow> k = 0) \<and> orderly fds k es)"
| "orderly fds k (Client_Gone fd # es) \<longleftrightarrow> False"
| "orderly fds k (Dev_Gone # es) \<longleftrightarrow> False"

fun asked :: "proxy_event list \<Rightarrow> (int \<times> bytes) list" where
  "asked [] = []"
| "asked (Client_Msg fd m # es) = (if is_request m then [(fd, m)] else []) @ asked es"
| "asked (_ # es) = asked es"

fun answered :: "proxy_event list \<Rightarrow> bytes list" where
  "answered [] = []"
| "answered (Dev_Msg m # es) = (if is_answer m then [m] else []) @ answered es"
| "answered (_ # es) = answered es"

definition serves :: "(int \<times> bytes) list \<Rightarrow> bytes list \<Rightarrow> int list \<Rightarrow> qmi_proxy \<Rightarrow> bool" where
  "serves as bs fds x \<longleftrightarrow>
     qmi_proxy_ctl_msg x = drop (length bs) as \<and>
     filter is_ctl (to_dev x) = map snd (take (length bs + 1) as) \<and>
     filter (\<lambda>a. is_ctl (snd a)) (to_clients x) = zip (map fst as) bs \<and>
     length bs \<le> length as \<and> fst ` set as \<subseteq> set fds \<and> (\<forall>a \<in> set as. whole (snd a) \<and> is_ctl (snd a)) \<and>
     map ClientFd (qmi_proxy_connection x) = fds \<and> distinct fds \<and>
     0 < qmi_proxy_server_fd x \<and> \<not> modem_reset_flag x \<and> length (qmi_buf x) = 4096"

definition all_can :: writable where "all_can p = True"

lemma fields_of_prefix:
  assumes "12 \<le> length m"
  shows "qmi_length (m @ r) = qmi_length m" "qmi_type (m @ r) = qmi_type m" "qmi_client (m @ r) = qmi_client m"
    "ctl_flags (m @ r) = ctl_flags m" "ctl_type (m @ r) = ctl_type m"
  using assms by (simp_all add: qmi_length_def qmi_type_def qmi_client_def ctl_flags_def ctl_type_def rd16_def rd8_def nth_append)

lemma whole_read:
  assumes "whole m" "length (qmi_buf x) = 4096"
  obtains r where "read_buf m x = x\<lparr>qmi_buf := m @ r\<rparr>" "length (m @ r) = 4096"
  using assms by (simp add: read_buf_def whole_def)

lemma whole_fits: "whole m \<Longrightarrow> size_fits m (x\<lparr>qmi_buf := m @ r\<rparr>)"
  by (simp add: size_fits_def whole_def fields_of_prefix)

lemma message_of_whole: "whole m \<Longrightarrow> message_of (m @ r) = Some m"
  by (auto simp: message_of_def whole_def fields_of_prefix rdn_def)

lemma send_whole:
  assumes "whole m"
  shows "send_qmi_to_cdc_wdm all_can (m @ r) x = Some (x\<lparr>to_dev := to_dev x @ [m]\<rparr>)"
    "send_qmi_to_cdc_wdm all_can m x = Some (x\<lparr>to_dev := to_dev x @ [m]\<rparr>)"
    "send_qmi_to_client all_can (m @ r) fd x = Some (x\<lparr>to_clients := to_clients x @ [(fd, m)]\<rparr>)"
  using message_of_whole [OF assms, of "[]"]
  by (simp_all add: send_qmi_to_cdc_wdm_def send_qmi_to_client_def all_can_def message_of_whole [OF assms])

lemma rd_total: "i < length m \<Longrightarrow> \<exists>b. rd8 m i = Some b" "i + 1 < length m \<Longrightarrow> \<exists>b. rd16 m i = Some b"
  by (simp_all add: rd16_def rd8_def)

lemma id_result_total: "length m = 4096 \<Longrightarrow> \<exists>r. id_result m = Some r"
  using rd_total(2) [of 15 m] rd_total(2) [of 17 m] rd_total(1) [of 22 m] rd_total(1) [of 23 m]
  by (auto simp: id_result_def)

lemma answer_connection_total: "length m = 4096 \<Longrightarrow> \<exists>c'. answer_connection m c = Some c' \<and> ClientFd c' = ClientFd c"
  using rd_total(2) [of 8 m] id_result_total [of m]
  by (auto simp: answer_connection_def get_client_id_def release_client_id_def ctl_type_def split: option.split)

lemma answer_none:
  "fd \<notin> ClientFd ` set cs \<Longrightarrow> answer_client can fd before cs x = Some (x\<lparr>qmi_proxy_connection := before @ cs\<rparr>)"
  by (induction cs arbitrary: before) auto

lemma answer_one:
  assumes "whole m" "qmi_buf x = m @ r" "length (m @ r) = 4096" "ctl_type m \<noteq> Some QMICTL_REVOKE_CLIENT_ID_IND"
    "distinct (map ClientFd cs)" "fd \<in> ClientFd ` set cs"
  shows "\<exists>cs'. map ClientFd cs' = map ClientFd (before @ cs) \<and> answer_client all_can fd before cs x =
    Some (x\<lparr>to_clients := to_clients x @ [(fd, m)], qmi_proxy_connection := cs'\<rparr>)"
  using assms(5,6)
proof (induction cs arbitrary: before)
  case (Cons c cs)
  show ?case
  proof (cases "ClientFd c = fd")
    case True
    obtain c' where c': "answer_connection (m @ r) c = Some c'" "ClientFd c' = ClientFd c"
      using answer_connection_total assms(3) by blast
    obtain ty where ty: "ctl_type (m @ r) = Some ty" "ty \<noteq> QMICTL_REVOKE_CLIENT_ID_IND"
      using rd_total(2) [of 8 "m @ r"] assms(1,3,4) fields_of_prefix(5) [of m r] by (auto simp: ctl_type_def whole_def)
    have n: "fd \<notin> ClientFd ` set cs" using Cons.prems(1) True by auto
    have "answer_client all_can fd before (c # cs) x =
        Some (x\<lparr>to_clients := to_clients x @ [(fd, m)], qmi_proxy_connection := before @ c' # cs\<rparr>)"
      using True assms(2) by (simp add: send_whole(3) [OF assms(1)] c'(1) ty answer_none [OF n])
    then show ?thesis using c'(2) by (intro exI [of _ "before @ c' # cs"]) simp
  next
    case False
    then show ?thesis using Cons.IH [of "before @ [c]"] Cons.prems by auto
  qed
qed simp

lemma request_none: "fst q \<notin> ClientFd ` set cs \<Longrightarrow> send_request can q cs x = Some x"
  by (induction cs) auto

lemma request_one:
  assumes "whole (snd q)" "distinct (map ClientFd cs)" "fst q \<in> ClientFd ` set cs"
  shows "send_request all_can q cs x = Some (x\<lparr>to_dev := to_dev x @ [snd q]\<rparr>)"
  using assms(2,3)
proof (induction cs)
  case (Cons c cs)
  then show ?case
    by (cases "ClientFd c = fst q") (auto simp: send_whole(2) [OF assms(1)] request_none simp del: send_request.simps(1))
qed simp

lemma fitting_no_ctl:
  assumes "whole m" "\<not> is_ctl m" "qmi_buf x = m @ r"
  shows "\<exists>zs. send_fitting all_can t c is x = Some (x\<lparr>to_clients := to_clients x @ zs\<rparr>) \<and> filter (\<lambda>a. is_ctl (snd a)) zs = []"
  using assms(3)
proof (induction "is" arbitrary: x)
  case Nil
  show ?case by (rule exI [of _ "[]"]) simp
next
  case (Cons i "is")
  obtain fd t' c' where i: "i = (fd, t', c')" by (rule prod_cases3)
  show ?case
  proof (cases "t = t' \<and> (c = 0 \<or> c = c')")
    case True
    let ?x = "x\<lparr>to_clients := to_clients x @ [(fd, m)]\<rparr>"
    obtain zs where "send_fitting all_can t c is ?x = Some (?x\<lparr>to_clients := to_clients ?x @ zs\<rparr>)" "filter (\<lambda>a. is_ctl (snd a)) zs = []"
      using Cons.IH [of ?x] Cons.prems by auto
    then show ?thesis using True assms(2) Cons.prems send_whole(3) [OF assms(1)]
      by (intro exI [of _ "(fd, m) # zs"]) (simp add: i)
  next
    case False
    then have "send_fitting all_can t c (i # is) x = send_fitting all_can t c is x" by (simp only: i send_fitting.simps if_False)
    then show ?thesis using Cons by simp
  qed
qed

lemma zip_next:
  assumes "length bs < length as"
  shows "zip as (bs @ [b]) = zip as bs @ [(as ! length bs, b)]"
proof -
  have "zip (take (length bs) as @ as ! length bs # drop (Suc (length bs)) as) (bs @ [b]) =
      zip (take (length bs) as) bs @ [(as ! length bs, b)]" using assms by (simp add: zip_append)
  moreover have "zip (take (length bs) as) bs = zip as bs" using take_zip [of "length bs" as bs] by simp
  ultimately show ?thesis using id_take_nth_drop [OF assms] by simp
qed

lemma serves_client:
  assumes s: "serves as bs fds x" and m: "fd \<in> set fds" "whole m"
  shows "\<exists>x'. proxy_event all_can (Client_Msg fd m) x = Some (False, x') \<and>
    serves (as @ (if is_request m then [(fd, m)] else [])) bs fds x'"
proof -
  obtain r where r: "read_buf m x = x\<lparr>qmi_buf := m @ r\<rparr>" "length (m @ r) = 4096"
    using whole_read [OF m(2)] s by (auto simp: serves_def)
  let ?x = "x\<lparr>qmi_buf := m @ r\<rparr>"
  have 12: "12 \<le> length m" "length m \<le> 4096" using m(2) by (simp_all add: whole_def)
  note f = fields_of_prefix [OF 12(1), of r]
  obtain t ty where t: "qmi_type m = Some t" "ctl_type m = Some ty"
    using rd_total(1) [of 4 m] rd_total(2) [of 8 m] 12 by (auto simp: qmi_type_def ctl_type_def)
  have e: "proxy_event all_can (Client_Msg fd m) x = do { x \<leftarrow> recv_qmi_from_client all_can (length m) fd ?x; Some (False, x) }"
    using 12 whole_fits [OF m(2)] by (simp add: proxy_event_def r)
  have srv: "\<not> qmi_proxy_server_fd x \<le> 0" using s by (simp add: serves_def)
  consider (service) "t \<noteq> QMUX_TYPE_CTL" | (sync) "t = QMUX_TYPE_CTL" "ty = QMICTL_SYNC_REQ"
    | (request) "t = QMUX_TYPE_CTL" "ty \<noteq> QMICTL_SYNC_REQ" by blast
  then show ?thesis
  proof cases
    case service
    then have "recv_qmi_from_client all_can (length m) fd ?x = Some (?x\<lparr>to_dev := to_dev x @ [m]\<rparr>)"
      using srv by (simp add: recv_qmi_from_client_def f t send_whole(1) [OF m(2)])
    moreover have "\<not> is_ctl m" using service t by (simp add: is_ctl_def)
    ultimately show ?thesis using s e r(2) by (simp add: serves_def is_request_def)
  next
    case sync
    then have "recv_qmi_from_client all_can (length m) fd ?x = Some ?x"
      using srv by (simp add: recv_qmi_from_client_def f t)
    moreover have "\<not> is_request m" using sync t by (simp add: is_request_def)
    ultimately show ?thesis using s e r(2) by (simp add: serves_def)
  next
    case request
    then have q: "is_request m" "is_ctl m" using t by (simp_all add: is_request_def is_ctl_def)
    let ?q = "qmi_proxy_ctl_msg x"
    have rec: "recv_qmi_from_client all_can (length m) fd ?x =
        Some (?x\<lparr>to_dev := to_dev x @ (if ?q = [] then [m] else []), qmi_proxy_ctl_msg := ?q @ [(fd, m)]\<rparr>)"
      using srv request by (simp add: recv_qmi_from_client_def f t send_whole(1) [OF m(2)])
    have len: "?q = [] \<longleftrightarrow> length as = length bs" "length bs \<le> length as" using s by (auto simp: serves_def)
    have dev: "map snd (take (length bs + 1) (as @ [(fd, m)])) = map snd (take (length bs + 1) as) @ (if ?q = [] then [m] else [])"
      using len by auto
    have z: "zip (map fst (as @ [(fd, m)])) bs = zip (map fst as) bs"
      using len(2) by (simp add: zip_append1)
    show ?thesis
      using s e rec r(2) q m dev z len(2) unfolding serves_def
      by (simp add: drop_append del: take_append zip_append)
  qed
qed

lemma map_fds: "map ClientFd cs = fds \<Longrightarrow> fd \<in> ClientFd ` set cs \<longleftrightarrow> fd \<in> set fds"
  by auto

lemma serves_queue:
  assumes "serves as bs fds x" "fd \<in> fst ` set as"
  shows "fd \<in> ClientFd ` set (qmi_proxy_connection x)" "distinct (map ClientFd (qmi_proxy_connection x))"
  using assms by (auto simp: serves_def)

text \<open>The next request goes to the device, once.\<close>

lemma next_request_sends:
  assumes "\<forall>q \<in> set (qmi_proxy_ctl_msg x). whole (snd q) \<and> fst q \<in> ClientFd ` set (qmi_proxy_connection x)"
    "distinct (map ClientFd (qmi_proxy_connection x))"
  shows "next_request all_can x = Some (x\<lparr>to_dev := to_dev x @ map snd (take 1 (qmi_proxy_ctl_msg x))\<rparr>)"
proof (cases "qmi_proxy_ctl_msg x")
  case Nil
  then show ?thesis by (simp add: next_request_def)
next
  case (Cons q qs)
  then show ?thesis using assms request_one [of q "qmi_proxy_connection x" x] by (simp add: next_request_def)
qed

lemma serves_device:
  assumes s: "serves as bs fds x" and m: "whole m"
    and k: "if is_answer m then length bs < length as \<and> ctl_type m \<noteq> Some QMICTL_REVOKE_CLIENT_ID_IND
      else is_ctl m \<longrightarrow> length as = length bs"
  shows "\<exists>x'. proxy_event all_can (Dev_Msg m) x = Some (False, x') \<and>
    serves as (bs @ (if is_answer m then [m] else [])) fds x'"
proof -
  obtain r where r: "read_buf m x = x\<lparr>qmi_buf := m @ r\<rparr>" "length (m @ r) = 4096"
    using whole_read [OF m] s by (auto simp: serves_def)
  let ?x = "x\<lparr>qmi_buf := m @ r\<rparr>"
  have 12: "12 \<le> length m" "length m \<le> 4096" using m by (simp_all add: whole_def)
  note f = fields_of_prefix [OF 12(1), of r]
  obtain t fl c where t: "qmi_type m = Some t" "ctl_flags m = Some fl" "qmi_client m = Some c"
    using rd_total(1) [of 4 m] rd_total(1) [of 5 m] rd_total(1) [of 6 m] 12
    by (auto simp: qmi_type_def ctl_flags_def qmi_client_def)
  have e: "proxy_event all_can (Dev_Msg m) x = do { x \<leftarrow> recv_qmi_from_dev all_can ?x; Some (modem_reset_flag x, x) }"
    using 12 whole_fits [OF m] by (simp add: proxy_event_def r)
  have srv: "qmi_proxy_server_fd x \<noteq> - 1" "\<not> modem_reset_flag x" using s by (simp_all add: serves_def)
  consider (service) "\<not> is_ctl m" | (other) "is_ctl m" "\<not> is_answer m" | (answer) "is_answer m" by blast
  then show ?thesis
  proof cases
    case service
    then have "t \<noteq> QMUX_TYPE_CTL" "\<not> is_answer m" using t by (simp_all add: is_ctl_def is_answer_def)
    moreover obtain zs where "send_fitting all_can t c (all_ids ?x) ?x = Some (?x\<lparr>to_clients := to_clients x @ zs\<rparr>)"
        "filter (\<lambda>a. is_ctl (snd a)) zs = []"
      using fitting_no_ctl [OF m service, of ?x r t c "all_ids ?x"] by auto
    ultimately show ?thesis using s e srv r(2) t by (simp add: recv_qmi_from_dev_def f serves_def)
  next
    case other
    then have "t = QMUX_TYPE_CTL" "fl \<noteq> QMICTL_CTL_FLAG_RSP" using t by (simp_all add: is_ctl_def is_answer_def)
    moreover have "qmi_proxy_ctl_msg x = []" using s k other by (simp add: serves_def)
    ultimately have "recv_qmi_from_dev all_can ?x = Some ?x"
      using srv t by (simp add: recv_qmi_from_dev_def f recv_ctl_from_dev_def next_request_def)
    then show ?thesis using s e srv other r(2) by (simp add: serves_def)
  next
    case answer
    then have q: "t = QMUX_TYPE_CTL" "fl = QMICTL_CTL_FLAG_RSP" "is_ctl m" using t by (auto simp: is_ctl_def is_answer_def)
    have n: "length bs < length as" "ctl_type m \<noteq> Some QMICTL_REVOKE_CLIENT_ID_IND" using k answer by simp_all
    obtain fd mq where a: "as ! length bs = (fd, mq)" by (cases "as ! length bs")
    have queue: "qmi_proxy_ctl_msg x = (fd, mq) # drop (length bs + 1) as"
      using s n(1) a by (simp add: serves_def Cons_nth_drop_Suc [symmetric])
    have "fd \<in> fst ` set as" using nth_mem [OF n(1)] a by force
    note c1 = serves_queue [OF s this]
    obtain cs' where cs': "map ClientFd cs' = map ClientFd (qmi_proxy_connection x)"
      "answer_client all_can fd [] (qmi_proxy_connection x) ?x =
        Some (?x\<lparr>to_clients := to_clients x @ [(fd, m)], qmi_proxy_connection := cs'\<rparr>)"
      using answer_one [OF m, of ?x r "qmi_proxy_connection x" fd "[]"] r(2) n(2) c1 by auto
    let ?y = "?x\<lparr>to_clients := to_clients x @ [(fd, m)], qmi_proxy_connection := cs', qmi_proxy_ctl_msg := drop (length bs + 1) as\<rparr>"
    have "next_request all_can ?y = Some (?y\<lparr>to_dev := to_dev ?y @ map snd (take 1 (qmi_proxy_ctl_msg ?y))\<rparr>)"
    proof (rule next_request_sends)
      show "distinct (map ClientFd (qmi_proxy_connection ?y))" using c1(2) cs'(1) by simp
      have "set (map ClientFd cs') = set fds" using cs'(1) s by (simp only: serves_def)
      then have "ClientFd ` set cs' = set fds" by simp
      then show "\<forall>q \<in> set (qmi_proxy_ctl_msg ?y). whole (snd q) \<and> fst q \<in> ClientFd ` set (qmi_proxy_connection ?y)"
        using s by (auto simp: serves_def dest!: in_set_dropD)
    qed
    then have rec: "recv_qmi_from_dev all_can ?x = Some (?y\<lparr>to_dev := to_dev x @ map snd (take 1 (drop (length bs + 1) as))\<rparr>)"
      using srv t q cs'(2) by (simp add: recv_qmi_from_dev_def f recv_ctl_from_dev_def queue)
    have dev: "map snd (take (length bs + 1) as) @ map snd (take 1 (drop (length bs + 1) as)) = map snd (take (length bs + 2) as)"
      using arg_cong [OF take_add [of "length bs + 1" 1 as], of "map snd"] by simp
    have ctl: "filter is_ctl (map snd (take 1 (drop (length bs + 1) as))) = map snd (take 1 (drop (length bs + 1) as))"
      using s by (auto simp: serves_def filter_id_conv dest!: in_set_takeD in_set_dropD)
    have z: "zip (map fst as) (bs @ [m]) = zip (map fst as) bs @ [(fd, m)]"
      using zip_next [of bs "map fst as" m] n(1) a by simp
    show ?thesis
      using s e rec srv answer q(3) r(2) n(1) dev ctl z cs'(1) unfolding serves_def by simp
  qed
qed

lemma orderly_run:
  assumes "serves as bs fds x" "orderly fds (length as - length bs) es"
  shows "\<exists>x' fds'. qmi_proxy_loop (map (Pair all_can) es) x = Some x' \<and> serves (as @ asked es) (bs @ answered es) fds' x'"
  using assms
proof (induction es arbitrary: as bs fds x)
  case Nil
  then show ?case by auto
next
  case (Cons e es)
  have len: "length bs \<le> length as" using Cons.prems(1) by (simp add: serves_def)
  have go: ?case
    if step: "proxy_event all_can e x = Some (False, x1)" "serves (as @ asked [e]) (bs @ answered [e]) fds1 x1"
      and rest: "orderly fds1 (length (as @ asked [e]) - length (bs @ answered [e])) es"
      and ghost: "asked (e # es) = asked [e] @ asked es" "answered (e # es) = answered [e] @ answered es" for x1 fds1
    using Cons.IH [OF step(2) rest] step(1) by (simp add: ghost)
  show ?case
  proof (cases e)
    case (New_Client fd)
    let ?x = "accept_qmi_connection fd x"
    have "serves as bs (fds @ [fd]) ?x"
      using Cons.prems New_Client by (auto simp: serves_def accept_qmi_connection_def)
    then show ?thesis using go [of ?x "fds @ [fd]"] Cons.prems(2) New_Client by (simp add: proxy_event_def)
  next
    case (Client_Msg fd m)
    then have "fd \<in> set fds" "whole m" using Cons.prems(2) by simp_all
    then obtain x' where "proxy_event all_can (Client_Msg fd m) x = Some (False, x')"
        "serves (as @ (if is_request m then [(fd, m)] else [])) bs fds x'"
      using serves_client [OF Cons.prems(1)] by blast
    then show ?thesis using go [of x' fds] Cons.prems(2) Client_Msg len
      by (auto simp: Suc_diff_le split: if_splits)
  next
    case (Dev_Msg m)
    have "if is_answer m then length bs < length as \<and> ctl_type m \<noteq> Some QMICTL_REVOKE_CLIENT_ID_IND
      else is_ctl m \<longrightarrow> length as = length bs" "whole m"
      using Cons.prems(2) Dev_Msg len by (auto split: if_splits)
    then obtain x' where "proxy_event all_can (Dev_Msg m) x = Some (False, x')"
        "serves as (bs @ (if is_answer m then [m] else [])) fds x'"
      using serves_device [OF Cons.prems(1)] by blast
    then show ?thesis using go [of x' fds] Cons.prems(2) Dev_Msg
      by (auto split: if_splits)
  qed (use Cons.prems(2) in simp_all)
qed


text \<open>Two clients ask for their ids; the second asks before the first has its answer.\<close>

definition id_request :: "byte \<Rightarrow> bytes" where
  "id_request tid = [1, 15, 0, 0, 0, 0, 0, tid, 0x22, 0, 4, 0, 1, 1, 0, 1]"

definition id_answer :: "byte \<Rightarrow> byte \<Rightarrow> bytes" where
  "id_answer tid c = [1, 23, 0, 0, 0, 0, 1, tid, 0x22, 0, 12, 0, 2, 4, 0, 0, 0, 0, 0, 1, 2, 0, 1, c]"

definition two_clients :: "proxy_event list" where
  "two_clients = [New_Client 7, New_Client 8, Client_Msg 7 (id_request 1), Client_Msg 8 (id_request 9),
     Dev_Msg (id_answer 1 20)]"

lemmas two_clients_defs = two_clients_def id_request_def id_answer_def

lemma example_lengths: "le16_join 15 0 = 15" "le16_join 23 0 = 23" "le16_join 34 0 = 34"
  by (simp_all add: le16_join_def)

lemma example_messages:
  "whole (id_request t)" "is_request (id_request t)" "whole (id_answer t c)" "is_answer (id_answer t c)"
  "ctl_type (id_answer t c) \<noteq> Some QMICTL_REVOKE_CLIENT_ID_IND"
  by (simp_all add: id_request_def id_answer_def whole_def is_request_def is_answer_def is_ctl_def qmi_type_def ctl_type_def
      ctl_flags_def qmi_length_def rd16_def rd8_def le_simps QMUX_TYPE_CTL_def QMICTL_SYNC_REQ_def QMICTL_CTL_FLAG_RSP_def
      QMICTL_REVOKE_CLIENT_ID_IND_def example_lengths)


section \<open>A client that leaves\<close>

text \<open>Property C30: a client that leaves while the device works on its request takes an answer from
  somebody else. Its request is forgotten, so when the answer comes it is given to the client whose
  request is next, and that request is dropped although it was never written to the device.\<close>

theorem leaving_client_misdirects_answer:
  assumes "qmi_proxy_ctl_msg x = [(a, ma), (b, mb)]" "a \<noteq> b"
    "map ClientFd (qmi_proxy_connection x) = [a, b]" "0 < qmi_proxy_server_fd x" "length (qmi_buf x) = 4096"
    "whole m" "is_answer m" "ctl_type m \<noteq> Some QMICTL_REVOKE_CLIENT_ID_IND" "\<not> modem_reset_flag x"
  shows "\<exists>x'. qmi_proxy_loop [(all_can, Client_Gone a), (all_can, Dev_Msg m)] x = Some x' \<and>
    to_clients x' = to_clients x @ [(b, m)] \<and> to_dev x' = to_dev x \<and> qmi_proxy_ctl_msg x' = []"
proof -
  obtain ca cb where c: "qmi_proxy_connection x = [ca, cb]" "ClientFd ca = a" "ClientFd cb = b"
    using assms(3) by (auto simp: map_eq_Cons_conv)
  let ?x1 = "cleanup_qmi_connection a x"
  have x1: "qmi_proxy_connection ?x1 = [cb]" "qmi_proxy_ctl_msg ?x1 = [(b, mb)]" "to_clients ?x1 = to_clients x"
    "to_dev ?x1 = to_dev x" "qmi_proxy_server_fd ?x1 = qmi_proxy_server_fd x" "length (qmi_buf ?x1) = 4096"
    "\<not> modem_reset_flag ?x1"
    using assms(1,2,5,9) c by (simp_all add: cleanup_qmi_connection_def)
  obtain r where r: "read_buf m ?x1 = ?x1\<lparr>qmi_buf := m @ r\<rparr>" "length (m @ r) = 4096"
    using whole_read [OF assms(6) x1(6)] by blast
  let ?x = "?x1\<lparr>qmi_buf := m @ r\<rparr>"
  have 12: "12 \<le> length m" "length m \<le> 4096" using assms(6) by (simp_all add: whole_def)
  note f = fields_of_prefix [OF 12(1), of r]
  have t: "qmi_type m = Some QMUX_TYPE_CTL" "ctl_flags m = Some QMICTL_CTL_FLAG_RSP"
    using assms(7) by (simp_all add: is_answer_def is_ctl_def)
  obtain cs' where "answer_client all_can b [] [cb] ?x =
      Some (?x\<lparr>to_clients := to_clients x @ [(b, m)], qmi_proxy_connection := cs'\<rparr>)"
    using answer_one [OF assms(6), of ?x r "[cb]" b "[]"] r(2) assms(8) c(3) x1(3) by auto
  then have "recv_qmi_from_dev all_can ?x =
      Some (?x\<lparr>to_clients := to_clients x @ [(b, m)], qmi_proxy_connection := cs', qmi_proxy_ctl_msg := []\<rparr>)"
    using assms(4) x1 t by (simp add: recv_qmi_from_dev_def f recv_ctl_from_dev_def next_request_def)
  then have "proxy_event all_can (Dev_Msg m) ?x1 =
      Some (False, ?x\<lparr>to_clients := to_clients x @ [(b, m)], qmi_proxy_connection := cs', qmi_proxy_ctl_msg := []\<rparr>)"
    using 12 whole_fits [OF assms(6)] x1(7) by (simp add: proxy_event_def r)
  moreover have "proxy_event all_can (Client_Gone a) x = Some (False, ?x1)" by (simp add: proxy_event_def)
  ultimately show ?thesis using x1 by simp
qed

definition two_waiting :: qmi_proxy where
  "two_waiting = (proxy_start 5)\<lparr>qmi_proxy_connection := [\<lparr>ClientFd = 7, client_ids = []\<rparr>, \<lparr>ClientFd = 8, client_ids = []\<rparr>],
     qmi_proxy_ctl_msg := [(7, id_request 1), (8, id_request 9)], to_dev := [id_request 1]\<rparr>"

theorem leaving_client_misdirects_answer_witness:
  "\<exists>x'. qmi_proxy_loop [(all_can, Client_Gone 7), (all_can, Dev_Msg (id_answer 1 20))] two_waiting = Some x' \<and>
     to_clients x' = [(8, id_answer 1 20)] \<and> to_dev x' = [id_request 1]"
  using leaving_client_misdirects_answer [of two_waiting 7 "id_request 1" 8 "id_request 9" "id_answer 1 20"]
  by (simp add: two_waiting_def proxy_start_def example_messages del: qmi_proxy_loop.simps) blast

end
