(* ===== verification/Qrtr_Proxy.thy ===== *)
theory Qrtr_Proxy
  imports Qmi_Proxy "HOL-Library.Multiset"
begin

text \<open>
  \<^verbatim>\<open>quectel_cm_5G/src/quectel-qrtr-proxy.c\<close> and \<^verbatim>\<open>qrtr.h\<close>: the program through which the clients of a QMI
  socket use a modem that is reached by QRTR packets. It gives out the client ids itself, a port of its
  own for each, and translates the headers. Ring lists are lists (\<^verbatim>\<open>Qlist\<close>). Packets and messages are
  recorded as handed to \<open>write\<close> (the results are not used), packets without the up to three bytes that
  fill them up. \<open>None\<close> is an access outside the receive buffer.
\<close>

section \<open>Packets\<close>

definition QRTR_TYPE_DATA :: u32 where "QRTR_TYPE_DATA = 1"
definition QRTR_TYPE_HELLO :: u32 where "QRTR_TYPE_HELLO = 2"
definition QRTR_TYPE_NEW_SERVER :: u32 where "QRTR_TYPE_NEW_SERVER = 4"
definition QRTR_TYPE_DEL_SERVER :: u32 where "QRTR_TYPE_DEL_SERVER = 5"
definition QRTR_TYPE_DEL_CLIENT :: u32 where "QRTR_TYPE_DEL_CLIENT = 6"
definition QRTR_TYPE_RESUME_TX :: u32 where "QRTR_TYPE_RESUME_TX = 7"
definition QRTR_NODE_BCAST :: u32 where "QRTR_NODE_BCAST = 0xffffffff"
definition QRTR_PORT_CTRL :: u32 where "QRTR_PORT_CTRL = 0xfffffffe"
definition node_modem :: u32 where "node_modem = 3"
definition node_myself :: u32 where "node_myself = 1"

text \<open>An address is a node and a port.\<close>

type_synonym qrtr_addr = "u32 \<times> u32"

definition qrtr_packet :: "u32 \<Rightarrow> qrtr_addr \<Rightarrow> qrtr_addr \<Rightarrow> bool \<Rightarrow> bytes \<Rightarrow> bytes" where
  "qrtr_packet ty src dst confirm d =
     le32 1 @ le32 ty @ le32 (fst src) @ le32 (snd src) @ le32 (of_bool confirm) @ le32 (of_nat (length d)) @
     le32 (fst dst) @ le32 (snd dst) @ d"

definition hdr_type :: "bytes \<Rightarrow> u32 option" where "hdr_type m = rd32 m 4"
definition hdr_src :: "bytes \<Rightarrow> qrtr_addr option" where "hdr_src m = do { a \<leftarrow> rd32 m 8; b \<leftarrow> rd32 m 12; Some (a, b) }"
definition hdr_confirm :: "bytes \<Rightarrow> u32 option" where "hdr_confirm m = rd32 m 16"
definition hdr_size :: "bytes \<Rightarrow> u32 option" where "hdr_size m = rd32 m 20"
definition hdr_dst :: "bytes \<Rightarrow> qrtr_addr option" where "hdr_dst m = do { a \<leftarrow> rd32 m 24; b \<leftarrow> rd32 m 28; Some (a, b) }"

definition ctrl_pkt :: "u32 \<Rightarrow> u32 \<Rightarrow> u32 \<Rightarrow> bytes" where
  "ctrl_pkt cmd node port = le32 cmd @ le32 node @ le32 port @ le32 0 @ le32 0"

section \<open>State\<close>

record qrtr_client =
  qc_type :: byte
  qc_id :: byte
  qc_node :: u32
  qc_port :: u32

record qrtr_connection =
  qn_fd :: int
  qn_clients :: "qrtr_client list"

record qrtr_service =
  qs_service :: u32
  qs_version :: u32
  qs_instance :: u32
  qs_node :: u32
  qs_port :: u32
  qs_src_node :: u32
  qs_src_port :: u32

record qrtr_proxy =
  qp_connections :: "qrtr_connection list"
  qp_servers :: "qrtr_service list"
  client_bitmap :: bytes
  port_bitmap :: bytes
  qp_buf :: bytes
  qp_to_dev :: "bytes list"
  qp_to_clients :: "(int \<times> bytes) list"

definition qrtr_start :: qrtr_proxy where
  "qrtr_start = \<lparr>qp_connections = [], qp_servers = [], client_bitmap = replicate 0xf0 0,
     port_bitmap = replicate 0xff0 0, qp_buf = replicate 8192 0, qp_to_dev = [], qp_to_clients = []\<rparr>"

section \<open>Numbers\<close>

text \<open>The first free number of a table from \<open>i\<close> on, marked with its low byte; 0 where none is free.\<close>

function alloc_from :: "nat \<Rightarrow> bytes \<Rightarrow> nat \<times> bytes" where
  "alloc_from i b = (if i < length b then if b ! i = 0 then (i, b[i := of_nat i]) else alloc_from (i + 1) b else (0, b))"
  by auto

termination by (relation "measure (\<lambda>(i, b). length b - i)") auto

declare alloc_from.simps [simp del]

definition alloc_client_id :: "qrtr_proxy \<Rightarrow> nat \<times> qrtr_proxy" where
  "alloc_client_id x = (let (i, b) = alloc_from 1 (client_bitmap x) in (i, x\<lparr>client_bitmap := b\<rparr>))"

definition alloc_port_id :: "qrtr_proxy \<Rightarrow> nat \<times> qrtr_proxy" where
  "alloc_port_id x = (let (i, b) = alloc_from 1 (port_bitmap x) in (i, x\<lparr>port_bitmap := b\<rparr>))"

definition free_in :: "nat \<Rightarrow> bytes \<Rightarrow> bytes" where
  "free_in i b = (if i < length b \<and> unat (b ! i) = i then b[i := 0] else b)"

definition free_client_id :: "nat \<Rightarrow> qrtr_proxy \<Rightarrow> qrtr_proxy" where
  "free_client_id i x = x\<lparr>client_bitmap := free_in i (client_bitmap x)\<rparr>"

definition free_port_id :: "nat \<Rightarrow> qrtr_proxy \<Rightarrow> qrtr_proxy" where
  "free_port_id i x = x\<lparr>port_bitmap := free_in i (port_bitmap x)\<rparr>"

section \<open>Services\<close>

definition find_qrtr_service :: "byte \<Rightarrow> qrtr_proxy \<Rightarrow> qrtr_service option" where
  "find_qrtr_service t x = find (\<lambda>s. qs_service s = ucast t) (qp_servers x)"

definition qrtr_node_enqueue :: "bytes \<Rightarrow> u32 \<Rightarrow> qrtr_addr \<Rightarrow> qrtr_addr \<Rightarrow> bool \<Rightarrow> qrtr_proxy \<Rightarrow> qrtr_proxy" where
  "qrtr_node_enqueue d ty src dst confirm x = x\<lparr>qp_to_dev := qp_to_dev x @ [qrtr_packet ty src dst confirm d]\<rparr>"

definition send_ctrl_hello :: "qrtr_addr \<Rightarrow> qrtr_proxy \<Rightarrow> qrtr_proxy" where
  "send_ctrl_hello dst = qrtr_node_enqueue (ctrl_pkt QRTR_TYPE_HELLO 0 0) QRTR_TYPE_HELLO (node_myself, QRTR_PORT_CTRL) dst False"

definition ctrl_cmd_del_client :: "qrtr_addr \<Rightarrow> byte \<Rightarrow> qrtr_proxy \<Rightarrow> qrtr_proxy" where
  "ctrl_cmd_del_client a t x =
     qrtr_node_enqueue (ctrl_pkt QRTR_TYPE_DEL_CLIENT (fst a) (snd a)) QRTR_TYPE_DATA a
       (case find_qrtr_service t x of None \<Rightarrow> QRTR_NODE_BCAST | Some s \<Rightarrow> qs_src_node s, QRTR_PORT_CTRL) False x"

text \<open>A service that goes is a new node taken out of its own list: the one that is known stays.\<close>

definition handle_server_change :: "qrtr_proxy \<Rightarrow> qrtr_proxy option" where
  "handle_server_change x = (let m = qp_buf x in do {
     node \<leftarrow> rd32 m (32 + 12);
     (if node \<noteq> node_modem then Some x
      else do {
        service \<leftarrow> rd32 m (32 + 4); inst \<leftarrow> rd32 m (32 + 8); port \<leftarrow> rd32 m (32 + 16);
        src \<leftarrow> hdr_src m; ty \<leftarrow> hdr_type m;
        Some (if ty = QRTR_TYPE_NEW_SERVER
          then x\<lparr>qp_servers := qp_servers x @
            [\<lparr>qs_service = service, qs_version = inst AND 0xff, qs_instance = drop_bit 8 inst, qs_node = node, qs_port = port,
              qs_src_node = fst src, qs_src_port = snd src\<rparr>]\<rparr>
          else x) }) })"

section \<open>Clients\<close>

definition alloc_qrtr_client_id :: "byte \<Rightarrow> qrtr_proxy \<Rightarrow> qrtr_client \<times> qrtr_proxy" where
  "alloc_qrtr_client_id t x =
     (let (i, x) = alloc_client_id x; (p, x) = alloc_port_id x
      in (\<lparr>qc_type = t, qc_id = of_nat i, qc_node = 1, qc_port = of_nat p\<rparr>, x))"

definition is_client :: "byte \<Rightarrow> byte \<Rightarrow> qrtr_client \<Rightarrow> bool" where
  "is_client t c q \<longleftrightarrow> qc_type q = t \<and> qc_id q = c"

definition forget_client :: "qrtr_client \<Rightarrow> qrtr_proxy \<Rightarrow> qrtr_proxy" where
  "forget_client q x =
     free_port_id (unat (qc_port q)) (free_client_id (unat (qc_id q)) (ctrl_cmd_del_client (qc_node q, qc_port q) (qc_type q) x))"

definition release_qrtr_client_id :: "byte \<Rightarrow> byte \<Rightarrow> qrtr_client list \<Rightarrow> qrtr_proxy \<Rightarrow> qrtr_client list \<times> qrtr_proxy" where
  "release_qrtr_client_id t c cs x = (case find (is_client t c) cs of
     None \<Rightarrow> (cs, x)
   | Some q \<Rightarrow> (remove_first (is_client t c) cs, forget_client q x))"

text \<open>All clients of a connection, the first one first.\<close>

fun release_all :: "qrtr_client list \<Rightarrow> qrtr_proxy \<Rightarrow> qrtr_proxy" where
  "release_all [] x = x"
| "release_all (q # cs) x = release_all cs (forget_client q x)"

definition accept_qrtr_connection :: "int \<Rightarrow> qrtr_proxy \<Rightarrow> qrtr_proxy" where
  "accept_qrtr_connection fd x = x\<lparr>qp_connections := qp_connections x @ [\<lparr>qn_fd = fd, qn_clients = []\<rparr>]\<rparr>"

definition cleanup_qrtr_connection :: "int \<Rightarrow> qrtr_proxy \<Rightarrow> qrtr_proxy" where
  "cleanup_qrtr_connection fd x = (case find (\<lambda>n. qn_fd n = fd) (qp_connections x) of
     None \<Rightarrow> x
   | Some n \<Rightarrow> (let x = release_all (qn_clients n) x in
       x\<lparr>qp_connections := remove_first (\<lambda>n. qn_fd n = fd) (qp_connections x)\<rparr>))"

section \<open>A packet of the device\<close>

definition qmi_of_packet :: "qrtr_client \<Rightarrow> bytes \<Rightarrow> bytes" where
  "qmi_of_packet q d = [0x01] @ le16 (of_nat (length d + 6 - 1)) @ [0x00, qc_type q, qc_id q] @ d"

definition to_qmi_client :: "int \<Rightarrow> bytes \<Rightarrow> qrtr_proxy \<Rightarrow> qrtr_proxy" where
  "to_qmi_client fd m x = x\<lparr>qp_to_clients := qp_to_clients x @ [(fd, m)]\<rparr>"

definition all_clients :: "qrtr_proxy \<Rightarrow> (int \<times> qrtr_client) list" where
  "all_clients x = concat (map (\<lambda>n. map (\<lambda>q. (qn_fd n, q)) (qn_clients n)) (qp_connections x))"

fun deliver :: "qrtr_addr \<Rightarrow> bytes \<Rightarrow> (int \<times> qrtr_client) list \<Rightarrow> qrtr_proxy \<Rightarrow> qrtr_proxy" where
  "deliver a d [] x = x"
| "deliver a d ((fd, q) # cs) x =
     deliver a d cs (if (qc_node q, qc_port q) = a then to_qmi_client fd (qmi_of_packet q d) x else x)"

definition recv_qrtr_from_dev :: "qrtr_proxy \<Rightarrow> qrtr_proxy option" where
  "recv_qrtr_from_dev x = (let m = qp_buf x in do {
     ty \<leftarrow> hdr_type m; src \<leftarrow> hdr_src m;
     (if ty = QRTR_TYPE_HELLO then Some (send_ctrl_hello src x)
      else if ty = QRTR_TYPE_NEW_SERVER \<or> ty = QRTR_TYPE_DEL_SERVER then handle_server_change x
      else if ty = QRTR_TYPE_DATA
      then do {
        dst \<leftarrow> hdr_dst m; size \<leftarrow> hdr_size m; confirm \<leftarrow> hdr_confirm m;
        d \<leftarrow> rdn m 32 (unat size);
        (let x = deliver dst d (all_clients x) x in
         Some (if confirm \<noteq> 0
           then qrtr_node_enqueue (ctrl_pkt QRTR_TYPE_RESUME_TX (fst dst) (snd dst)) QRTR_TYPE_RESUME_TX dst src False x
           else x)) }
      else Some x) })"

section \<open>A message of a client\<close>

definition QMICTL_GET_VERSION_REQ :: u16 where "QMICTL_GET_VERSION_REQ = 0x0021"
definition QMICTL_GET_CLIENT_ID_REQ :: u16 where "QMICTL_GET_CLIENT_ID_REQ = 0x0022"
definition QMICTL_RELEASE_CLIENT_ID_REQ :: u16 where "QMICTL_RELEASE_CLIENT_ID_REQ = 0x0023"
definition QMI_RESULT_FAILURE :: u16 where "QMI_RESULT_FAILURE = 1"
definition QMI_ERR_INTERNAL :: u16 where "QMI_ERR_INTERNAL = 3"

text \<open>A control answer: the headers, the result, and one more TLV.\<close>

definition ctl_answer :: "byte \<Rightarrow> u16 \<Rightarrow> u16 \<Rightarrow> u16 \<Rightarrow> bytes \<Rightarrow> bytes" where
  "ctl_answer tid ty res err v =
     [0x01] @ le16 (of_nat (16 + length v + 5)) @ [0x00, QMUX_TYPE_CTL, 0x00] @
     [0x01, tid] @ le16 ty @ le16 (of_nat (10 + length v)) @ [0x02] @ le16 4 @ le16 res @ le16 err @
     [0x01] @ le16 (of_nat (length v)) @ v"

text \<open>The first connection with the descriptor, replaced.\<close>

fun set_clients :: "int \<Rightarrow> qrtr_client list \<Rightarrow> qrtr_connection list \<Rightarrow> qrtr_connection list" where
  "set_clients fd cs [] = []"
| "set_clients fd cs (n # ns) = (if qn_fd n = fd then n\<lparr>qn_clients := cs\<rparr> # ns else n # set_clients fd cs ns)"

definition qrtr_ctl_request :: "qrtr_connection \<Rightarrow> qrtr_proxy \<Rightarrow> qrtr_proxy option" where
  "qrtr_ctl_request n x = (let m = qp_buf x; fd = qn_fd n in do {
     ty \<leftarrow> ctl_type m; tid \<leftarrow> ctl_tid m;
     (if ty = QMICTL_SYNC_REQ then Some x
      else if ty = QMICTL_GET_CLIENT_ID_REQ
      then do {
        t \<leftarrow> rd8 m 15;
        (if find_qrtr_service t x = None
         then Some (to_qmi_client fd (ctl_answer tid ty QMI_RESULT_FAILURE QMI_ERR_INTERNAL [t, 0]) x)
         else let (q, x) = alloc_qrtr_client_id t x;
                  x = x\<lparr>qp_connections := set_clients fd (qn_clients n @ [q]) (qp_connections x)\<rparr>;
                  ok = (qc_id q \<noteq> 0) in
           Some (to_qmi_client fd
             (ctl_answer tid ty (if ok then 0 else QMI_RESULT_FAILURE) (if ok then 0 else QMI_ERR_INTERNAL) [t, qc_id q]) x)) }
      else if ty = QMICTL_RELEASE_CLIENT_ID_REQ
      then do {
        t \<leftarrow> rd8 m 15; c \<leftarrow> rd8 m 16;
        (let (cs, x) = release_qrtr_client_id t c (qn_clients n) x in
         Some (to_qmi_client fd (ctl_answer tid ty 0 0 [t, c])
           (x\<lparr>qp_connections := set_clients fd cs (qp_connections x)\<rparr>))) }
      else if ty = QMICTL_GET_VERSION_REQ then Some (to_qmi_client fd (ctl_answer tid ty 0 0 [0]) x)
      else Some x) })"

definition qrtr_request :: "qrtr_connection \<Rightarrow> qrtr_proxy \<Rightarrow> qrtr_proxy option" where
  "qrtr_request n x = (let m = qp_buf x in do {
     t \<leftarrow> qmi_type m; c \<leftarrow> qmi_client m;
     (case find (is_client t c) (qn_clients n) of
        None \<Rightarrow> Some x
      | Some q \<Rightarrow> (case find_qrtr_service t x of
          None \<Rightarrow> Some x
        | Some s \<Rightarrow> if qs_service s = 0 then Some x
            else do {
              l \<leftarrow> qmi_length m;
              d \<leftarrow> (if unat l + 1 < 6 then None else rdn m 6 (unat l + 1 - 6));
              Some (qrtr_node_enqueue d QRTR_TYPE_DATA (qc_node q, qc_port q) (qs_node s, qs_port s) False x) })) })"

definition qrtr_from_client :: "int \<Rightarrow> qrtr_proxy \<Rightarrow> qrtr_proxy option" where
  "qrtr_from_client fd x = (case find (\<lambda>n. qn_fd n = fd) (qp_connections x) of
     None \<Rightarrow> Some x
   | Some n \<Rightarrow> do { t \<leftarrow> qmi_type (qp_buf x);
       (if t = QMUX_TYPE_CTL then qrtr_ctl_request n x else qrtr_request n x) })"

section \<open>The loop\<close>

definition align_4 :: "nat \<Rightarrow> nat" where
  "align_4 n = (n + 3) div 4 * 4"

definition qrtr_read :: "bytes \<Rightarrow> qrtr_proxy \<Rightarrow> qrtr_proxy" where
  "qrtr_read m x = x\<lparr>qp_buf := take 8192 m @ drop (length m) (qp_buf x)\<rparr>"

text \<open>The size of the header as an \<open>int\<close> has to be what was read.\<close>

definition packet_fits :: "bytes \<Rightarrow> qrtr_proxy \<Rightarrow> bool" where
  "packet_fits m x \<longleftrightarrow> map_option (\<lambda>s. c_int (int (align_4 (unat s + 32)))) (hdr_size (qp_buf x)) = Some (int (min 8192 (length m)))"

definition message_fits :: "bytes \<Rightarrow> qrtr_proxy \<Rightarrow> bool" where
  "message_fits m x \<longleftrightarrow> map_option (\<lambda>l. unat l + 1) (qmi_length (qp_buf x)) = Some (min 8192 (length m))"

text \<open>The log names the type of a packet: it has no names behind that of type 11.\<close>

definition dump_qrtr :: "bytes \<Rightarrow> unit option" where
  "dump_qrtr m = do { ty \<leftarrow> hdr_type m; (if 11 < ty then None else Some ()) }"

definition qrtr_event :: "proxy_event \<Rightarrow> qrtr_proxy \<Rightarrow> (bool \<times> qrtr_proxy) option" where
  "qrtr_event e x = (case e of
     Dev_Gone \<Rightarrow> Some (True, x)
   | New_Client fd \<Rightarrow> Some (False, accept_qrtr_connection fd x)
   | Client_Gone fd \<Rightarrow> Some (False, cleanup_qrtr_connection fd x)
   | Dev_Msg m \<Rightarrow> (let x = qrtr_read m x in
       if m = [] then Some (True, x) else if \<not> packet_fits m x then Some (False, x)
       else do { dump_qrtr (qp_buf x); map_option (Pair False) (recv_qrtr_from_dev x) })
   | Client_Msg fd m \<Rightarrow> (let x = qrtr_read m x in
       if m = [] then Some (False, cleanup_qrtr_connection fd x)
       else if \<not> message_fits m x then Some (False, x) else map_option (Pair False) (qrtr_from_client fd x)))"

fun qrtr_close_all :: "qrtr_connection list \<Rightarrow> qrtr_proxy \<Rightarrow> qrtr_proxy" where
  "qrtr_close_all [] x = x"
| "qrtr_close_all (n # ns) x = qrtr_close_all ns (cleanup_qrtr_connection (qn_fd n) x)"

fun qrtr_proxy_loop :: "proxy_event list \<Rightarrow> qrtr_proxy \<Rightarrow> (bool \<times> qrtr_proxy) option" where
  "qrtr_proxy_loop [] x = Some (False, x)"
| "qrtr_proxy_loop (e # es) x = do {
     (quit, x) \<leftarrow> qrtr_event e x;
     (if quit then Some (True, qrtr_close_all (qp_connections x) x) else qrtr_proxy_loop es x) }"

text \<open>The start: a greeting, then up to ten seconds for the first service. \<open>known\<close> says after each second
  whether there is one.\<close>

definition qrtr_proxy_init :: "bool list \<Rightarrow> qrtr_proxy \<Rightarrow> bool \<times> qrtr_proxy" where
  "qrtr_proxy_init known x = (list_ex id (take 10 known), send_ctrl_hello (QRTR_NODE_BCAST, QRTR_PORT_CTRL) x)"

section \<open>Ports in use\<close>

definition ports :: "qrtr_client list \<Rightarrow> nat multiset" where
  "ports cs = mset (map (\<lambda>q. unat (qc_port q)) cs)"

fun con_ports :: "qrtr_connection list \<Rightarrow> nat multiset" where
  "con_ports [] = {#}"
| "con_ports (n # ns) = ports (qn_clients n) + con_ports ns"

text \<open>No port is in use twice, and of the ports below 256 those in use are the ones marked.\<close>

definition ports_ok :: "nat multiset \<Rightarrow> bytes \<Rightarrow> bool" where
  "ports_ok M b \<longleftrightarrow> length b = 0xff0 \<and> (\<forall>p. count M p \<le> 1) \<and>
     (\<forall>p \<in># M. 1 \<le> p \<and> p < 256 \<and> unat (b ! p) = p) \<and> (\<forall>j. 1 \<le> j \<and> j < 256 \<and> b ! j \<noteq> 0 \<longrightarrow> j \<in># M)"

lemma ports_okD:
  assumes "ports_ok M b"
  shows "length b = 0xff0" "count M p \<le> 1" "p \<in># M \<Longrightarrow> 1 \<le> p" "p \<in># M \<Longrightarrow> p < 256" "p \<in># M \<Longrightarrow> unat (b ! p) = p"
    "1 \<le> p \<Longrightarrow> p < 256 \<Longrightarrow> b ! p \<noteq> 0 \<Longrightarrow> p \<in># M"
  using assms unfolding ports_ok_def by blast+

lemma ports_okI:
  assumes "length b = 0xff0" "\<And>p. count M p \<le> 1" "\<And>p. p \<in># M \<Longrightarrow> 1 \<le> p \<and> p < 256 \<and> unat (b ! p) = p"
    "\<And>j. 1 \<le> j \<Longrightarrow> j < 256 \<Longrightarrow> b ! j \<noteq> 0 \<Longrightarrow> j \<in># M"
  shows "ports_ok M b"
  using assms unfolding ports_ok_def by blast

lemma alloc_first:
  assumes "i \<le> k" "k < length b" "b ! k = 0"
  shows "\<exists>j. i \<le> j \<and> j \<le> k \<and> b ! j = 0 \<and> alloc_from i b = (j, b[j := of_nat j])"
  using assms(1)
proof (induction "k - i" arbitrary: i)
  case 0
  then show ?case using assms(2,3) by (subst alloc_from.simps) auto
next
  case (Suc d)
  then have k: "i < k" "d = k - (i + 1)" by simp_all
  show ?case
  proof (cases "b ! i = 0")
    case True
    then show ?thesis using k(1) assms(2) by (subst alloc_from.simps) auto
  next
    case False
    then obtain j where "i + 1 \<le> j" "j \<le> k" "b ! j = 0" "alloc_from (i + 1) b = (j, b[j := of_nat j])"
      using Suc.hyps(1) [OF k(2)] k(1) by auto
    then show ?thesis using False k(1) assms(2) by (subst alloc_from.simps) (auto intro!: exI [of _ j])
  qed
qed

lemma unat_small: "i < 256 \<Longrightarrow> unat (of_nat i :: byte) = i" "i < 256 \<Longrightarrow> unat (of_nat i :: u32) = i"
  by (simp_all only: unat_of_nat) (simp_all add: take_bit_nat_eq_self)

lemma interval_size: "\<forall>j. 1 \<le> j \<and> j < n \<longrightarrow> j \<in># M \<Longrightarrow> n - 1 \<le> size M"
proof -
  assume a: "\<forall>j. 1 \<le> j \<and> j < n \<longrightarrow> j \<in># M"
  have "card {1..<n} \<le> card (set_mset M)" by (rule card_mono) (use a in auto)
  also have "\<dots> = size (mset_set (set_mset M))" by simp
  also have "\<dots> \<le> size M" by (rule size_mset_mono [OF mset_set_set_mset_msubset])
  finally show ?thesis by simp
qed

lemma port_allocated:
  assumes "ports_ok M b" "size M < 255"
  shows "\<exists>i. alloc_from 1 b = (i, b[i := of_nat i]) \<and> 1 \<le> i \<and> i < 256 \<and> ports_ok (add_mset i M) (b[i := of_nat i])"
proof -
  have "\<exists>k. 1 \<le> k \<and> k < 256 \<and> b ! k = 0"
  proof (rule ccontr)
    assume "\<nexists>k. 1 \<le> k \<and> k < 256 \<and> b ! k = 0"
    then have "\<forall>j. 1 \<le> j \<and> j < 256 \<longrightarrow> j \<in># M" using assms(1) unfolding ports_ok_def by blast
    from interval_size [OF this] show False using assms(2) by simp
  qed
  then obtain k where k: "1 \<le> k" "k < 256" "b ! k = 0" by blast
  note o = ports_okD [OF assms(1)]
  have l: "length b = 0xff0" by (rule o(1))
  have kl: "k < length b" using k(2) l by simp
  obtain i where i: "1 \<le> i" "i \<le> k" "b ! i = 0" "alloc_from 1 b = (i, b[i := of_nat i])"
    using alloc_first [OF k(1) kl k(3)] by blast
  have n: "i \<notin># M"
  proof
    assume "i \<in># M"
    then have "unat (b ! i) = i" by (rule o(5))
    then show False using i(1,3) by simp
  qed
  have i256: "i < 256" "i < length b" using i(2) k(2) kl by simp_all
  have "ports_ok (add_mset i M) (b[i := of_nat i])"
  proof (rule ports_okI)
    show "length (b[i := of_nat i]) = 0xff0" using l by simp
    show "count (add_mset i M) p \<le> 1" for p
      using o(2) [of p] n by (auto simp: count_eq_zero_iff)
    show "1 \<le> p \<and> p < 256 \<and> unat (b[i := of_nat i] ! p) = p" if "p \<in># add_mset i M" for p
    proof (cases "p = i")
      case True
      then show ?thesis using i(1) i256 unat_small(1) [OF i256(1)] by (simp only: nth_list_update_eq simp_thms)
    next
      case False
      then have "p \<in># M" using that by simp
      then show ?thesis using o(3,4,5) [of p] False by (simp only: nth_list_update_neq simp_thms)
    qed
    show "j \<in># add_mset i M" if "1 \<le> j" "j < 256" "b[i := of_nat i] ! j \<noteq> 0" for j
    proof (cases "j = i")
      case False
      then have "b ! j \<noteq> 0" using that(3) by (simp only: nth_list_update_neq simp_thms)
      then show ?thesis using o(6) [OF that(1,2)] by simp
    qed simp
  qed
  then show ?thesis using i i256 by blast
qed

lemma port_freed:
  assumes "ports_ok M b" "p \<in># M"
  shows "ports_ok (M - {#p#}) (free_in p b)"
proof -
  note o = ports_okD [OF assms(1)]
  note p = o(3,4,5) [OF assms(2)]
  have l: "p < length b" using p(2) o(1) by simp
  have f: "free_in p b = b[p := 0]" using p(3) l by (simp add: free_in_def)
  have "0 < count M p" using assms(2) by simp
  then have "count M p = 1" using o(2) [of p] by linarith
  then have n: "p \<notin># M - {#p#}" by (simp add: not_in_iff)
  show ?thesis unfolding f
  proof (rule ports_okI)
    show "length (b[p := 0]) = 0xff0" using o(1) by simp
    show "count (M - {#p#}) q \<le> 1" for q using o(2) [of q] by (simp add: le_diff_conv)
    show "1 \<le> q \<and> q < 256 \<and> unat (b[p := 0] ! q) = q" if "q \<in># M - {#p#}" for q
    proof -
      have q: "q \<noteq> p" "q \<in># M" using that n by (auto dest: in_diffD)
      show ?thesis using o(3,4,5) [OF q(2)] q(1) by (simp only: nth_list_update_neq simp_thms)
    qed
    show "j \<in># M - {#p#}" if "1 \<le> j" "j < 256" "b[p := 0] ! j \<noteq> 0" for j
    proof -
      have j: "j \<noteq> p" using that(3) l by auto
      then have "b ! j \<noteq> 0" using that(3) by (simp only: nth_list_update_neq simp_thms)
      then have "j \<in># M" by (rule o(6) [OF that(1,2)])
      then show ?thesis using j by (simp add: in_diff_count)
    qed
  qed
qed

section \<open>The invariant\<close>

definition qrtr_ok :: "qrtr_proxy \<Rightarrow> bool" where
  "qrtr_ok x \<longleftrightarrow> ports_ok (con_ports (qp_connections x)) (port_bitmap x) \<and>
     (\<forall>n \<in> set (qp_connections x). \<forall>q \<in> set (qn_clients n). qc_node q = 1) \<and>
     distinct (map qn_fd (qp_connections x)) \<and> length (qp_buf x) = 8192"

text \<open>Below the limit at which port numbers no longer fit their table.\<close>

definition few :: "qrtr_proxy \<Rightarrow> bool" where
  "few x \<longleftrightarrow> length (all_clients x) < 255"

definition new_fd :: "proxy_event \<Rightarrow> qrtr_proxy \<Rightarrow> bool" where
  "new_fd e x \<longleftrightarrow> (case e of New_Client fd \<Rightarrow> fd \<notin> set (map qn_fd (qp_connections x)) | _ \<Rightarrow> True)"

fun usual_run :: "proxy_event list \<Rightarrow> qrtr_proxy \<Rightarrow> bool" where
  "usual_run [] x \<longleftrightarrow> True"
| "usual_run (e # es) x \<longleftrightarrow> few x \<and> new_fd e x \<and>
     (case qrtr_event e x of Some (False, y) \<Rightarrow> usual_run es y | _ \<Rightarrow> True)"

lemma all_clients_size: "length (all_clients x) = size (con_ports (qp_connections x))"
proof -
  have "length (concat (map (\<lambda>n. map (\<lambda>q. (qn_fd n, q)) (qn_clients n)) ns)) = size (con_ports ns)" for ns
    by (induction ns) (simp_all add: ports_def)
  then show ?thesis by (simp add: all_clients_def)
qed

lemma con_ports_append: "con_ports (ns @ ms) = con_ports ns + con_ports ms"
  by (induction ns) simp_all

lemma con_ports_remove: "find P ns = Some n \<Longrightarrow> con_ports ns = ports (qn_clients n) + con_ports (remove_first P ns)"
  by (induction ns) (auto split: if_splits)

lemma con_ports_set:
  "find (\<lambda>n. qn_fd n = fd) ns = Some n \<Longrightarrow>
    con_ports (set_clients fd cs ns) = ports cs + con_ports (remove_first (\<lambda>n. qn_fd n = fd) ns)"
  by (induction ns) (auto split: if_splits)

lemma set_clients_fds: "map qn_fd (set_clients fd cs ns) = map qn_fd ns"
  by (induction ns) simp_all

lemma set_clients_mem: "n \<in> set (set_clients fd cs ns) \<Longrightarrow> n \<in> set ns \<or> qn_clients n = cs"
  by (induction ns) (auto split: if_splits)

lemma remove_first_mem: "y \<in> set (remove_first P xs) \<Longrightarrow> y \<in> set xs"
  by (induction xs) (auto split: if_splits)

lemma remove_first_distinct: "distinct (map f xs) \<Longrightarrow> distinct (map f (remove_first P xs))"
  by (induction xs) (auto dest: remove_first_mem)

lemma ports_remove: "find P cs = Some q \<Longrightarrow> ports cs = add_mset (unat (qc_port q)) (ports (remove_first P cs))"
  by (induction cs) (auto simp: ports_def split: if_splits)

lemma find_in: "find P xs = Some y \<Longrightarrow> y \<in> set xs \<and> P y"
  by (induction xs) (auto split: if_splits)

lemma forget_keeps:
  "port_bitmap (forget_client q x) = free_in (unat (qc_port q)) (port_bitmap x)" "qp_connections (forget_client q x) = qp_connections x"
  "qp_buf (forget_client q x) = qp_buf x"
  by (simp_all add: forget_client_def free_port_id_def free_client_id_def ctrl_cmd_del_client_def qrtr_node_enqueue_def)

lemma release_all_keeps:
  "qp_connections (release_all cs x) = qp_connections x" "qp_buf (release_all cs x) = qp_buf x"
  by (induction cs arbitrary: x) (simp_all add: forget_keeps)

lemma release_all_ports:
  "ports_ok (ports cs + M) (port_bitmap x) \<Longrightarrow> ports_ok M (port_bitmap (release_all cs x))"
proof (induction cs arbitrary: x)
  case (Cons q cs)
  have "ports_ok (ports (q # cs) + M - {#unat (qc_port q)#}) (port_bitmap (forget_client q x))"
    unfolding forget_keeps by (rule port_freed [OF Cons.prems]) (simp add: ports_def)
  then show ?case using Cons.IH by (simp add: ports_def)
qed (simp add: ports_def)

lemma alloc_client_keeps:
  "qp_connections (snd (alloc_client_id x)) = qp_connections x" "port_bitmap (snd (alloc_client_id x)) = port_bitmap x"
  "qp_buf (snd (alloc_client_id x)) = qp_buf x"
  by (simp_all add: alloc_client_id_def case_prod_beta Let_def)

lemma client_allocated:
  assumes "ports_ok M (port_bitmap x)" "size M < 255" "alloc_qrtr_client_id t x = (q, y)"
  shows "ports_ok (add_mset (unat (qc_port q)) M) (port_bitmap y)" "qp_connections y = qp_connections x" "qp_buf y = qp_buf x"
    "qc_node q = 1" "qc_type q = t"
proof -
  obtain i x1 where i: "alloc_client_id x = (i, x1)" by fastforce
  have x1: "qp_connections x1 = qp_connections x" "port_bitmap x1 = port_bitmap x" "qp_buf x1 = qp_buf x"
    using alloc_client_keeps [of x] by (simp_all add: i)
  obtain k where k: "alloc_from 1 (port_bitmap x) = (k, (port_bitmap x)[k := of_nat k])" "k < 256"
    "ports_ok (add_mset k M) ((port_bitmap x)[k := of_nat k])"
    using port_allocated [OF assms(1,2)] by blast
  have q: "q = \<lparr>qc_type = t, qc_id = of_nat i, qc_node = 1, qc_port = of_nat k\<rparr>" "y = x1\<lparr>port_bitmap := (port_bitmap x)[k := of_nat k]\<rparr>"
    using assms(3) by (simp_all add: alloc_qrtr_client_id_def i alloc_port_id_def x1 k(1) [unfolded One_nat_def])
  have "unat (qc_port q) = k" using unat_small(2) [OF k(2)] by (simp only: q qrtr_client.simps)
  then show "ports_ok (add_mset (unat (qc_port q)) M) (port_bitmap y)" using k(3) by (simp add: q(2))
  show "qp_connections y = qp_connections x" "qp_buf y = qp_buf x" "qc_node q = 1" "qc_type q = t" using q x1 by simp_all
qed

text \<open>What does not touch the connections, the ports and the length of the buffer.\<close>

definition qrtr_keeps :: "qrtr_proxy \<Rightarrow> qrtr_proxy \<Rightarrow> bool" where
  "qrtr_keeps x y \<longleftrightarrow> qp_connections y = qp_connections x \<and> port_bitmap y = port_bitmap x \<and> length (qp_buf y) = length (qp_buf x)"

lemma keeps_qrtr_ok: "qrtr_keeps x y \<Longrightarrow> qrtr_ok x \<Longrightarrow> qrtr_ok y"
  by (simp add: qrtr_keeps_def qrtr_ok_def)

lemma simple_keeps:
  "qrtr_keeps x (qrtr_node_enqueue d ty src dst b x)" "qrtr_keeps x (to_qmi_client fd m x)" "qrtr_keeps x (send_ctrl_hello dst x)"
  by (simp_all add: qrtr_keeps_def qrtr_node_enqueue_def to_qmi_client_def send_ctrl_hello_def)

lemma qrtr_keeps_trans: "qrtr_keeps x y \<Longrightarrow> qrtr_keeps y z \<Longrightarrow> qrtr_keeps x z"
  by (simp add: qrtr_keeps_def)

lemma deliver_keeps: "qrtr_keeps x (deliver a d cs x)"
proof (induction cs arbitrary: x)
  case (Cons c cs)
  obtain fd q where c: "c = (fd, q)" by fastforce
  have "qrtr_keeps x (if (qc_node q, qc_port q) = a then to_qmi_client fd (qmi_of_packet q d) x else x)"
    using simple_keeps(2) by (simp add: qrtr_keeps_def)
  then show ?case using qrtr_keeps_trans [OF _ Cons.IH] by (simp add: c)
qed (simp add: qrtr_keeps_def)

lemma from_dev_keeps:
  assumes "recv_qrtr_from_dev x = Some y"
  shows "qrtr_keeps x y"
proof -
  have r: "qrtr_keeps x x" by (simp add: qrtr_keeps_def)
  have h: "qrtr_keeps x y" if "handle_server_change x = Some y"
    using that by (auto simp: handle_server_change_def Let_def bind_eq_Some_conv qrtr_keeps_def split: if_splits)
  obtain ty src where t: "hdr_type (qp_buf x) = Some ty" "hdr_src (qp_buf x) = Some src"
    using assms by (auto simp: recv_qrtr_from_dev_def Let_def bind_eq_Some_conv)
  show ?thesis
  proof (cases "ty = QRTR_TYPE_DATA")
    case True
    have ne: "ty \<noteq> QRTR_TYPE_HELLO" "ty \<noteq> QRTR_TYPE_NEW_SERVER" "ty \<noteq> QRTR_TYPE_DEL_SERVER"
      by (simp_all add: True QRTR_TYPE_DATA_def QRTR_TYPE_HELLO_def QRTR_TYPE_NEW_SERVER_def QRTR_TYPE_DEL_SERVER_def)
    obtain dst size confirm d where p: "hdr_dst (qp_buf x) = Some dst" "hdr_size (qp_buf x) = Some size"
      "hdr_confirm (qp_buf x) = Some confirm" "rdn (qp_buf x) 32 (unat size) = Some d"
      using assms t True ne by (fastforce simp: recv_qrtr_from_dev_def Let_def bind_eq_Some_conv)
    then have "y = deliver dst d (all_clients x) x \<or>
        y = qrtr_node_enqueue (ctrl_pkt QRTR_TYPE_RESUME_TX (fst dst) (snd dst)) QRTR_TYPE_RESUME_TX dst src False
          (deliver dst d (all_clients x) x)"
      using assms t True ne by (auto simp: recv_qrtr_from_dev_def Let_def split: if_splits)
    then show ?thesis using qrtr_keeps_trans [OF deliver_keeps simple_keeps(1)] deliver_keeps by blast
  next
    case False
    then show ?thesis using assms t h r simple_keeps(3) [of x src]
      by (auto simp: recv_qrtr_from_dev_def Let_def split: if_splits)
  qed
qed

lemma qrtr_request_keeps:
  assumes "qrtr_request n x = Some y"
  shows "y = x \<or> (\<exists>d src dst. y = qrtr_node_enqueue d QRTR_TYPE_DATA src dst False x)"
proof -
  obtain t c where t: "qmi_type (qp_buf x) = Some t" "qmi_client (qp_buf x) = Some c"
    using assms by (auto simp: qrtr_request_def Let_def bind_eq_Some_conv)
  show ?thesis
  proof (cases "find (is_client t c) (qn_clients n)")
    case None
    then show ?thesis using assms t by (simp add: qrtr_request_def)
  next
    case q: (Some q)
    show ?thesis
    proof (cases "find_qrtr_service t x")
      case None
      then show ?thesis using assms t q by (simp add: qrtr_request_def)
    next
      case (Some s)
      then show ?thesis using assms t q by (fastforce simp: qrtr_request_def Let_def bind_eq_Some_conv split: if_splits)
    qed
  qed
qed

lemma read_keeps_qrtr: "length (qp_buf x) = 8192 \<Longrightarrow> qrtr_keeps x (qrtr_read m x)"
  by (auto simp: qrtr_read_def qrtr_keeps_def)

text \<open>The clients of one connection replaced.\<close>

lemma replaced_ok:
  assumes "qrtr_ok x" "find (\<lambda>n. qn_fd n = fd) (qp_connections x) = Some n" "\<forall>q \<in> set cs. qc_node q = 1"
    and "qp_connections y = qp_connections x" "length (qp_buf y) = 8192"
    and "ports_ok (ports cs + con_ports (remove_first (\<lambda>n. qn_fd n = fd) (qp_connections x))) (port_bitmap y)"
  shows "qrtr_ok (y\<lparr>qp_connections := set_clients fd cs (qp_connections y)\<rparr>)"
proof -
  have "qc_node q = 1" if "k \<in> set (set_clients fd cs (qp_connections x))" "q \<in> set (qn_clients k)" for k q
    using set_clients_mem [OF that(1)] that(2) assms(1,3) by (auto simp: qrtr_ok_def)
  then show ?thesis using assms con_ports_set [OF assms(2), of cs] by (simp add: qrtr_ok_def set_clients_fds)
qed

lemma ctl_request_ok:
  assumes "qrtr_ok x" "few x" "find (\<lambda>n. qn_fd n = fd) (qp_connections x) = Some n" "qrtr_ctl_request n x = Some y"
  shows "qrtr_ok y"
proof -
  have n: "qn_fd n = fd" "n \<in> set (qp_connections x)" using find_in [OF assms(3)] by simp_all
  note c = con_ports_remove [OF assms(3)]
  have po: "ports_ok (con_ports (qp_connections x)) (port_bitmap x)" and bl: "length (qp_buf x) = 8192"
    and nodes: "\<forall>q \<in> set (qn_clients n). qc_node q = 1"
    using assms(1) n(2) by (auto simp: qrtr_ok_def)
  obtain ty tid where t: "ctl_type (qp_buf x) = Some ty" "ctl_tid (qp_buf x) = Some tid"
    using assms(4) by (auto simp: qrtr_ctl_request_def Let_def bind_eq_Some_conv)
  note k = keeps_qrtr_ok [OF simple_keeps(2)]
  consider (get) "ty = QMICTL_GET_CLIENT_ID_REQ" | (release) "ty = QMICTL_RELEASE_CLIENT_ID_REQ"
    | (other) "ty \<noteq> QMICTL_GET_CLIENT_ID_REQ" "ty \<noteq> QMICTL_RELEASE_CLIENT_ID_REQ" by blast
  then show ?thesis
  proof cases
    case get
    have ne: "ty \<noteq> QMICTL_SYNC_REQ" by (simp add: get QMICTL_GET_CLIENT_ID_REQ_def QMICTL_SYNC_REQ_def)
    obtain s where s: "rd8 (qp_buf x) 15 = Some s"
      using assms(4) t get ne by (auto simp: qrtr_ctl_request_def Let_def bind_eq_Some_conv)
    show ?thesis
    proof (cases "find_qrtr_service s x = None")
      case True
      then show ?thesis using assms(4) t get ne s k [OF assms(1)] by (auto simp: qrtr_ctl_request_def Let_def)
    next
      case False
      obtain q z where a: "alloc_qrtr_client_id s x = (q, z)" by fastforce
      have sz: "size (con_ports (qp_connections x)) < 255" using assms(2) by (simp add: few_def all_clients_size)
      note r = client_allocated [OF po sz a]
      have "qrtr_ok (z\<lparr>qp_connections := set_clients fd (qn_clients n @ [q]) (qp_connections z)\<rparr>)"
      proof (rule replaced_ok [OF assms(1,3)])
        show "\<forall>q' \<in> set (qn_clients n @ [q]). qc_node q' = 1" using nodes r(4) by auto
        show "ports_ok (ports (qn_clients n @ [q]) + con_ports (remove_first (\<lambda>n. qn_fd n = fd) (qp_connections x))) (port_bitmap z)"
          using r(1) by (simp add: c ports_def add.commute)
      qed (use r bl in simp_all)
      then show ?thesis using assms(4) t get ne s False a n(1) k by (auto simp: qrtr_ctl_request_def Let_def)
    qed
  next
    case release
    have ne: "ty \<noteq> QMICTL_SYNC_REQ" "ty \<noteq> QMICTL_GET_CLIENT_ID_REQ"
      by (simp_all add: release QMICTL_RELEASE_CLIENT_ID_REQ_def QMICTL_GET_CLIENT_ID_REQ_def QMICTL_SYNC_REQ_def)
    obtain s i where s: "rd8 (qp_buf x) 15 = Some s" "rd8 (qp_buf x) 16 = Some i"
      using assms(4) t release ne by (auto simp: qrtr_ctl_request_def Let_def bind_eq_Some_conv)
    obtain cs z where a: "release_qrtr_client_id s i (qn_clients n) x = (cs, z)" by fastforce
    have "qrtr_ok (z\<lparr>qp_connections := set_clients fd cs (qp_connections z)\<rparr>)"
    proof (cases "find (is_client s i) (qn_clients n)")
      case None
      then have e: "cs = qn_clients n" "z = x" using a by (simp_all add: release_qrtr_client_id_def)
      show ?thesis unfolding e by (rule replaced_ok [OF assms(1,3) nodes]) (use bl po c in simp_all)
    next
      case (Some q)
      then have e: "cs = remove_first (is_client s i) (qn_clients n)" "z = forget_client q x"
        using a by (simp_all add: release_qrtr_client_id_def)
      have p: "con_ports (qp_connections x) - {#unat (qc_port q)#} =
          ports cs + con_ports (remove_first (\<lambda>n. qn_fd n = fd) (qp_connections x))"
        unfolding c ports_remove [OF Some] e by simp
      have "unat (qc_port q) \<in># con_ports (qp_connections x)" unfolding c ports_remove [OF Some] by simp
      from port_freed [OF po this] have "ports_ok (ports cs + con_ports (remove_first (\<lambda>n. qn_fd n = fd) (qp_connections x))) (port_bitmap z)"
        unfolding p by (simp add: e forget_keeps)
      moreover have "\<forall>q' \<in> set cs. qc_node q' = 1" using nodes by (auto simp: e dest: remove_first_mem)
      ultimately show ?thesis by (intro replaced_ok [OF assms(1,3)]) (use bl in \<open>simp_all add: e forget_keeps\<close>)
    qed
    then show ?thesis using assms(4) t release ne s a n(1) k by (auto simp: qrtr_ctl_request_def Let_def)
  next
    case other
    then show ?thesis using assms(1,4) t k by (auto simp: qrtr_ctl_request_def Let_def split: if_splits)
  qed
qed

lemma cleanup_ok:
  assumes "qrtr_ok x"
  shows "qrtr_ok (cleanup_qrtr_connection fd x)"
proof (cases "find (\<lambda>n. qn_fd n = fd) (qp_connections x)")
  case None
  then show ?thesis using assms by (simp add: cleanup_qrtr_connection_def)
next
  case (Some n)
  have "ports_ok (con_ports (remove_first (\<lambda>n. qn_fd n = fd) (qp_connections x))) (port_bitmap (release_all (qn_clients n) x))"
    by (rule release_all_ports) (use assms con_ports_remove [OF Some] in \<open>simp add: qrtr_ok_def\<close>)
  then show ?thesis using assms
    by (auto simp: cleanup_qrtr_connection_def Some Let_def qrtr_ok_def release_all_keeps remove_first_distinct dest: remove_first_mem)
qed

lemma event_ok:
  assumes "qrtr_event e x = Some (False, y)" "qrtr_ok x" "few x" "new_fd e x"
  shows "qrtr_ok y"
proof -
  have b: "length (qp_buf x) = 8192" using assms(2) by (simp add: qrtr_ok_def)
  note r = read_keeps_qrtr [OF b]
  show ?thesis
  proof (cases e)
    case (Dev_Msg m)
    then have "y = qrtr_read m x \<or> recv_qrtr_from_dev (qrtr_read m x) = Some y"
      using assms(1) by (auto simp: qrtr_event_def Let_def bind_eq_Some_conv split: if_splits)
    then show ?thesis using keeps_qrtr_ok [OF r assms(2)] keeps_qrtr_ok [OF qrtr_keeps_trans [OF r from_dev_keeps] assms(2)] by blast
  next
    case (New_Client fd)
    then show ?thesis using assms by (auto simp: qrtr_event_def accept_qrtr_connection_def qrtr_ok_def con_ports_append new_fd_def ports_def)
  next
    case (Client_Msg fd m)
    have k: "qrtr_ok (qrtr_read m x)" "few (qrtr_read m x)"
      using keeps_qrtr_ok [OF r assms(2)] assms(3) by (simp_all add: few_def all_clients_def qrtr_read_def)
    consider "y = qrtr_read m x" | "y = cleanup_qrtr_connection fd (qrtr_read m x)" | "qrtr_from_client fd (qrtr_read m x) = Some y"
      using assms(1) Client_Msg by (auto simp: qrtr_event_def Let_def split: if_splits)
    then show ?thesis
    proof cases
      case 3
      show ?thesis
      proof (cases "find (\<lambda>n. qn_fd n = fd) (qp_connections (qrtr_read m x))")
        case None
        then show ?thesis using 3 k(1) by (simp add: qrtr_from_client_def)
      next
        case (Some n)
        have "qrtr_ok y" if "qrtr_request n (qrtr_read m x) = Some y"
          using qrtr_request_keeps [OF that] keeps_qrtr_ok [OF simple_keeps(1) k(1)] k(1) by blast
        then show ?thesis using 3 Some ctl_request_ok [OF k Some]
          by (auto simp: qrtr_from_client_def bind_eq_Some_conv split: if_splits)
      qed
    qed (use k cleanup_ok [OF k(1), of fd] in simp_all)
  next
    case (Client_Gone fd)
    then show ?thesis using assms cleanup_ok [OF assms(2), of fd] by (simp add: qrtr_event_def)
  qed (use assms(1) in \<open>simp add: qrtr_event_def\<close>)
qed

lemma run_ok:
  assumes "qrtr_proxy_loop es x = Some (False, y)" "qrtr_ok x" "usual_run es x"
  shows "qrtr_ok y"
  using assms
proof (induction es arbitrary: x)
  case (Cons e es)
  obtain z where z: "qrtr_event e x = Some (False, z)" "qrtr_proxy_loop es z = Some (False, y)"
    using Cons.prems(1) by (auto elim!: bind_pairE split: if_splits)
  then have "few x" "new_fd e x" "usual_run es z" using Cons.prems(3) by simp_all
  then show ?case using Cons.IH [OF z(2) event_ok [OF z(1) Cons.prems(2)]] by blast
qed simp

lemma qrtr_start_ok: "qrtr_ok qrtr_start"
proof -
  have "ports_ok {#} (replicate 0xff0 0)" by (rule ports_okI) simp_all
  then show ?thesis by (simp add: qrtr_ok_def qrtr_start_def)
qed

section \<open>Requests and answers\<close>

text \<open>The message of a service, as a client sends and gets it.\<close>

definition qmi_message :: "byte \<Rightarrow> byte \<Rightarrow> bytes \<Rightarrow> bytes" where
  "qmi_message t c d = [0x01] @ le16 (of_nat (length d + 6 - 1)) @ [0x00, t, c] @ d"

lemma unat_u16_small: "n < 65536 \<Longrightarrow> unat (of_nat n :: u16) = n"
  by (simp only: unat_of_nat) (simp add: take_bit_nat_eq_self)

lemma unat_u32_small: "n < 65536 \<Longrightarrow> unat (of_nat n :: u32) = n"
  by (simp only: unat_of_nat) (simp add: take_bit_nat_eq_self)

lemma message_length: "length (qmi_message t c d) = length d + 6"
  by (simp add: qmi_message_def)

lemma packet_length: "length (qrtr_packet ty src dst k d) = 32 + length d"
  by (simp add: qrtr_packet_def)

lemma message_fields:
  assumes "length d \<le> 8186"
  shows "qmi_type (qmi_message t c d @ r) = Some t" "qmi_client (qmi_message t c d @ r) = Some c"
    "map_option (\<lambda>l. unat l + 1) (qmi_length (qmi_message t c d @ r)) = Some (length d + 6)" "rdn (qmi_message t c d @ r) 6 (length d) = Some d"
proof -
  let ?h = "[0x01] @ le16 (of_nat (length d + 6 - 1)) @ [0x00, t, c]"
  have e: "qmi_message t c d @ r = ?h @ d @ r" by (simp add: qmi_message_def)
  have m: "qmi_message t c d @ r = [0x01] @ le16 (of_nat (length d + 5)) @ [0x00, t, c] @ d @ r" by (simp add: qmi_message_def add.commute)
  have "rd16 (qmi_message t c d @ r) (length [0x01 :: byte] + 0) = rd16 (le16 (of_nat (length d + 5)) @ [0x00, t, c] @ d @ r) 0"
    unfolding m by (rule rd16_append)
  then have "rd16 (qmi_message t c d @ r) 1 = rd16 (le16 (of_nat (length d + 5)) @ [0x00, t, c] @ d @ r) 0" by simp
  then have "qmi_length (qmi_message t c d @ r) = Some (of_nat (length d + 5))" by (simp only: qmi_length_def rd16_le16)
  moreover have "unat (of_nat (length d + 5) :: u16) = length d + 5" by (rule unat_u16_small) (use assms in simp)
  ultimately show "map_option (\<lambda>l. unat l + 1) (qmi_length (qmi_message t c d @ r)) = Some (length d + 6)"
    by (simp only: option.map) simp
  have l: "length ?h = 6" by simp
  have "rdn (qmi_message t c d @ r) (length ?h + 0) (length d) = rdn (d @ r) 0 (length d)" unfolding e by (rule rdn_append)
  then show "rdn (qmi_message t c d @ r) 6 (length d) = Some d" by (simp add: l rdn_prefix)
  show "qmi_type (qmi_message t c d @ r) = Some t" "qmi_client (qmi_message t c d @ r) = Some c"
    by (simp_all add: qmi_message_def qmi_type_def qmi_client_def rd8_def le16_def)
qed

lemma packet_field: "length u = i \<Longrightarrow> rd32 (u @ le32 w @ r) i = Some w"
  using rd32_append [of u "le32 w @ r" 0] by (simp add: rd32_le32)

lemma packet_fields:
  assumes "length d \<le> 8160"
  shows "hdr_type (qrtr_packet ty src dst k d @ r) = Some ty" "hdr_src (qrtr_packet ty src dst k d @ r) = Some src"
    "hdr_confirm (qrtr_packet ty src dst k d @ r) = Some (of_bool k)" "hdr_size (qrtr_packet ty src dst k d @ r) = Some (of_nat (length d))"
    "hdr_dst (qrtr_packet ty src dst k d @ r) = Some dst" "rdn (qrtr_packet ty src dst k d @ r) 32 (length d) = Some d"
proof -
  let ?p = "qrtr_packet ty src dst k d @ r"
  define a where "a = le32 1" define b where "b = le32 ty" define c where "c = le32 (fst src)" define e where "e = le32 (snd src)"
  define f where "f = le32 (of_bool k)" define g where "g = le32 (of_nat (length d))" define h where "h = le32 (fst dst)" define i where "i = le32 (snd dst)"
  have p: "?p = a @ b @ c @ e @ f @ g @ h @ i @ d @ r"
    by (simp add: qrtr_packet_def a_def b_def c_def e_def f_def g_def h_def i_def)
  have l: "length a = 4" "length b = 4" "length c = 4" "length e = 4" "length f = 4" "length g = 4" "length h = 4" "length i = 4"
    by (simp_all add: a_def b_def c_def e_def f_def g_def h_def i_def)
  show "hdr_type ?p = Some ty" unfolding hdr_type_def p using packet_field [of a 4 ty "c @ e @ f @ g @ h @ i @ d @ r"] l by (simp add: b_def)
  have "rd32 ?p 8 = Some (fst src)" "rd32 ?p 12 = Some (snd src)"
    unfolding p using packet_field [of "a @ b" 8 "fst src" "e @ f @ g @ h @ i @ d @ r"]
      packet_field [of "a @ b @ c" 12 "snd src" "f @ g @ h @ i @ d @ r"] l by (simp_all add: c_def e_def)
  then show "hdr_src ?p = Some src" by (simp add: hdr_src_def)
  show "hdr_confirm ?p = Some (of_bool k)" unfolding hdr_confirm_def p
    using packet_field [of "a @ b @ c @ e" 16 "of_bool k" "g @ h @ i @ d @ r"] l by (simp add: f_def)
  show "hdr_size ?p = Some (of_nat (length d))" unfolding hdr_size_def p
    using packet_field [of "a @ b @ c @ e @ f" 20 "of_nat (length d)" "h @ i @ d @ r"] l by (simp add: g_def)
  have "rd32 ?p 24 = Some (fst dst)" "rd32 ?p 28 = Some (snd dst)"
    unfolding p using packet_field [of "a @ b @ c @ e @ f @ g" 24 "fst dst" "i @ d @ r"]
      packet_field [of "a @ b @ c @ e @ f @ g @ h" 28 "snd dst" "d @ r"] l by (simp_all add: h_def i_def)
  then show "hdr_dst ?p = Some dst" by (simp add: hdr_dst_def)
  have "rdn ?p (length (a @ b @ c @ e @ f @ g @ h @ i) + 0) (length d) = rdn (d @ r) 0 (length d)"
    unfolding p using rdn_append [of "a @ b @ c @ e @ f @ g @ h @ i" "d @ r" 0 "length d"] by simp
  then show "rdn ?p 32 (length d) = Some d" using l by (simp add: rdn_prefix)
qed

text \<open>The clients a packet is for.\<close>

lemma deliver_effect:
  "deliver a d cs x = x\<lparr>qp_to_clients := qp_to_clients x @
     map (\<lambda>(fd, q). (fd, qmi_of_packet q d)) (filter (\<lambda>(fd, q). (qc_node q, qc_port q) = a) cs)\<rparr>"
proof (induction cs arbitrary: x)
  case (Cons c cs)
  obtain fd q where c: "c = (fd, q)" by fastforce
  show ?case by (simp add: c Cons.IH to_qmi_client_def)
qed simp

lemma port_count:
  "length (filter (\<lambda>(fd, q). unat (qc_port q) = p) (all_clients x)) = count (con_ports (qp_connections x)) p"
proof -
  have c: "length (filter (\<lambda>(fd, q). unat (qc_port q) = p) (map (\<lambda>q. (f, q)) cs)) = count (ports cs) p" for f and cs :: "qrtr_client list"
    by (induction cs) (simp_all add: ports_def)
  note c = c [unfolded filter_map length_map]
  have "length (filter (\<lambda>(fd, q). unat (qc_port q) = p) (concat (map (\<lambda>n. map (\<lambda>q. (qn_fd n, q)) (qn_clients n)) ns))) =
      count (con_ports ns) p" for ns
    by (induction ns) (simp_all add: c filter_map)
  then show ?thesis by (simp add: all_clients_def)
qed

lemma one_client:
  assumes "qrtr_ok x" "(fd, q) \<in> set (all_clients x)"
  shows "filter (\<lambda>(f, k). (qc_node k, qc_port k) = (1, qc_port q)) (all_clients x) = [(fd, q)]"
proof -
  have nodes: "qc_node k = 1" if "(f, k) \<in> set (all_clients x)" for f k
    using assms(1) that by (auto simp: qrtr_ok_def all_clients_def)
  have e: "filter (\<lambda>(f, k). (qc_node k, qc_port k) = (1, qc_port q)) (all_clients x) =
      filter (\<lambda>(f, k). unat (qc_port k) = unat (qc_port q)) (all_clients x)"
    by (rule filter_cong) (use nodes in \<open>auto simp: word_unat_eq_iff\<close>)
  have "count (con_ports (qp_connections x)) (unat (qc_port q)) \<le> 1"
    using assms(1) unfolding qrtr_ok_def by (blast intro: ports_okD(2))
  then have "length (filter (\<lambda>(f, k). unat (qc_port k) = unat (qc_port q)) (all_clients x)) \<le> 1" by (simp only: port_count)
  moreover have "(fd, q) \<in> set (filter (\<lambda>(f, k). unat (qc_port k) = unat (qc_port q)) (all_clients x))" using assms(2) by simp
  ultimately have "filter (\<lambda>(f, k). unat (qc_port k) = unat (qc_port q)) (all_clients x) = [(fd, q)]"
    by (cases "filter (\<lambda>(f, k). unat (qc_port k) = unat (qc_port q)) (all_clients x)") auto
  then show ?thesis by (simp only: e)
qed

lemma packet_read: "length m \<le> 8192 \<Longrightarrow> qp_buf (qrtr_read m x) = m @ drop (length m) (qp_buf x)"
  by (simp add: qrtr_read_def)

lemma read_others:
  "qp_connections (qrtr_read m x) = qp_connections x" "qp_servers (qrtr_read m x) = qp_servers x"
  "qp_to_dev (qrtr_read m x) = qp_to_dev x" "qp_to_clients (qrtr_read m x) = qp_to_clients x" "all_clients (qrtr_read m x) = all_clients x"
  by (simp_all add: qrtr_read_def all_clients_def)

lemma request_sent:
  assumes "length d \<le> 8186" "t \<noteq> QMUX_TYPE_CTL" "find (\<lambda>n. qn_fd n = fd) (qp_connections x) = Some n"
    "find (is_client t c) (qn_clients n) = Some q" "find_qrtr_service t x = Some s" "qs_service s \<noteq> 0"
  shows "qrtr_event (Client_Msg fd (qmi_message t c d)) x = Some (False, qrtr_node_enqueue d QRTR_TYPE_DATA (qc_node q, qc_port q)
    (qs_node s, qs_port s) False (qrtr_read (qmi_message t c d) x))"
proof -
  let ?m = "qmi_message t c d" and ?y = "qrtr_read (qmi_message t c d) x"
  note f = message_fields [where t = t and c = c and r = "drop (length ?m) (qp_buf x)", OF assms(1)]
  have l: "length ?m \<le> 8192" using message_length [of t c d] assms(1) by simp
  note b = packet_read [OF l, of x]
  have fit: "message_fits ?m ?y" unfolding message_fits_def b f(3) using message_length [of t c d] l by simp
  obtain w where w: "qmi_length (qp_buf ?y) = Some w" "unat w + 1 = length d + 6" using f(3) unfolding b [symmetric] by auto
  have s: "find_qrtr_service t ?y = Some s" using assms(5) by (simp add: find_qrtr_service_def read_others)
  have "qrtr_request n ?y = Some (qrtr_node_enqueue d QRTR_TYPE_DATA (qc_node q, qc_port q) (qs_node s, qs_port s) False ?y)"
    using f(1,2,4) w assms(4,6) s unfolding b [symmetric] by (simp add: qrtr_request_def Let_def)
  moreover have "?m \<noteq> []" by (simp add: qmi_message_def)
  ultimately show ?thesis using fit f(1) assms(2,3) unfolding b [symmetric]
    by (simp add: qrtr_event_def Let_def qrtr_from_client_def read_others)
qed

lemma packet_delivered:
  assumes "qrtr_ok x" "(fd, q) \<in> set (all_clients x)" "length d \<le> 8150" "length pad < 4" "4 dvd length (d @ pad)"
  shows "qrtr_event (Dev_Msg (qrtr_packet QRTR_TYPE_DATA src (1, qc_port q) False d @ pad)) x =
    Some (False, to_qmi_client fd (qmi_message (qc_type q) (qc_id q) d) (qrtr_read (qrtr_packet QRTR_TYPE_DATA src (1, qc_port q) False d @ pad) x))"
proof -
  let ?p = "qrtr_packet QRTR_TYPE_DATA src (1, qc_port q) False d"
  let ?m = "?p @ pad" and ?y = "qrtr_read (?p @ pad) x"
  have d: "length d \<le> 8160" using assms(3) by simp
  note f = packet_fields [where ty = QRTR_TYPE_DATA and src = src and dst = "(1, qc_port q)" and k = False and r = "pad @ drop (length ?m) (qp_buf x)", OF d]
  have l: "length ?m \<le> 8192" using packet_length [of QRTR_TYPE_DATA src "(1, qc_port q)" False d] assms(3,4) by simp
  have b: "qp_buf ?y = ?p @ pad @ drop (length ?m) (qp_buf x)" using packet_read [OF l, of x] by (simp only: append_assoc)
  have u: "unat (of_nat (length d) :: u32) = length d" by (rule unat_u32_small) (use d in simp)
  have al: "align_4 (length d + 32) = length ?m"
  proof -
    obtain j where j: "length d + length pad = 4 * j" using assms(5) by (auto simp: dvd_def)
    then have "(length d + 32 + 3) div 4 = j + 8" using assms(4) by linarith
    then show ?thesis using packet_length [of QRTR_TYPE_DATA src "(1, qc_port q)" False d] j by (simp add: align_4_def)
  qed
  have fit: "packet_fits ?m ?y"
    unfolding packet_fits_def b f(4) using u al l by (simp add: c_int_small)
  have ne: "QRTR_TYPE_DATA \<noteq> QRTR_TYPE_HELLO" "QRTR_TYPE_DATA \<noteq> QRTR_TYPE_NEW_SERVER" "QRTR_TYPE_DATA \<noteq> QRTR_TYPE_DEL_SERVER"
    by (simp_all add: QRTR_TYPE_DATA_def QRTR_TYPE_HELLO_def QRTR_TYPE_NEW_SERVER_def QRTR_TYPE_DEL_SERVER_def)
  have "?m \<noteq> []" using packet_length [of QRTR_TYPE_DATA src "(1, qc_port q)" False d] by auto
  moreover have "recv_qrtr_from_dev ?y = Some (to_qmi_client fd (qmi_message (qc_type q) (qc_id q) d) ?y)"
    unfolding recv_qrtr_from_dev_def Let_def b f(1-5) using f(6) ne u one_client [OF assms(1,2)]
    by (simp add: deliver_effect read_others to_qmi_client_def qmi_of_packet_def qmi_message_def)
  moreover have "dump_qrtr (qp_buf ?y) = Some ()" unfolding dump_qrtr_def b f(1) by (simp add: QRTR_TYPE_DATA_def)
  ultimately show ?thesis using fit by (simp add: qrtr_event_def Let_def)
qed

text \<open>Property C9: a request of a client to a service leaves for that service's address from the port of the client id,
  and a packet to that port is given to that client alone, with the service and client id put back in front
  of it. This holds in every run with fewer than 255 client ids at a time.\<close>

theorem qrtr_proxy_translates_both_ways:
  assumes "qrtr_proxy_loop es qrtr_start = Some (False, x)" "usual_run es qrtr_start"
    and "find (\<lambda>n. qn_fd n = fd) (qp_connections x) = Some n" "find (is_client t c) (qn_clients n) = Some q"
    and "find_qrtr_service t x = Some s" "qs_service s \<noteq> 0" "t \<noteq> QMUX_TYPE_CTL" "length d \<le> 8150"
  shows "(\<exists>y. qrtr_event (Client_Msg fd (qmi_message t c d)) x = Some (False, y) \<and> qp_to_clients y = qp_to_clients x \<and>
      qp_to_dev y = qp_to_dev x @ [qrtr_packet QRTR_TYPE_DATA (1, qc_port q) (qs_node s, qs_port s) False d]) \<and>
    (\<forall>pad src. length pad < 4 \<and> 4 dvd length (d @ pad) \<longrightarrow>
      (\<exists>y. qrtr_event (Dev_Msg (qrtr_packet QRTR_TYPE_DATA src (1, qc_port q) False d @ pad)) x = Some (False, y) \<and>
        qp_to_dev y = qp_to_dev x \<and> qp_to_clients y = qp_to_clients x @ [(fd, qmi_message t c d)]))"
proof -
  have ok: "qrtr_ok x" by (rule run_ok [OF assms(1) qrtr_start_ok assms(2)])
  have n: "n \<in> set (qp_connections x)" "qn_fd n = fd" and q: "q \<in> set (qn_clients n)" "qc_type q = t" "qc_id q = c"
    using find_in [OF assms(3)] find_in [OF assms(4)] by (simp_all add: is_client_def)
  have one: "qc_node q = 1" using ok n(1) q(1) by (auto simp: qrtr_ok_def)
  have mem: "(fd, q) \<in> set (all_clients x)" using n q(1) by (auto simp: all_clients_def)
  have d: "length d \<le> 8186" using assms(8) by simp
  have "qrtr_event (Client_Msg fd (qmi_message t c d)) x = Some (False, qrtr_node_enqueue d QRTR_TYPE_DATA (1, qc_port q)
      (qs_node s, qs_port s) False (qrtr_read (qmi_message t c d) x))"
    using request_sent [OF d assms(7) assms(3-6)] one by simp
  moreover have "qrtr_event (Dev_Msg (qrtr_packet QRTR_TYPE_DATA src (1, qc_port q) False d @ pad)) x =
      Some (False, to_qmi_client fd (qmi_message t c d) (qrtr_read (qrtr_packet QRTR_TYPE_DATA src (1, qc_port q) False d @ pad) x))"
    if "length pad < 4" "4 dvd length (d @ pad)" for pad src
    using packet_delivered [OF ok mem assms(8) that, of src] q by simp
  ultimately show ?thesis by (simp add: qrtr_node_enqueue_def to_qmi_client_def read_others)
qed

section \<open>Services that go\<close>

definition server_packet :: "u32 \<Rightarrow> u32 \<Rightarrow> u32 \<Rightarrow> u32 \<Rightarrow> bytes" where
  "server_packet ty service inst port = qrtr_packet ty (node_modem, QRTR_PORT_CTRL) (node_myself, QRTR_PORT_CTRL) False
     (le32 ty @ le32 service @ le32 inst @ le32 node_modem @ le32 port)"

lemma packet_data: "rd32 (qrtr_packet ty src dst k d @ r) (32 + i) = rd32 (d @ r) i"
proof -
  define h where "h = qrtr_packet ty src dst k []"
  define u where "u = le32 1 @ le32 ty @ le32 (fst src) @ le32 (snd src) @ le32 (of_bool k) @ le32 (of_nat (length d)) @ le32 (fst dst) @ le32 (snd dst)"
  have "qrtr_packet ty src dst k d @ r = u @ d @ r" by (simp add: qrtr_packet_def u_def)
  moreover have "length u = 32" by (simp add: u_def)
  ultimately show ?thesis using rd32_append [of u "d @ r" i] by simp
qed

lemma server_change:
  assumes "length (qp_buf x) = 8192" "ty = QRTR_TYPE_NEW_SERVER \<or> ty = QRTR_TYPE_DEL_SERVER"
  shows "qrtr_event (Dev_Msg (server_packet ty service inst port)) x = Some (False,
    (qrtr_read (server_packet ty service inst port) x)\<lparr>qp_servers := qp_servers x @
      (if ty = QRTR_TYPE_NEW_SERVER
       then [\<lparr>qs_service = service, qs_version = inst AND 0xff, qs_instance = drop_bit 8 inst, qs_node = node_modem, qs_port = port,
              qs_src_node = node_modem, qs_src_port = QRTR_PORT_CTRL\<rparr>] else [])\<rparr>)"
proof -
  let ?d = "le32 ty @ le32 service @ le32 inst @ le32 node_modem @ le32 port"
  let ?m = "server_packet ty service inst port" and ?y = "qrtr_read (server_packet ty service inst port) x"
  have dl: "length ?d \<le> 8160" by simp
  let ?r = "drop (length ?m) (qp_buf x)"
  note f = packet_fields [where ty = ty and src = "(node_modem, QRTR_PORT_CTRL)" and dst = "(node_myself, QRTR_PORT_CTRL)" and k = False
      and r = ?r, OF dl, folded server_packet_def]
  have ml: "length ?m = 52" using packet_length [of ty "(node_modem, QRTR_PORT_CTRL)" "(node_myself, QRTR_PORT_CTRL)" False ?d]
    by (simp add: server_packet_def)
  have b: "qp_buf ?y = ?m @ ?r" using packet_read [of ?m x] ml by simp
  have u: "unat (of_nat (length ?d) :: u32) = 20" by simp
  have fit: "packet_fits ?m ?y"
    unfolding packet_fits_def b f(4) using u ml by (simp add: align_4_def c_int_small)
  have s: "rd32 (?m @ ?r) (32 + i) = rd32 (?d @ ?r) i" for i unfolding server_packet_def by (rule packet_data)
  have g: "rd32 (?m @ ?r) (32 + 4) = Some service" "rd32 (?m @ ?r) (32 + 8) = Some inst"
    "rd32 (?m @ ?r) (32 + 12) = Some node_modem" "rd32 (?m @ ?r) (32 + 16) = Some port"
    unfolding s using packet_field [of "le32 ty" 4 service "le32 inst @ le32 node_modem @ le32 port @ ?r"]
      packet_field [of "le32 ty @ le32 service" 8 inst "le32 node_modem @ le32 port @ ?r"]
      packet_field [of "le32 ty @ le32 service @ le32 inst" 12 node_modem "le32 port @ ?r"]
      packet_field [of "le32 ty @ le32 service @ le32 inst @ le32 node_modem" 16 port ?r] by simp_all
  have "handle_server_change ?y = Some (?y\<lparr>qp_servers := qp_servers x @
      (if ty = QRTR_TYPE_NEW_SERVER
       then [\<lparr>qs_service = service, qs_version = inst AND 0xff, qs_instance = drop_bit 8 inst, qs_node = node_modem, qs_port = port,
              qs_src_node = node_modem, qs_src_port = QRTR_PORT_CTRL\<rparr>] else [])\<rparr>)"
    unfolding handle_server_change_def Let_def b g bind.bind_lunit f(1,2) by (simp add: read_others)
  moreover have "dump_qrtr (?m @ ?r) = Some ()"
    unfolding dump_qrtr_def f(1) using assms(2) by (auto simp: QRTR_TYPE_NEW_SERVER_def QRTR_TYPE_DEL_SERVER_def)
  moreover have "?m \<noteq> []" using ml by auto
  moreover have "ty \<noteq> QRTR_TYPE_HELLO"
    using assms(2) by (auto simp: QRTR_TYPE_HELLO_def QRTR_TYPE_NEW_SERVER_def QRTR_TYPE_DEL_SERVER_def)
  ultimately show ?thesis using fit assms(2) f(1,2) unfolding b [symmetric]
    by (auto simp: qrtr_event_def Let_def recv_qrtr_from_dev_def)
qed

lemma find_snoc: "find P xs = None \<Longrightarrow> P y \<Longrightarrow> find P (xs @ [y]) = Some y"
  by (induction xs) (auto split: if_splits)

text \<open>Property C32: a service that the modem reports as gone is still known: the proxy goes on giving out client ids for it
  and sends requests to its old port.\<close>

theorem qrtr_removed_service_stays:
  assumes "length (qp_buf x) = 8192" "find_qrtr_service t x = None"
  shows "\<exists>y. qrtr_proxy_loop [Dev_Msg (server_packet QRTR_TYPE_NEW_SERVER (ucast t) inst port),
      Dev_Msg (server_packet QRTR_TYPE_DEL_SERVER (ucast t) inst port)] x = Some (False, y) \<and>
    (\<exists>s. find_qrtr_service t y = Some s \<and> qs_node s = node_modem \<and> qs_port s = port)"
proof -
  let ?s = "\<lparr>qs_service = ucast t, qs_version = inst AND 0xff, qs_instance = drop_bit 8 inst, qs_node = node_modem, qs_port = port,
    qs_src_node = node_modem, qs_src_port = QRTR_PORT_CTRL\<rparr>"
  let ?x1 = "(qrtr_read (server_packet QRTR_TYPE_NEW_SERVER (ucast t) inst port) x)\<lparr>qp_servers := qp_servers x @ [?s]\<rparr>"
  let ?x2 = "(qrtr_read (server_packet QRTR_TYPE_DEL_SERVER (ucast t) inst port) ?x1)\<lparr>qp_servers := qp_servers x @ [?s]\<rparr>"
  have ne: "QRTR_TYPE_DEL_SERVER \<noteq> QRTR_TYPE_NEW_SERVER" by (simp add: QRTR_TYPE_DEL_SERVER_def QRTR_TYPE_NEW_SERVER_def)
  have b: "length (qp_buf ?x1) = 8192" using read_keeps_qrtr [OF assms(1)] assms(1) by (simp add: qrtr_keeps_def)
  have "qrtr_event (Dev_Msg (server_packet QRTR_TYPE_NEW_SERVER (ucast t) inst port)) x = Some (False, ?x1)"
    using server_change [OF assms(1), of QRTR_TYPE_NEW_SERVER] by simp
  moreover have "qrtr_event (Dev_Msg (server_packet QRTR_TYPE_DEL_SERVER (ucast t) inst port)) ?x1 = Some (False, ?x2)"
    using server_change [OF b, of QRTR_TYPE_DEL_SERVER] ne by simp
  moreover have "find (\<lambda>s. qs_service s = ucast t) (qp_servers x @ [?s]) = Some ?s"
    by (rule find_snoc) (use assms(2) in \<open>simp_all add: find_qrtr_service_def\<close>)
  ultimately show ?thesis by (simp add: find_qrtr_service_def)
qed

text \<open>Port numbers from 256 on do not fit the table's entries: 256 is given out again and again.\<close>

lemma port_256_shared:
  assumes "length (port_bitmap x) = 0xff0" "\<forall>j. 1 \<le> j \<and> j < 256 \<longrightarrow> port_bitmap x ! j \<noteq> 0" "port_bitmap x ! 256 = 0"
  shows "alloc_port_id x = (256, x)"
proof -
  let ?b = "port_bitmap x"
  have l: "256 < length ?b" using assms(1) by simp
  obtain i where i: "1 \<le> i" "i \<le> 256" "?b ! i = 0" "alloc_from 1 ?b = (i, ?b[i := of_nat i])"
    using alloc_first [of 1 256 ?b] l assms(3) by auto
  have e: "i = 256"
  proof (rule ccontr)
    assume "i \<noteq> 256"
    then have "i < 256" using i(2) by linarith
    then show False using assms(2) i(1,3) by blast
  qed
  have z: "(256 :: byte) = 0" by code_simp
  have "?b[256 := 0] = ?b" using assms(3) list_update_id [of ?b 256] by simp
  then have "?b[256 := of_nat 256] = ?b" by (simp add: z)
  then show ?thesis using i(4) [unfolded One_nat_def] by (simp add: alloc_port_id_def e)
qed

text \<open>A run: a client connects, the modem reports a service, and the client is given an id for it.\<close>

definition get_id_message :: "byte \<Rightarrow> byte \<Rightarrow> bytes" where
  "get_id_message tid t = [0x01, 15, 0, 0, 0, 0, 0, tid, 0x22, 0, 4, 0, 0x01, 1, 0, t]"

definition qrtr_demo :: "proxy_event list" where
  "qrtr_demo = [Dev_Msg (server_packet QRTR_TYPE_NEW_SERVER 3 0 77), New_Client 5, Client_Msg 5 (get_id_message 9 3)]"

definition demo_service :: qrtr_service where
  "demo_service = \<lparr>qs_service = 3, qs_version = 0, qs_instance = 0, qs_node = node_modem, qs_port = 77,
    qs_src_node = node_modem, qs_src_port = QRTR_PORT_CTRL\<rparr>"

definition demo_client :: qrtr_client where
  "demo_client = \<lparr>qc_type = 3, qc_id = 1, qc_node = 1, qc_port = 1\<rparr>"

lemma get_id_event:
  assumes "length (qp_buf x) = 8192" "qp_connections x = [\<lparr>qn_fd = 5, qn_clients = []\<rparr>]" "find_qrtr_service 3 x = Some s"
    "client_bitmap x = replicate 0xf0 0" "port_bitmap x = replicate 0xff0 0"
  shows "\<exists>y. qrtr_event (Client_Msg 5 (get_id_message 9 3)) x = Some (False, y) \<and>
    qp_connections y = [\<lparr>qn_fd = 5, qn_clients = [demo_client]\<rparr>] \<and> qp_servers y = qp_servers x"
proof -
  let ?m = "get_id_message 9 3" and ?y = "qrtr_read (get_id_message 9 3) x"
  obtain r where b: "qp_buf ?y = ?m @ r" using packet_read [of ?m x] by (simp add: get_id_message_def)
  have f: "qmi_length (qp_buf ?y) = Some 15" "qmi_type (qp_buf ?y) = Some 0" "ctl_type (qp_buf ?y) = Some 0x22"
    "ctl_tid (qp_buf ?y) = Some 9" "rd8 (qp_buf ?y) 15 = Some 3"
    unfolding b by (simp_all add: get_id_message_def qmi_length_def qmi_type_def ctl_type_def ctl_tid_def rd16_def rd8_def le16_join_def)
  have fit: "message_fits ?m ?y" unfolding message_fits_def f(1) by (simp add: get_id_message_def)
  have a: "alloc_from 1 (replicate 0xf0 0) = (1, (replicate 0xf0 0)[1 := 1])" "alloc_from 1 (replicate 0xff0 0) = (1, (replicate 0xff0 0)[1 := 1])"
    by (subst alloc_from.simps, simp)+
  have c: "client_bitmap ?y = replicate 0xf0 0" "port_bitmap ?y = replicate 0xff0 0" "find_qrtr_service 3 ?y = Some s"
    using assms(3-5) by (simp_all add: qrtr_read_def find_qrtr_service_def)
  have al: "fst (alloc_qrtr_client_id 3 ?y) = demo_client" "qp_connections (snd (alloc_qrtr_client_id 3 ?y)) = qp_connections x"
    "qp_servers (snd (alloc_qrtr_client_id 3 ?y)) = qp_servers x"
    using a [unfolded One_nat_def] c(1,2)
    by (simp_all add: alloc_qrtr_client_id_def alloc_client_id_def alloc_port_id_def demo_client_def read_others)
  obtain z where z: "alloc_qrtr_client_id 3 ?y = (demo_client, z)" "qp_connections z = qp_connections x" "qp_servers z = qp_servers x"
    using al by (cases "alloc_qrtr_client_id 3 ?y") auto
  have "qrtr_ctl_request \<lparr>qn_fd = 5, qn_clients = []\<rparr> ?y = Some (to_qmi_client 5 (ctl_answer 9 0x22 0 0 [3, 1])
      (z\<lparr>qp_connections := [\<lparr>qn_fd = 5, qn_clients = [demo_client]\<rparr>]\<rparr>))"
    unfolding qrtr_ctl_request_def Let_def f bind.bind_lunit
    using z c(3) assms(2) by (simp add: QMICTL_SYNC_REQ_def QMICTL_GET_CLIENT_ID_REQ_def demo_client_def)
  then have "qrtr_event (Client_Msg 5 ?m) x = Some (False, to_qmi_client 5 (ctl_answer 9 0x22 0 0 [3, 1])
      (z\<lparr>qp_connections := [\<lparr>qn_fd = 5, qn_clients = [demo_client]\<rparr>]\<rparr>))"
    using fit f(2) assms(2) by (simp add: get_id_message_def qrtr_event_def Let_def qrtr_from_client_def read_others QMUX_TYPE_CTL_def)
  then show ?thesis using z(3) by (simp add: to_qmi_client_def)
qed

lemma qrtr_demo_run:
  "\<exists>x. qrtr_proxy_loop qrtr_demo qrtr_start = Some (False, x) \<and> usual_run qrtr_demo qrtr_start \<and>
    qp_connections x = [\<lparr>qn_fd = 5, qn_clients = [demo_client]\<rparr>] \<and> qp_servers x = [demo_service]"
proof -
  let ?x1 = "(qrtr_read (server_packet QRTR_TYPE_NEW_SERVER 3 0 77) qrtr_start)\<lparr>qp_servers := [demo_service]\<rparr>"
  let ?x2 = "accept_qrtr_connection 5 ?x1"
  have e1: "qrtr_event (Dev_Msg (server_packet QRTR_TYPE_NEW_SERVER 3 0 77)) qrtr_start = Some (False, ?x1)"
    using server_change [of qrtr_start QRTR_TYPE_NEW_SERVER 3 0 77] by (simp add: qrtr_start_def demo_service_def)
  have e2: "qrtr_event (New_Client 5) ?x1 = Some (False, ?x2)" by (simp add: qrtr_event_def)
  have c: "qp_connections ?x1 = []" "qp_connections ?x2 = [\<lparr>qn_fd = 5, qn_clients = []\<rparr>]" "qp_servers ?x2 = [demo_service]"
    "client_bitmap ?x2 = replicate 0xf0 0" "port_bitmap ?x2 = replicate 0xff0 0"
    by (simp_all add: accept_qrtr_connection_def read_others qrtr_start_def qrtr_read_def)
  have b: "length (qp_buf ?x2) = 8192"
    using read_keeps_qrtr [of qrtr_start] by (simp add: qrtr_keeps_def qrtr_start_def accept_qrtr_connection_def)
  have "find_qrtr_service 3 ?x2 = Some demo_service" unfolding find_qrtr_service_def c(3) by (simp add: demo_service_def)
  then obtain y where y: "qrtr_event (Client_Msg 5 (get_id_message 9 3)) ?x2 = Some (False, y)"
    "qp_connections y = [\<lparr>qn_fd = 5, qn_clients = [demo_client]\<rparr>]" "qp_servers y = [demo_service]"
    using get_id_event [OF b c(2) _ c(4,5)] c(3) by auto
  have "few qrtr_start" "few ?x1" "few ?x2" using c(1,2) by (simp_all add: few_def all_clients_def qrtr_start_def)
  then have "usual_run qrtr_demo qrtr_start"
    using e1 e2 y(1) c(1) by (simp add: qrtr_demo_def new_fd_def)
  moreover have "qrtr_proxy_loop qrtr_demo qrtr_start = Some (False, y)" using e1 e2 y(1) by (simp add: qrtr_demo_def)
  ultimately show ?thesis using y(2,3) by blast
qed

theorem qrtr_proxy_translates_both_ways_witness:
  "\<exists>x y. qrtr_proxy_loop qrtr_demo qrtr_start = Some (False, x) \<and>
    qrtr_event (Client_Msg 5 (qmi_message 3 1 [0, 7, 0, 0x20, 0, 0, 0])) x = Some (False, y) \<and>
    qp_to_dev y = qp_to_dev x @ [qrtr_packet QRTR_TYPE_DATA (1, 1) (node_modem, 77) False [0, 7, 0, 0x20, 0, 0, 0]]"
proof -
  obtain x where x: "qrtr_proxy_loop qrtr_demo qrtr_start = Some (False, x)" "usual_run qrtr_demo qrtr_start"
    "qp_connections x = [\<lparr>qn_fd = 5, qn_clients = [demo_client]\<rparr>]" "qp_servers x = [demo_service]"
    using qrtr_demo_run by blast
  have h: "find (\<lambda>n. qn_fd n = 5) (qp_connections x) = Some \<lparr>qn_fd = 5, qn_clients = [demo_client]\<rparr>"
    "find (is_client 3 1) (qn_clients \<lparr>qn_fd = 5, qn_clients = [demo_client]\<rparr>) = Some demo_client"
    "find_qrtr_service 3 x = Some demo_service" "qs_service demo_service \<noteq> 0" "(3 :: byte) \<noteq> QMUX_TYPE_CTL"
    "length [0, 7, 0, 0x20, 0, 0, 0 :: byte] \<le> 8150"
    using x(3,4) by (simp_all add: is_client_def demo_client_def find_qrtr_service_def demo_service_def QMUX_TYPE_CTL_def)
  from qrtr_proxy_translates_both_ways [OF x(1,2) h] x(1) show ?thesis
    by (auto simp: demo_client_def demo_service_def)
qed

theorem qrtr_removed_service_stays_witness:
  "\<exists>y. qrtr_proxy_loop [Dev_Msg (server_packet QRTR_TYPE_NEW_SERVER (ucast (3 :: byte)) 0 77),
      Dev_Msg (server_packet QRTR_TYPE_DEL_SERVER (ucast (3 :: byte)) 0 77)] qrtr_start = Some (False, y) \<and>
    (\<exists>s. find_qrtr_service 3 y = Some s \<and> qs_port s = 77)"
proof -
  have "length (qp_buf qrtr_start) = 8192" "find_qrtr_service 3 qrtr_start = None"
    by (simp_all add: qrtr_start_def find_qrtr_service_def)
  from qrtr_removed_service_stays [OF this, of 0 77] show ?thesis by blast
qed

end
