(* ===== verification/Mbim_Msg.thy ===== *)
theory Mbim_Msg
  imports Qmi_Setup
begin

text \<open>
  MBIM messages as \<^verbatim>\<open>quectel_cm_5G/src/mbim-cm.c\<close> writes and reads them: numbers of the protocol, ids of
  device services as text and as bytes, 16 bit strings, the headers, the commands, and the data of a
  connect request. A message is its bytes; the processor is taken to be little endian, as parts of
  the file take it.
\<close>

section \<open>Numbers\<close>

definition MBIM_CID_CMD_TYPE_QUERY :: u32 where "MBIM_CID_CMD_TYPE_QUERY = 0"
definition MBIM_CID_CMD_TYPE_SET :: u32 where "MBIM_CID_CMD_TYPE_SET = 1"

definition MBIM_CID_DEVICE_CAPS :: u32 where "MBIM_CID_DEVICE_CAPS = 1"
definition MBIM_CID_SUBSCRIBER_READY_STATUS :: u32 where "MBIM_CID_SUBSCRIBER_READY_STATUS = 2"
definition MBIM_CID_RADIO_STATE :: u32 where "MBIM_CID_RADIO_STATE = 3"
definition MBIM_CID_REGISTER_STATE :: u32 where "MBIM_CID_REGISTER_STATE = 9"
definition MBIM_CID_PACKET_SERVICE :: u32 where "MBIM_CID_PACKET_SERVICE = 10"
definition MBIM_CID_CONNECT :: u32 where "MBIM_CID_CONNECT = 12"
definition MBIM_CID_IP_CONFIGURATION :: u32 where "MBIM_CID_IP_CONFIGURATION = 15"
definition MBIM_CID_DEVICE_SERVICES :: u32 where "MBIM_CID_DEVICE_SERVICES = 16"
definition MBIM_CID_MS_VERSION :: u32 where "MBIM_CID_MS_VERSION = 15"
definition MBIM_CID_PROXY_CONTROL_CONFIGURATION :: u32 where "MBIM_CID_PROXY_CONTROL_CONFIGURATION = 1"

definition MBIM_OPEN_MSG :: u32 where "MBIM_OPEN_MSG = 1"
definition MBIM_CLOSE_MSG :: u32 where "MBIM_CLOSE_MSG = 2"
definition MBIM_COMMAND_MSG :: u32 where "MBIM_COMMAND_MSG = 3"
definition MBIM_OPEN_DONE :: u32 where "MBIM_OPEN_DONE = 0x80000001"
definition MBIM_CLOSE_DONE :: u32 where "MBIM_CLOSE_DONE = 0x80000002"
definition MBIM_COMMAND_DONE :: u32 where "MBIM_COMMAND_DONE = 0x80000003"
definition MBIM_FUNCTION_ERROR_MSG :: u32 where "MBIM_FUNCTION_ERROR_MSG = 0x80000004"
definition MBIM_INDICATE_STATUS_MSG :: u32 where "MBIM_INDICATE_STATUS_MSG = 0x80000007"

definition MBIMSubscriberReadyStateNotInitialized :: u32 where "MBIMSubscriberReadyStateNotInitialized = 0"
definition MBIMSubscriberReadyStateInitialized :: u32 where "MBIMSubscriberReadyStateInitialized = 1"
definition MBIMSubscriberReadyStateBadSim :: u32 where "MBIMSubscriberReadyStateBadSim = 3"
definition MBIMSubscriberReadyStateDeviceLocked :: u32 where "MBIMSubscriberReadyStateDeviceLocked = 6"

definition MBIMRegisterStateUnknown :: u32 where "MBIMRegisterStateUnknown = 0"
definition MBIMRegisterStateHome :: u32 where "MBIMRegisterStateHome = 3"
definition MBIMRegisterStateRoaming :: u32 where "MBIMRegisterStateRoaming = 4"
definition MBIMRegisterStatePartner :: u32 where "MBIMRegisterStatePartner = 5"

definition MBIMPacketServiceStateUnknown :: u32 where "MBIMPacketServiceStateUnknown = 0"
definition MBIMPacketServiceStateAttached :: u32 where "MBIMPacketServiceStateAttached = 2"
definition MBIMPacketServiceActionAttach :: u32 where "MBIMPacketServiceActionAttach = 0"

definition MBIMActivationStateUnknown :: u32 where "MBIMActivationStateUnknown = 0"
definition MBIMActivationStateActivated :: u32 where "MBIMActivationStateActivated = 1"
definition MBIMActivationCommandDeactivate :: u32 where "MBIMActivationCommandDeactivate = 0"
definition MBIMActivationCommandActivate :: u32 where "MBIMActivationCommandActivate = 1"

definition MBIMContextIPTypeDefault :: int where "MBIMContextIPTypeDefault = 0"
definition MBIMContextIPTypeIPv4 :: int where "MBIMContextIPTypeIPv4 = 1"
definition MBIMContextIPTypeIPv6 :: int where "MBIMContextIPTypeIPv6 = 2"
definition MBIMContextIPTypeIPv4AndIPv6 :: int where "MBIMContextIPTypeIPv4AndIPv6 = 4"
definition MBIMAuthProtocolNone :: int where "MBIMAuthProtocolNone = 0"
definition MBIMCompressionNone :: u32 where "MBIMCompressionNone = 0"
definition MBIMRadioOn :: u32 where "MBIMRadioOn = 1"

section \<open>Ids of device services\<close>

definition UUID_BASIC_CONNECT :: string where "UUID_BASIC_CONNECT = ''a289cc33-bcbb-8b4f-b6b0-133ec2aae6df''"
definition UUID_BASIC_CONNECT_EXT :: string where "UUID_BASIC_CONNECT_EXT = ''3d01dcc5-fef5-4d05-0d3a-bef7058e9aaf''"
definition uuid_ext_qmux :: string where "uuid_ext_qmux = ''d1a30bc2-f97a-6e43-bf65-c7e24fb0f0d3''"
definition UUID_LIBMBIM_PROXY :: string where "UUID_LIBMBIM_PROXY = ''838cf7fb-8d0d-4d7f-871e-d71dbefbb39b''"
definition UUID_MBIMContextTypeInternet :: string where
  "UUID_MBIMContextTypeInternet = ''7E5E2A7E-4E6F-7272-736B-656E7E5E2A7E''"

text \<open>The format of both directions: \<open>True\<close> is a byte in two hexadecimal digits, \<open>False\<close> a dash. A
  field of two characters that are not both digits (a sign, a blank) does not occur in a format of
  the program; the scan stops at it like at any other mismatch, and the rest of the bytes is not
  assigned: \<open>None\<close>. So is a text that is longer than the buffer for it.\<close>

definition uuid_format :: "bool list" where
  "uuid_format = [True, True, True, True, False, True, True, False, True, True, False, True, True, False,
     True, True, True, True, True, True]"

fun scan_uuid :: "bool list \<Rightarrow> string \<Rightarrow> bytes option" where
  "scan_uuid [] s = Some []"
| "scan_uuid (f # fs) s =
     (if f then (case s of a # b # r \<Rightarrow>
          if is_digit_of 16 a \<and> is_digit_of 16 b
          then map_option ((#) (of_nat (digits_value 16 [a, b]))) (scan_uuid fs r) else None
        | _ \<Rightarrow> None)
      else (case s of c # r \<Rightarrow> if c = CHR ''-'' then scan_uuid fs r else None | [] \<Rightarrow> None))"

definition str2uuid :: "string \<Rightarrow> bytes option" where
  "str2uuid str = (if 36 < length str then None else scan_uuid uuid_format (map c_tolower str))"

fun print_uuid :: "bool list \<Rightarrow> bytes \<Rightarrow> string" where
  "print_uuid [] d = []"
| "print_uuid (f # fs) d =
     (if f then (case d of [] \<Rightarrow> [] | b # r \<Rightarrow> hex2 b @ print_uuid fs r) else CHR ''-'' # print_uuid fs d)"

definition uuid2str :: "bytes \<Rightarrow> string" where
  "uuid2str d = print_uuid uuid_format d"

section \<open>Strings of 16 bit characters\<close>

text \<open>The bytes \<open>char2wchar\<close> writes; it returns how many.\<close>

definition char2wchar :: "string \<Rightarrow> nat \<Rightarrow> bytes" where
  "char2wchar src dst_len = concat (map (\<lambda>b. [b, 0]) (take (dst_len div 2) (str_bytes src)))"

text \<open>The bytes \<open>wchar2char\<close> puts before the terminator: the source is at \<open>pos\<close> of a message.\<close>

definition wchar2char :: "bytes \<Rightarrow> nat \<Rightarrow> nat \<Rightarrow> nat \<Rightarrow> bytes option" where
  "wchar2char m pos src_size dst_len =
     those (map (\<lambda>i. rd8 m (pos + i * 2)) [0..<min (dst_len - 1) (src_size div 2)])"

section \<open>Messages\<close>

definition mbim_header :: "u32 \<Rightarrow> nat \<Rightarrow> u32 \<Rightarrow> bytes" where
  "mbim_header ty len tid = le32 ty @ le32 (of_nat len) @ le32 tid"

definition MessageType :: "bytes \<Rightarrow> u32 option" where "MessageType m = rd32 m 0"
definition MessageLength :: "bytes \<Rightarrow> u32 option" where "MessageLength m = rd32 m 4"
definition msg_tid :: "bytes \<Rightarrow> u32 option" where "msg_tid m = rd32 m 8"

text \<open>The service and the number of a command or an indication; the status and the information buffer
  of an answer, which starts at 48; the information buffer of an indication starts at 44.\<close>

definition DeviceServiceId :: "bytes \<Rightarrow> bytes option" where "DeviceServiceId m = rdn m 20 16"
definition CID :: "bytes \<Rightarrow> u32 option" where "CID m = rd32 m 36"
definition done_status :: "bytes \<Rightarrow> u32 option" where "done_status m = rd32 m 40"
definition info_length :: "bytes \<Rightarrow> u32 option" where "info_length m = rd32 m 44"
definition done_info :: "bytes \<Rightarrow> nat \<Rightarrow> u32 option" where "done_info m i = rd32 m (48 + i)"
definition ind_info :: "bytes \<Rightarrow> nat \<Rightarrow> u32 option" where "ind_info m i = rd32 m (44 + i)"

text \<open>Each takes the transaction number to use; the caller counts it up.\<close>

definition compose_open_command :: "u32 \<Rightarrow> u32 \<Rightarrow> bytes" where
  "compose_open_command MaxControlTransfer tid = mbim_header MBIM_OPEN_MSG 16 tid @ le32 MaxControlTransfer"

definition compose_close_command :: "u32 \<Rightarrow> bytes" where
  "compose_close_command tid = mbim_header MBIM_CLOSE_MSG 12 tid"

text \<open>A buffer that is given, or the size of one that is left for the caller to fill: its length
  is then stated as 0. What the caller does not fill would be undefined; \<open>mbim_proxy_configure\<close>, the
  only such caller, fills it all.\<close>

definition compose_command :: "string \<Rightarrow> u32 \<Rightarrow> u32 \<Rightarrow> bytes option \<Rightarrow> bytes \<Rightarrow> u32 \<Rightarrow> bytes option" where
  "compose_command service cid ty stated info tid = do {
     u \<leftarrow> str2uuid service;
     Some (mbim_header MBIM_COMMAND_MSG (48 + length info) tid @ le32 1 @ le32 0 @ u @ le32 cid @ le32 ty @
       le32 (case stated of None \<Rightarrow> 0 | Some b \<Rightarrow> of_nat (length b)) @ info) }"

definition compose_basic_connect_command :: "u32 \<Rightarrow> u32 \<Rightarrow> bytes \<Rightarrow> u32 \<Rightarrow> bytes option" where
  "compose_basic_connect_command cid ty b = compose_command UUID_BASIC_CONNECT cid ty (Some b) b"

definition compose_basic_connect_ext_command :: "u32 \<Rightarrow> u32 \<Rightarrow> bytes \<Rightarrow> u32 \<Rightarrow> bytes option" where
  "compose_basic_connect_ext_command cid ty b = compose_command UUID_BASIC_CONNECT_EXT cid ty (Some b) b"

definition compose_qmi_over_mbim_command :: "u32 \<Rightarrow> u32 \<Rightarrow> bytes \<Rightarrow> u32 \<Rightarrow> bytes option" where
  "compose_qmi_over_mbim_command cid ty b = compose_command uuid_ext_qmux cid ty (Some b) b"

section \<open>The data of a connect request\<close>

definition align_32 :: "nat \<Rightarrow> nat" where
  "align_32 len = len + (if len mod 4 \<noteq> 0 then 4 - len mod 4 else 0)"

definition wrn :: "bytes \<Rightarrow> nat \<Rightarrow> bytes \<Rightarrow> bytes option" where
  "wrn m i bs = (if i + length bs \<le> length m then Some (take i m @ bs @ drop (i + length bs) m) else None)"

text \<open>The size of the fixed part, and one string: its size and offset go to the pair of fields at
  \<open>field\<close>, its text to \<open>offset\<close> behind the fixed part. The result is what \<open>char2wchar\<close> returned, which
  is the next offset.\<close>

definition SET_CONNECT_SIZE :: nat where "SET_CONNECT_SIZE = 60"

definition wide_size :: "string option \<Rightarrow> nat" where
  "wide_size s = (case s of None \<Rightarrow> 0 | Some t \<Rightarrow> 2 * length t)"

definition data_size :: "string option \<Rightarrow> string option \<Rightarrow> string option \<Rightarrow> nat" where
  "data_size a u p = align_32 (align_32 (align_32 (wide_size a) + wide_size u) + wide_size p)"

definition put_string :: "nat \<Rightarrow> nat \<Rightarrow> string option \<Rightarrow> nat \<times> bytes \<Rightarrow> (nat \<times> bytes) option" where
  "put_string field buflen s x = (case x of (offset, m) \<Rightarrow>
     (if str_or_empty s = [] then Some (offset, m)
      else do {
        m \<leftarrow> wrn m (field + 4) (le32 (of_nat (2 * length (str_or_empty s))));
        m \<leftarrow> wrn m field (le32 (of_nat (offset + SET_CONNECT_SIZE)));
        let w = char2wchar (str_or_empty s) (buflen - offset);
        m \<leftarrow> wrn m (SET_CONNECT_SIZE + offset) w;
        Some (length w, m) }))"

definition mbim_populate_connect_data :: "string option \<Rightarrow> string option \<Rightarrow> string option \<Rightarrow> bytes option" where
  "mbim_populate_connect_data mbim_apn mbim_user mbim_passwd =
     (let buflen = data_size mbim_apn mbim_user mbim_passwd in do {
       (offset, m) \<leftarrow> put_string 8 buflen mbim_apn (0, replicate (SET_CONNECT_SIZE + buflen) 0);
       (offset, m) \<leftarrow> put_string 16 buflen mbim_user (align_32 offset, m);
       (_, m) \<leftarrow> put_string 24 buflen mbim_passwd (align_32 offset, m);
       Some m })"

text \<open>What a reader of the request finds as the string of a pair of fields.\<close>

definition connect_string :: "nat \<Rightarrow> bytes \<Rightarrow> bytes option" where
  "connect_string field m = do {
     off \<leftarrow> rd32 m field; sz \<leftarrow> rd32 m (field + 4);
     wchar2char m (unat off) (unat sz) (unat sz + 1) }"

section \<open>Text and bytes of ids\<close>

lemma hex_digit_lower: "d < 16 \<Longrightarrow> c_tolower (hex_digit d) = hex_digit d"
  by (auto simp: c_tolower_def hex_digit_def ord_char_of)

lemma lower_idem [simp]: "c_tolower (c_tolower c) = c_tolower c"
  by (auto simp: c_tolower_def ord_char_of)

lemma hex_digit_of: "is_digit_of 16 c \<Longrightarrow> c_tolower c = c \<Longrightarrow> \<exists>d < 16. c = hex_digit d \<and> digit_val c = Some d"
proof -
  assume "is_digit_of 16 c" "c_tolower c = c"
  then obtain d where d: "digit_val c = Some d" "d < 16" by (auto simp: is_digit_of_def split: option.splits)
  have "char_of (ord_of c) = c" by (simp add: ord_of_def)
  then have "c = hex_digit d"
    using d \<open>c_tolower c = c\<close>
    by (auto simp: digit_val_def hex_digit_def c_tolower_def ord_char_of split: if_splits dest: arg_cong [of _ _ ord_of])
  then show ?thesis using d by auto
qed

lemma hex2_digits:
  obtains a b where "hex2 v = [hex_digit a, hex_digit b]" "a < 16" "b < 16" "a * 16 + b = unat v"
proof (rule that)
  show "hex2 v = [hex_digit (unat v div 16), hex_digit (unat v mod 16)]" by (rule hex2_def)
  show "unat v div 16 < 16" using unat_byte_lt [of v] by simp
qed simp_all

lemma scan_print: "length u = length (filter (\<lambda>f. f) fs) \<Longrightarrow> scan_uuid fs (print_uuid fs u) = Some u"
proof (induction fs arbitrary: u)
  case (Cons f fs)
  show ?case
  proof (cases f)
    case True
    then obtain v r where u: "u = v # r" "length r = length (filter (\<lambda>f. f) fs)"
      using Cons.prems by (cases u) auto
    obtain a b where "hex2 v = [hex_digit a, hex_digit b]" "a < 16" "b < 16" "a * 16 + b = unat v"
      by (rule hex2_digits)
    then show ?thesis using Cons.IH [OF u(2)] True u(1)
      by (simp add: is_digit_hex_digit digits_value_def digit_val_hex_digit)
  qed (use Cons in simp)
qed simp

lemma print_scan:
  "scan_uuid fs t = Some u \<Longrightarrow> map c_tolower t = t \<Longrightarrow> \<exists>r. t = print_uuid fs u @ r"
proof (induction fs arbitrary: t u)
  case (Cons f fs)
  show ?case
  proof (cases f)
    case True
    then obtain a b r u' where t: "t = a # b # r" "is_digit_of 16 a" "is_digit_of 16 b" "scan_uuid fs r = Some u'"
      "u = of_nat (digits_value 16 [a, b]) # u'"
      using Cons.prems(1) by (auto split: list.splits if_splits)
    obtain x y where xy: "a = hex_digit x" "x < 16" "b = hex_digit y" "y < 16"
      using hex_digit_of [OF t(2)] hex_digit_of [OF t(3)] Cons.prems(2) t(1) by auto
    have "digits_value 16 [a, b] = x * 16 + y" using xy by (simp add: digits_value_def digit_val_hex_digit)
    then have "unat (of_nat (digits_value 16 [a, b]) :: byte) = x * 16 + y"
      using xy by (simp only: unat_of_nat) (simp add: take_bit_nat_eq_self)
    then have "hex2 (of_nat (digits_value 16 [a, b])) = [a, b]"
      using xy by (simp only: hex2_def) simp
    then show ?thesis using Cons.IH [OF t(4)] Cons.prems(2) t True by auto
  next
    case False
    then show ?thesis using Cons by (auto split: list.splits if_splits)
  qed
qed simp

lemma scan_length: "scan_uuid fs t = Some u \<Longrightarrow> length u = length (filter (\<lambda>f. f) fs)"
  by (induction fs arbitrary: t u) (auto split: list.splits if_splits)

lemma print_length: "length u = length (filter (\<lambda>f. f) fs) \<Longrightarrow> length (print_uuid fs u) = length fs + length u"
proof (induction fs arbitrary: u)
  case (Cons f fs)
  then show ?case by (cases u) auto
qed simp

lemma print_lower: "map c_tolower (print_uuid fs u) = print_uuid fs u"
proof (induction fs arbitrary: u)
  case (Cons f fs)
  have "c_tolower (CHR ''-'') = CHR ''-''" by (simp add: c_tolower_def ord_of_def)
  moreover have "map c_tolower (hex2 v) = hex2 v" for v
    by (rule hex2_digits [of v]) (simp add: hex_digit_lower)
  ultimately show ?case using Cons by (cases u) auto
qed simp

lemma format_counts: "length (filter (\<lambda>f. f) uuid_format) = 16" "length uuid_format = 20"
  by (simp_all add: uuid_format_def)




section \<open>The strings of a connect request\<close>

lemma wrn_rd8:
  "wrn m j bs = Some m' \<Longrightarrow> rd8 m' k = (if j \<le> k \<and> k < j + length bs then Some (bs ! (k - j)) else rd8 m k)"
  by (auto simp: wrn_def rd8_def nth_append min_def split: if_splits)

lemma wrn_length: "wrn m j bs = Some m' \<Longrightarrow> length m' = length m"
  by (auto simp: wrn_def split: if_splits)

lemma wrn_fits: "j + length bs \<le> length m \<Longrightarrow> \<exists>m'. wrn m j bs = Some m'"
  by (simp add: wrn_def)

lemma rd32_cong: "(\<And>k. i \<le> k \<Longrightarrow> k < i + 4 \<Longrightarrow> rd8 m k = rd8 m' k) \<Longrightarrow> rd32 m i = rd32 m' i"
  by (simp add: rd32_def)

lemma wrn_rd32: "wrn m j (le32 v) = Some m' \<Longrightarrow> rd32 m' j = Some v"
  by (simp add: rd32_def wrn_rd8 le32_def le_simps numeral_2_eq_2 numeral_3_eq_3)

lemma char2wchar_full: "2 * length t \<le> n \<Longrightarrow> length (char2wchar t n) = 2 * length t \<and>
    (\<forall>i < length t. char2wchar t n ! (2 * i) = str_bytes t ! i)"
proof -
  assume n: "2 * length t \<le> n"
  have l: "length (str_bytes t) = length t" by (simp add: str_bytes_def)
  have "char2wchar t n = concat (map (\<lambda>b. [b, 0]) (str_bytes t))"
    using n by (simp add: char2wchar_def l)
  moreover have "length (concat (map (\<lambda>b. [b, 0 :: byte]) bs)) = 2 * length bs \<and>
      (\<forall>i < length bs. concat (map (\<lambda>b. [b, 0]) bs) ! (2 * i) = bs ! i)" for bs
    by (induction bs) (auto simp: nth_Cons split: nat.split)
  ultimately show ?thesis by (simp add: l)
qed

text \<open>The string of the field is at an offset in the data.\<close>

definition string_at :: "bytes \<Rightarrow> nat \<Rightarrow> nat \<Rightarrow> bytes \<Rightarrow> bool" where
  "string_at m field off bs \<longleftrightarrow>
     (if bs = [] then rd32 m field = Some 0 \<and> rd32 m (field + 4) = Some 0
      else rd32 m field = Some (of_nat (off + 60)) \<and> rd32 m (field + 4) = Some (of_nat (2 * length bs)) \<and>
        (\<forall>i < length bs. rd8 m (60 + off + 2 * i) = Some (bs ! i)))"

lemma those_map_Some: "(\<forall>i \<in> set is. f i = Some (g i)) \<Longrightarrow> those (map f is) = Some (map g is)"
  by (induction "is") auto

lemma string_at_read:
  assumes "string_at m field off bs" "off + 60 < 2 ^ 32" "2 * length bs < 2 ^ 32"
  shows "connect_string field m = Some bs"
proof (cases "bs = []")
  case True
  then show ?thesis using assms(1) by (simp add: string_at_def connect_string_def wchar2char_def)
next
  case False
  have u: "unat (of_nat (off + 60) :: u32) = off + 60" "unat (of_nat (2 * length bs) :: u32) = 2 * length bs"
    using assms(2,3) by (simp_all only: unat_of_nat) (simp_all add: take_bit_nat_eq_self)
  have f: "rd32 m field = Some (of_nat (off + 60))" "rd32 m (field + 4) = Some (of_nat (2 * length bs))"
    using assms(1) False by (simp_all only: string_at_def if_False simp_thms)
  have "those (map (\<lambda>i. rd8 m (off + 60 + i * 2)) [0..<length bs]) = Some (map ((!) bs) [0..<length bs])"
    using assms(1) False by (intro those_map_Some) (auto simp: string_at_def ac_simps)
  then show ?thesis
    by (simp only: connect_string_def f bind.bind_lunit u wchar2char_def) (simp add: min_def map_nth)
qed

text \<open>Putting a string: where it is then, how far the next one may start, and what else it leaves.\<close>

lemma put_string_effect:
  assumes m: "length m = 60 + B" "field + 8 \<le> 60" "off + wide_size s \<le> B"
    and zero: "rd32 m field = Some 0" "rd32 m (field + 4) = Some 0"
  obtains m' where "put_string field B s (off, m) = Some (if str_or_empty s = [] then off else wide_size s, m')"
    "length m' = 60 + B" "string_at m' field off (str_bytes (str_or_empty s))"
    "\<And>k. k < field \<or> field + 8 \<le> k \<Longrightarrow> k < 60 + off \<or> 60 + off + wide_size s \<le> k \<Longrightarrow> rd8 m' k = rd8 m k"
proof (cases "str_or_empty s = []")
  case True
  then show ?thesis using m zero by (intro that [of m]) (simp_all add: put_string_def string_at_def str_bytes_def)
next
  case False
  then obtain t where t: "s = Some t" "t \<noteq> []" by (cases s) (auto simp: str_or_empty_def)
  have w: "length (char2wchar t (B - off)) = 2 * length t" "\<forall>i < length t. char2wchar t (B - off) ! (2 * i) = str_bytes t ! i"
    using char2wchar_full [of t "B - off"] m(3) t(1) by (simp_all add: wide_size_def)
  obtain m1 where m1: "wrn m (field + 4) (le32 (of_nat (2 * length t))) = Some m1"
    using wrn_fits [of "field + 4" "le32 (of_nat (2 * length t))" m] m by auto
  obtain m2 where m2: "wrn m1 field (le32 (of_nat (off + 60))) = Some m2"
    using wrn_fits [of "field" "le32 (of_nat (off + 60))" m1] m wrn_length [OF m1] by auto
  obtain m3 where m3: "wrn m2 (60 + off) (char2wchar t (B - off)) = Some m3"
    using wrn_fits [of "60 + off" "char2wchar t (B - off)" m2] m wrn_length [OF m1] wrn_length [OF m2] w(1) t(1)
    by (auto simp: wide_size_def)
  note rd = wrn_rd8 [OF m1] wrn_rd8 [OF m2] wrn_rd8 [OF m3]
  have "rd32 m3 field = Some (of_nat (off + 60))"
    using wrn_rd32 [OF m2] m(2) by (subst rd32_cong [where m' = m2]) (simp_all add: rd(3))
  moreover have "rd32 m3 (field + 4) = Some (of_nat (2 * length t))"
    using wrn_rd32 [OF m1] m(2) by (subst rd32_cong [where m' = m1]) (simp_all add: rd(2,3))
  moreover have "rd8 m3 (60 + off + 2 * i) = Some (str_bytes t ! i)" if "i < length t" for i
    using that w by (simp add: rd(3))
  ultimately have "string_at m3 field off (str_bytes t)"
    using t(2) by (simp add: string_at_def str_bytes_def)
  moreover have "put_string field B s (off, m) = Some (2 * length t, m3)"
    using t m1 m2 m3 w(1) by (simp add: put_string_def str_or_empty_def SET_CONNECT_SIZE_def Let_def ac_simps)
  moreover have "rd8 m3 k = rd8 m k"
    if "k < field \<or> field + 8 \<le> k" "k < 60 + off \<or> 60 + off + wide_size s \<le> k" for k
    using that w(1) t(1) by (auto simp: rd wide_size_def)
  ultimately show ?thesis
    using that [of m3] t False wrn_length [OF m1] wrn_length [OF m2] wrn_length [OF m3] m(1)
    by (simp add: wide_size_def str_or_empty_def)
qed


text \<open>A string stays where it is when only other bytes change.\<close>

lemma string_at_other:
  assumes "string_at m field off bs" "\<And>k. field \<le> k \<Longrightarrow> k < field + 8 \<Longrightarrow> rd8 m' k = rd8 m k"
    "\<And>k. 60 + off \<le> k \<Longrightarrow> k < 60 + off + 2 * length bs \<Longrightarrow> rd8 m' k = rd8 m k"
  shows "string_at m' field off bs"
proof -
  have "rd32 m' field = rd32 m field" "rd32 m' (field + 4) = rd32 m (field + 4)"
    by (rule rd32_cong; simp add: assms(2))+
  then show ?thesis using assms(1,3) by (simp add: string_at_def)
qed

lemma align_ge: "n \<le> align_32 n"
  by (simp add: align_32_def)

lemma align_le: "align_32 n \<le> n + 3"
  by (simp add: align_32_def) presburger

lemma align_0 [simp]: "align_32 0 = 0"
  by (simp add: align_32_def)

lemma align_mod: "align_32 n mod 4 = 0"
  unfolding align_32_def by presburger

lemma align_idem [simp]: "align_32 (align_32 n) = align_32 n"
  using align_mod [of n] by (simp add: align_32_def [of "align_32 n"])

lemma align_sum: "align_32 (align_32 a + b) = align_32 a + align_32 b"
  using align_mod [of a] by (simp add: align_32_def [of b] align_32_def [of "align_32 a + b"] mod_add_eq [of "align_32 a", symmetric])

lemma data_size_eq: "data_size a u p = align_32 (wide_size a) + align_32 (wide_size u) + align_32 (wide_size p)"
  by (simp add: data_size_def align_sum add.assoc)

text \<open>Where each string goes.\<close>

definition user_offset :: "string option \<Rightarrow> nat" where "user_offset a = align_32 (wide_size a)"

definition passwd_offset :: "string option \<Rightarrow> string option \<Rightarrow> nat" where
  "passwd_offset a u = align_32 (if str_or_empty u = [] then user_offset a else wide_size u)"

lemma wide_zero: "str_or_empty s = [] \<longleftrightarrow> wide_size s = 0" "2 * length (str_bytes (str_or_empty s)) = wide_size s"
  by (auto simp: str_or_empty_def wide_size_def str_bytes_def split: option.splits)

lemma zero_fields: "f + 4 \<le> n \<Longrightarrow> rd32 (replicate n 0) f = Some 0"
  by (simp add: rd32_def rd8_def le32_join_def)

lemma populate_effect:
  obtains m0 m1 m where "mbim_populate_connect_data a u p = Some m"
    "string_at m0 8 0 (str_bytes (str_or_empty a))"
    "string_at m1 16 (user_offset a) (str_bytes (str_or_empty u))"
    "string_at m 24 (passwd_offset a u) (str_bytes (str_or_empty p))"
    "\<And>k. k < 16 \<or> 24 \<le> k \<Longrightarrow> k < 60 + user_offset a \<or> 60 + user_offset a + wide_size u \<le> k \<Longrightarrow> rd8 m1 k = rd8 m0 k"
    "\<And>k. k < 24 \<or> 32 \<le> k \<Longrightarrow> k < 60 + passwd_offset a u \<or> 60 + passwd_offset a u + wide_size p \<le> k \<Longrightarrow> rd8 m k = rd8 m1 k"
proof -
  let ?B = "data_size a u p"
  note ge = align_ge [of "wide_size a"] align_ge [of "wide_size u"] align_ge [of "wide_size p"]
  have z: "rd32 (replicate (60 + ?B) 0) f = Some 0" if "f \<le> 56" for f using that by (simp add: zero_fields)
  obtain m0 where m0: "put_string 8 ?B a (0, replicate (60 + ?B) 0) = Some (wide_size a, m0)" "length m0 = 60 + ?B"
      "string_at m0 8 0 (str_bytes (str_or_empty a))"
      "\<And>k. k < 8 \<or> 16 \<le> k \<Longrightarrow> k < 60 \<or> 60 + wide_size a \<le> k \<Longrightarrow> rd8 m0 k = rd8 (replicate (60 + ?B) 0) k"
    using put_string_effect [of "replicate (60 + ?B) 0" ?B 8 0 a] z ge by (auto simp: data_size_eq wide_zero split: if_splits)
  have z0: "rd32 m0 f = Some 0" if "16 \<le> f" "f \<le> 56" for f
    using z [of f] that by (subst rd32_cong [where m' = "replicate (60 + ?B) 0"]) (simp_all add: m0(4))
  obtain m1 where m1: "put_string 16 ?B u (user_offset a, m0) =
        Some (if str_or_empty u = [] then user_offset a else wide_size u, m1)" "length m1 = 60 + ?B"
      "string_at m1 16 (user_offset a) (str_bytes (str_or_empty u))"
      "\<And>k. k < 16 \<or> 24 \<le> k \<Longrightarrow> k < 60 + user_offset a \<or> 60 + user_offset a + wide_size u \<le> k \<Longrightarrow> rd8 m1 k = rd8 m0 k"
    using put_string_effect [of m0 ?B 16 "user_offset a" u] m0(2) z0 ge by (auto simp: data_size_eq user_offset_def)
  have z1: "rd32 m1 f = Some 0" if "24 \<le> f" "f \<le> 56" for f
    using z0 [of f] that by (subst rd32_cong [where m' = m0]) (simp_all add: m1(4))
  have "passwd_offset a u + wide_size p \<le> ?B"
    using ge by (auto simp: passwd_offset_def user_offset_def data_size_eq)
  then obtain m where m: "put_string 24 ?B p (passwd_offset a u, m1) =
        Some (if str_or_empty p = [] then passwd_offset a u else wide_size p, m)" "length m = 60 + ?B"
      "string_at m 24 (passwd_offset a u) (str_bytes (str_or_empty p))"
      "\<And>k. k < 24 \<or> 32 \<le> k \<Longrightarrow> k < 60 + passwd_offset a u \<or> 60 + passwd_offset a u + wide_size p \<le> k \<Longrightarrow> rd8 m k = rd8 m1 k"
    using put_string_effect [of m1 ?B 24 "passwd_offset a u" p] m1(2) z1 by auto
  have "mbim_populate_connect_data a u p = Some m"
    using m0(1) m1(1) m(1)
    by (simp add: mbim_populate_connect_data_def SET_CONNECT_SIZE_def Let_def user_offset_def passwd_offset_def)
  then show thesis using m0(3) m1(3) m(3) m1(4) m(4) by (rule that)
qed


lemma string_empty: "string_at m field off [] = string_at m field off' []"
  by (simp add: string_at_def)

text \<open>Property C12: the strings of a connect request are read back, as long as one of the three is
  missing: the access point, the user and the password a modem finds at the offsets and sizes of the
  request are the ones given. Nothing is written outside the buffer.\<close>

theorem connect_strings_read_back:
  assumes "str_or_empty a = [] \<or> str_or_empty u = [] \<or> str_or_empty p = []"
    and "wide_size a + wide_size u + wide_size p < 2 ^ 31"
  shows "\<exists>m. mbim_populate_connect_data a u p = Some m \<and>
    connect_string 8 m = Some (str_bytes (str_or_empty a)) \<and>
    connect_string 16 m = Some (str_bytes (str_or_empty u)) \<and>
    connect_string 24 m = Some (str_bytes (str_or_empty p))"
proof -
  obtain m0 m1 m where m: "mbim_populate_connect_data a u p = Some m"
    and at: "string_at m0 8 0 (str_bytes (str_or_empty a))" "string_at m1 16 (user_offset a) (str_bytes (str_or_empty u))"
      "string_at m 24 (passwd_offset a u) (str_bytes (str_or_empty p))"
    and k1: "\<And>k. k < 16 \<or> 24 \<le> k \<Longrightarrow> k < 60 + user_offset a \<or> 60 + user_offset a + wide_size u \<le> k \<Longrightarrow> rd8 m1 k = rd8 m0 k"
    and k2: "\<And>k. k < 24 \<or> 32 \<le> k \<Longrightarrow> k < 60 + passwd_offset a u \<or> 60 + passwd_offset a u + wide_size p \<le> k \<Longrightarrow> rd8 m k = rd8 m1 k"
    by (rule populate_effect [of a u p]) blast
  have off: "wide_size a \<le> user_offset a"
    "str_or_empty u = [] \<Longrightarrow> passwd_offset a u = user_offset a"
    "str_or_empty u \<noteq> [] \<Longrightarrow> str_or_empty a = [] \<Longrightarrow> user_offset a + wide_size u \<le> passwd_offset a u"
    using align_ge [of "wide_size a"] align_ge [of "wide_size u"]
    by (auto simp: user_offset_def passwd_offset_def wide_zero)
  have "string_at m1 8 0 (str_bytes (str_or_empty a))"
    by (rule string_at_other [OF at(1)]) (use off(1) in \<open>auto intro!: k1 simp: wide_zero\<close>)
  then have "string_at m 8 0 (str_bytes (str_or_empty a))"
    by (rule string_at_other) (use off assms(1) in \<open>auto intro!: k2 simp: wide_zero\<close>)
  moreover have "string_at m 16 (user_offset a) (str_bytes (str_or_empty u))"
    by (rule string_at_other [OF at(2)]) (use off assms(1) in \<open>auto intro!: k2 simp: wide_zero\<close>)
  moreover have "user_offset a < 2 ^ 31 + 3" "passwd_offset a u < 2 ^ 31 + 6"
    using assms(2) by (auto simp: user_offset_def passwd_offset_def align_32_def)
  ultimately show ?thesis
    using m at(3) assms(2) by (auto intro!: string_at_read simp: wide_zero)
qed

theorem connect_strings_read_back_witness:
  "\<exists>m. mbim_populate_connect_data (Some ''net'') None (Some ''pw'') = Some m \<and>
     connect_string 8 m = Some [110, 101, 116] \<and> connect_string 24 m = Some [112, 119]"
  using connect_strings_read_back [of "Some ''net''" None "Some ''pw''"]
  by (auto simp: str_or_empty_def wide_size_def str_bytes_def ord_of_def)



end
