(* ===== verification/Mbim_Link.thy ===== *)
theory Mbim_Link
  imports Mbim_Msg
begin

text \<open>
  The exchange of MBIM commands (\<^verbatim>\<open>quectel_cm_5G/src/mbim-cm.c\<close>): \<open>mbim_send_command\<close>, the thread that
  reads the device, \<open>mbim_recv_command\<close> and the check of the answer. The state \<open>mbim\<close> holds the static
  variables of the file, what the environment will do (a list of turns, one per command sent), and what
  a local variable holds that is not initialised (\<open>mbim_stack\<close>).
  \<open>None\<close> is an access outside a message or the receive buffer. The socket for QMI over MBIM, over
  which nothing is sent in the default configuration, is left out of the thread.
\<close>

section \<open>State\<close>

text \<open>What the thread meets: bytes that a \<open>read\<close> of the device can get (with a proxy, bytes that have
  arrived on its socket), a read that fails, one second without anything, a hang-up or a failed
  \<open>poll\<close>, or a word from the main thread.\<close>

datatype mbim_event = Mb_Read bytes | Mb_Read_Fails | Mb_Idle | Mb_Hup | Mb_Quit | Mb_Stop

text \<open>A turn: what is read before the command is sent, the result of \<open>write\<close>, and what is read until
  the sending thread goes on, woken up or after the time limit.\<close>

record mbim_turn =
  mb_before :: "mbim_event list"
  mb_write :: int
  mb_after :: "mbim_event list"

record mbim =
  mbim_fd_open :: bool
  mbim_reader :: bool
  mbim_wait_quit :: bool
  mbim_by_proxy :: bool
  mbim_socket :: bytes
  mbim_recv_buf :: bytes
  TransactionId :: u32
  mbim_apn :: "string option"
  mbim_user :: "string option"
  mbim_passwd :: "string option"
  mbim_iptype :: int
  mbim_auth :: int
  mbim_sessionID :: int
  mbim_ms_version :: byte
  qmi_over_mbim_support :: bool
  mbim_pRequest :: "bytes option"
  mbim_pResponse :: "bytes option"
  mbim_signalled :: bool
  ReadyState :: u32
  RegisterState :: u32
  PacketServiceState :: u32
  ActivationState :: u32
  oldReadyState :: u32
  oldRegisterState :: u32
  oldPacketServiceState :: u32
  oldActivationState :: u32
  mbim_turns :: "mbim_turn list"
  mbim_sent :: "bytes list"
  mbim_to_main :: "main_event list"
  mbim_stack :: bytes

definition mbim_zero :: mbim where
  "mbim_zero = \<lparr>mbim_fd_open = False, mbim_reader = False, mbim_wait_quit = False, mbim_by_proxy = False,
     mbim_socket = [], mbim_recv_buf = replicate 4096 0, TransactionId = 1, mbim_apn = None, mbim_user = None,
     mbim_passwd = None, mbim_iptype = MBIMContextIPTypeDefault, mbim_auth = MBIMAuthProtocolNone, mbim_sessionID = 0,
     mbim_ms_version = 1, qmi_over_mbim_support = False, mbim_pRequest = None, mbim_pResponse = None,
     mbim_signalled = False, ReadyState = MBIMSubscriberReadyStateNotInitialized,
     RegisterState = MBIMRegisterStateUnknown, PacketServiceState = MBIMPacketServiceStateUnknown,
     ActivationState = MBIMActivationStateUnknown, oldReadyState = MBIMSubscriberReadyStateNotInitialized,
     oldRegisterState = MBIMRegisterStateUnknown, oldPacketServiceState = MBIMPacketServiceStateUnknown,
     oldActivationState = MBIMActivationStateUnknown, mbim_turns = [], mbim_sent = [], mbim_to_main = [], mbim_stack = []\<rparr>"

definition mbim_event_to_main :: "main_event \<Rightarrow> mbim \<Rightarrow> mbim" where
  "mbim_event_to_main e w = w\<lparr>mbim_to_main := mbim_to_main w @ [e]\<rparr>"

section \<open>Receiving\<close>

text \<open>The event an indication causes: a state that differs from the one last asked for.\<close>

definition changed :: "u32 \<Rightarrow> main_event \<Rightarrow> u32 \<Rightarrow> main_event option" where
  "changed old e new = (if old \<noteq> new then Some e else None)"

definition status_event :: "mbim \<Rightarrow> bytes \<Rightarrow> main_event option option" where
  "status_event w m = do {
     u \<leftarrow> DeviceServiceId m; basic \<leftarrow> str2uuid UUID_BASIC_CONNECT; cid \<leftarrow> CID m;
     (if u \<noteq> basic then Some None
      else if cid = MBIM_CID_SUBSCRIBER_READY_STATUS
      then do { st \<leftarrow> ind_info m 0;
        Some (changed (oldReadyState w) RIL_UNSOL_RESPONSE_VOICE_NETWORK_STATE_CHANGED st) }
      else if cid = MBIM_CID_REGISTER_STATE
      then do { st \<leftarrow> ind_info m 4;
        Some (changed (oldRegisterState w) RIL_UNSOL_RESPONSE_VOICE_NETWORK_STATE_CHANGED st) }
      else if cid = MBIM_CID_PACKET_SERVICE
      then do { st \<leftarrow> ind_info m 4;
        Some (changed (oldPacketServiceState w) RIL_UNSOL_RESPONSE_VOICE_NETWORK_STATE_CHANGED st) }
      else if cid = MBIM_CID_CONNECT
      then do { s \<leftarrow> ind_info m 0; st \<leftarrow> ind_info m 4;
        Some (if s = of_int (mbim_sessionID w) then changed (oldActivationState w) RIL_UNSOL_DATA_CALL_LIST_CHANGED st
              else None) }
      else Some None) }"

text \<open>The message is in the receive buffer, behind which the copy must not read.\<close>

definition mbim_recv_command :: "bytes option \<Rightarrow> mbim \<Rightarrow> mbim option" where
  "mbim_recv_command pResponse w = (case pResponse of
     None \<Rightarrow> Some (w\<lparr>mbim_signalled := True\<rparr>)
   | Some m \<Rightarrow> do {
       tid \<leftarrow> msg_tid m;
       hit \<leftarrow> (case mbim_pRequest w of None \<Rightarrow> Some False | Some req \<Rightarrow> do { t \<leftarrow> msg_tid req; Some (t = tid) });
       (if hit
        then do { l \<leftarrow> MessageLength m; r \<leftarrow> rdn m 0 (unat l);
          Some (w\<lparr>mbim_pResponse := Some r, mbim_signalled := True\<rparr>) }
        else do { ty \<leftarrow> MessageType m;
          (if ty = MBIM_INDICATE_STATUS_MSG
           then do { e \<leftarrow> status_event w m; Some (case e of None \<Rightarrow> w | Some e \<Rightarrow> mbim_event_to_main e w) }
           else Some w) }) })"

section \<open>The thread that reads the device\<close>

text \<open>From a proxy the header is read and then the rest of the message, from what has arrived. A
  stated length below that of the header makes the size of the second read wrap around, so that it
  takes whatever there is. A failed or incomplete read leaves old bytes in the buffer.\<close>

definition into_buf :: "nat \<Rightarrow> bytes \<Rightarrow> mbim \<Rightarrow> mbim option" where
  "into_buf i bs w = do { b \<leftarrow> wrn (mbim_recv_buf w) i bs; Some (w\<lparr>mbim_recv_buf := b\<rparr>) }"

definition mbim_proxy_read :: "mbim \<Rightarrow> (bool \<times> mbim) option" where
  "mbim_proxy_read w = (let h = take 12 (mbim_socket w) in do {
     w \<leftarrow> into_buf 0 h (w\<lparr>mbim_socket := drop 12 (mbim_socket w)\<rparr>);
     l \<leftarrow> MessageLength (mbim_recv_buf w);
     (if length h = 12 \<and> unat l \<le> 4096
      then (let n = (if unat l < 12 then length (mbim_socket w) else unat l - 12) in do {
        w \<leftarrow> into_buf 12 (take n (mbim_socket w)) (w\<lparr>mbim_socket := drop n (mbim_socket w)\<rparr>);
        Some (True, w) })
      else Some (h \<noteq> [], w)) })"

definition mbim_read_device :: "bytes \<Rightarrow> mbim \<Rightarrow> (bool \<times> mbim) option" where
  "mbim_read_device bs w =
     (if mbim_by_proxy w then mbim_proxy_read (w\<lparr>mbim_socket := mbim_socket w @ bs\<rparr>)
      else do { w \<leftarrow> into_buf 0 (take 4096 bs) w; Some (bs \<noteq> [], w) })"

definition mbim_thread_quit :: "mbim \<Rightarrow> mbim" where
  "mbim_thread_quit w = mbim_event_to_main RIL_INDICATE_DEVICE_DISCONNECTED
     (w\<lparr>mbim_fd_open := False, mbim_signalled := True, mbim_reader := False\<rparr>)"

definition mbim_read_thread :: "mbim_event \<Rightarrow> mbim \<Rightarrow> mbim option" where
  "mbim_read_thread e w =
     (if \<not> mbim_reader w then Some w
      else case e of
        Mb_Idle \<Rightarrow> Some (if mbim_wait_quit w then mbim_thread_quit w else w)
      | Mb_Hup \<Rightarrow> Some (mbim_thread_quit w)
      | Mb_Quit \<Rightarrow> Some (mbim_thread_quit w)
      | Mb_Stop \<Rightarrow> Some (w\<lparr>mbim_wait_quit := True\<rparr>)
      | Mb_Read_Fails \<Rightarrow> Some w
      | Mb_Read bs \<Rightarrow> do {
          (got, w) \<leftarrow> mbim_read_device bs w;
          (if got then mbim_recv_command (Some (mbim_recv_buf w)) w else Some w) })"

fun run_reader :: "mbim_event list \<Rightarrow> mbim \<Rightarrow> mbim option" where
  "run_reader [] w = Some w"
| "run_reader (e # es) w = do { w \<leftarrow> mbim_read_thread e w; run_reader es w }"

text \<open>The start of the thread: a multiplexed profile goes through the proxy of the program and uses
  the number of its data channel as the session. \<open>opened\<close>: whether the device or the proxy could be
  opened.\<close>

definition QUECTEL_MBIM_PROXY :: string where "QUECTEL_MBIM_PROXY = ''quectel-mbim-proxy''"
definition LIBMBIM_PROXY :: string where "LIBMBIM_PROXY = ''mbim-proxy''"

definition mbim_start_reader :: "bool \<Rightarrow> profile \<Rightarrow> mbim \<Rightarrow> profile \<times> mbim" where
  "mbim_start_reader opened p w =
     (let mux = (qmap_mode p > 1 \<and> qmapnet_adapter p \<noteq> []);
          p = (if mux \<and> proxy p = [] then p\<lparr>proxy := QUECTEL_MBIM_PROXY\<rparr> else p);
          w = w\<lparr>mbim_reader := True, mbim_sessionID := (if mux then pdp p else mbim_sessionID w),
                mbim_by_proxy := (proxy p \<noteq> []), mbim_fd_open := opened, mbim_wait_quit := False\<rparr>
      in (p, if opened then mbim_event_to_main RIL_INDICATE_DEVICE_CONNECTED w else mbim_thread_quit w))"

section \<open>Sending\<close>

definition EINVAL :: int where "EINVAL = 22"

text \<open>Where no turn is left, the device cannot be written.\<close>

definition mbim_next_turn :: "mbim \<Rightarrow> mbim_turn \<times> mbim" where
  "mbim_next_turn w = (case mbim_turns w of
     [] \<Rightarrow> (\<lparr>mb_before = [], mb_write = -1, mb_after = []\<rparr>, w)
   | t # ts \<Rightarrow> (t, w\<lparr>mbim_turns := ts\<rparr>))"

definition number_again :: "bytes \<Rightarrow> mbim \<Rightarrow> (bytes \<times> mbim) option" where
  "number_again req w = do {
     tid \<leftarrow> msg_tid req;
     Some (if tid = 0x1000000 then (take 8 req @ le32 1 @ drop 12 req, w\<lparr>TransactionId := 2\<rparr>) else (req, w)) }"

text \<open>During the wait the thread takes the mutex, message by message; the wait has ended well if it
  has signalled.\<close>

definition mbim_wait :: "mbim_event list \<Rightarrow> mbim \<Rightarrow> (int \<times> bytes option \<times> mbim) option" where
  "mbim_wait es w = do {
     w \<leftarrow> run_reader es w;
     Some (if mbim_signalled w then 0 else ETIMEDOUT, if mbim_signalled w then mbim_pResponse w else None,
       w\<lparr>mbim_pRequest := None, mbim_pResponse := None\<rparr>) }"

definition mbim_send_command :: "bytes \<Rightarrow> mbim \<Rightarrow> (int \<times> bytes option \<times> mbim) option" where
  "mbim_send_command pRequest w = (case mbim_next_turn w of (t, w) \<Rightarrow> do {
     w \<leftarrow> run_reader (mb_before t) w;
     (if \<not> mbim_fd_open w then Some (- ENODEV, None, w)
      else if \<not> mbim_reader w then Some (- EINVAL, None, w)
      else do {
        (req, w) \<leftarrow> number_again pRequest w;
        l \<leftarrow> MessageLength req;
        bs \<leftarrow> rdn req 0 (unat l);
        let ret = mb_write t;
        (if ret > 0 \<and> ret = int (unat l)
         then mbim_wait (mb_after t)
           (w\<lparr>mbim_sent := mbim_sent w @ [bs], mbim_pRequest := Some req, mbim_pResponse := None, mbim_signalled := False\<rparr>)
         else Some (ret, None, w\<lparr>mbim_pRequest := None, mbim_pResponse := None\<rparr>)) }) })"

section \<open>A command and its answer\<close>

definition mbim_status_code :: "bytes \<Rightarrow> int option" where
  "mbim_status_code m = do {
     ty \<leftarrow> MessageType m;
     (if ty = MBIM_OPEN_DONE \<or> ty = MBIM_CLOSE_DONE \<or> ty = MBIM_FUNCTION_ERROR_MSG
      then do { s \<leftarrow> rd32 m 12; Some (c_int (uint s)) }
      else if ty = MBIM_COMMAND_DONE then do { s \<leftarrow> done_status m; Some (c_int (uint s)) }
      else Some 0) }"

text \<open>The number to return, or the answer: the macro \<open>mbim_check_err\<close>.\<close>

type_synonym mbim_answer = "(int \<times> mbim) + (bytes \<times> mbim)"

definition mbim_check_err :: "int \<times> bytes option \<times> mbim \<Rightarrow> mbim_answer option" where
  "mbim_check_err x = (case x of (err, rsp, w) \<Rightarrow> do {
     status \<leftarrow> (case rsp of None \<Rightarrow> Some 0 | Some m \<Rightarrow> mbim_status_code m);
     Some (if err \<noteq> 0 then Inl (err, w) else if status \<noteq> 0 then Inl (status, w)
           else case rsp of None \<Rightarrow> Inl (8888, w) | Some m \<Rightarrow> Inr (m, w)) })"

text \<open>A command is composed with the next transaction number.\<close>

definition mbim_exchange :: "(u32 \<Rightarrow> bytes option) \<Rightarrow> mbim \<Rightarrow> mbim_answer option" where
  "mbim_exchange cmd w = do {
     req \<leftarrow> cmd (TransactionId w);
     x \<leftarrow> mbim_send_command req (w\<lparr>TransactionId := TransactionId w + 1\<rparr>);
     mbim_check_err x }"

section \<open>What an exchange gives\<close>

lemma basic_connect_uuid:
  "str2uuid UUID_BASIC_CONNECT = Some [0xa2, 0x89, 0xcc, 0x33, 0xbc, 0xbb, 0x8b, 0x4f, 0xb6, 0xb0, 0x13, 0x3e, 0xc2, 0xaa, 0xe6, 0xdf]"
  by code_simp

lemma unat_u32_of_nat: "n < 2 ^ 31 \<Longrightarrow> unat (of_nat (48 + n) :: u32) = 48 + n"
  by (simp only: unat_of_nat) (simp add: take_bit_nat_eq_self)

lemma uint_u32_of_nat: "n < 2 ^ 31 \<Longrightarrow> uint (of_nat (48 + n) :: u32) = 48 + int n"
  using unat_u32_of_nat [of n] by (simp add: uint_nat del: of_nat_add)

lemma rd32_second: "rd32 (le32 a @ xs) (4 + i) = rd32 xs i"
  using rd32_append [of "le32 a" xs i] by simp

lemma header_fields:
  "MessageType (mbim_header ty n tid @ r) = Some ty" "MessageLength (mbim_header ty n tid @ r) = Some (of_nat n)"
  "msg_tid (mbim_header ty n tid @ r) = Some tid"
  using rd32_le32 [of ty] rd32_second [of ty "le32 (of_nat n) @ le32 tid @ r" 0] rd32_second [of ty "le32 (of_nat n) @ le32 tid @ r" 4]
    rd32_second [of "of_nat n" "le32 tid @ r" 0] rd32_le32 [of "of_nat n" "le32 tid @ r"] rd32_le32 [of tid r]
  by (simp_all add: MessageType_def MessageLength_def msg_tid_def mbim_header_def)

lemma header_length [simp]: "length (mbim_header ty n tid) = 12"
  by (simp add: mbim_header_def)

lemma uuid_length: "str2uuid s = Some u \<Longrightarrow> length u = 16"
  using scan_length [of uuid_format "map c_tolower s" u] by (auto simp: str2uuid_def format_counts split: if_splits)

lemma compose_fields:
  assumes "compose_command service cid ty st b tid = Some req"
  obtains r where "req = mbim_header MBIM_COMMAND_MSG (48 + length b) tid @ r" "length r = 36 + length b"
  using assms by (auto simp: compose_command_def bind_eq_Some_conv dest: uuid_length)

text \<open>While a command waits, what is kept as its answer was read from a message with its number.\<close>

definition answers :: "bytes \<Rightarrow> bytes \<Rightarrow> bool" where
  "answers req r \<longleftrightarrow> (\<exists>buf l. msg_tid buf = msg_tid req \<and> MessageLength buf = Some l \<and> rdn buf 0 (unat l) = Some r)"

definition mbim_waits :: "bytes \<Rightarrow> mbim \<Rightarrow> bool" where
  "mbim_waits req w \<longleftrightarrow> mbim_pRequest w = Some req \<and> (\<forall>r. mbim_pResponse w = Some r \<longrightarrow> answers req r)"

definition mbim_vars :: "mbim \<Rightarrow> u32 \<times> bytes list \<times> mbim_turn list" where
  "mbim_vars w = (TransactionId w, mbim_sent w, mbim_turns w)"

lemma recv_waits:
  assumes "mbim_recv_command (Some m) w = Some w'" "mbim_waits req w"
  shows "mbim_waits req w'"
proof (cases "msg_tid m = msg_tid req")
  case True
  then obtain l r where r: "MessageLength m = Some l" "rdn m 0 (unat l) = Some r"
      "w' = w\<lparr>mbim_pResponse := Some r, mbim_signalled := True\<rparr>" "mbim_pRequest w = Some req"
    using assms by (auto simp: mbim_recv_command_def mbim_waits_def bind_eq_Some_conv)
  then have "answers req r" using True unfolding answers_def by blast
  with r show ?thesis by (simp add: mbim_waits_def)
next
  case False
  then show ?thesis using assms
    by (auto simp: mbim_recv_command_def mbim_waits_def bind_eq_Some_conv mbim_event_to_main_def split: if_splits option.splits)
qed

lemma recv_keeps: "mbim_recv_command x w = Some w' \<Longrightarrow> mbim_vars w' = mbim_vars w"
  by (auto simp: mbim_recv_command_def mbim_vars_def bind_eq_Some_conv mbim_event_to_main_def split: if_splits option.splits)

lemma into_keeps:
  "into_buf i bs w = Some w' \<Longrightarrow> mbim_vars w' = mbim_vars w \<and> mbim_pRequest w' = mbim_pRequest w \<and>
     mbim_pResponse w' = mbim_pResponse w"
  by (auto simp: into_buf_def mbim_vars_def bind_eq_Some_conv)

lemma proxy_keeps:
  assumes "mbim_proxy_read w = Some (got, w')"
  shows "mbim_vars w' = mbim_vars w \<and> mbim_pRequest w' = mbim_pRequest w \<and> mbim_pResponse w' = mbim_pResponse w"
proof -
  let ?h = "take 12 (mbim_socket w)" and ?v = "w\<lparr>mbim_socket := drop 12 (mbim_socket w)\<rparr>"
  obtain w1 where w1: "into_buf 0 ?h ?v = Some w1"
    using assms by (cases "into_buf 0 ?h ?v") (simp_all add: mbim_proxy_read_def Let_def)
  obtain l where l: "MessageLength (mbim_recv_buf w1) = Some l"
    using assms w1 by (cases "MessageLength (mbim_recv_buf w1)") (simp_all add: mbim_proxy_read_def Let_def)
  have v: "mbim_vars ?v = mbim_vars w" "mbim_pRequest ?v = mbim_pRequest w" "mbim_pResponse ?v = mbim_pResponse w"
    by (simp_all add: mbim_vars_def)
  show ?thesis
  proof (cases "length ?h = 12 \<and> unat l \<le> 4096")
    case True
    define n where "n = (if unat l < 12 then length (mbim_socket w1) else unat l - 12)"
    let ?u = "w1\<lparr>mbim_socket := drop n (mbim_socket w1)\<rparr>"
    have "into_buf 12 (take n (mbim_socket w1)) ?u = Some w'"
      using assms w1 l True
      by (cases "into_buf 12 (take n (mbim_socket w1)) ?u") (simp_all add: mbim_proxy_read_def Let_def n_def)
    then show ?thesis using into_keeps [OF w1] into_keeps [of 12 "take n (mbim_socket w1)" ?u w'] v
      by (simp add: mbim_vars_def)
  next
    case False
    then show ?thesis using assms w1 l into_keeps [OF w1] v by (simp add: mbim_proxy_read_def Let_def split: if_splits)
  qed
qed

lemma read_keeps:
  "mbim_read_device bs w = Some (got, w') \<Longrightarrow> mbim_vars w' = mbim_vars w \<and> mbim_pRequest w' = mbim_pRequest w \<and>
     mbim_pResponse w' = mbim_pResponse w"
  using proxy_keeps [of "w\<lparr>mbim_socket := mbim_socket w @ bs\<rparr>" got w'] into_keeps [of 0 "take 4096 bs" w w']
  by (auto simp: mbim_read_device_def mbim_vars_def bind_eq_Some_conv split: if_splits)

lemma thread_waits:
  assumes "mbim_read_thread e w = Some w'"
  shows "mbim_vars w' = mbim_vars w" "mbim_waits req w \<Longrightarrow> mbim_waits req w'"
proof -
  have "mbim_vars w' = mbim_vars w \<and> (mbim_waits req w \<longrightarrow> mbim_waits req w')"
  proof (cases "\<exists>bs. e = Mb_Read bs \<and> mbim_reader w")
    case True
    then obtain bs got w1 where e: "e = Mb_Read bs" "mbim_read_device bs w = Some (got, w1)"
      "(if got then mbim_recv_command (Some (mbim_recv_buf w1)) w1 else Some w1) = Some w'"
      using assms by (auto simp: mbim_read_thread_def elim!: bind_pairE)
    have k: "mbim_vars w1 = mbim_vars w" "mbim_waits req w1 = mbim_waits req w"
      using read_keeps [OF e(2)] by (simp_all add: mbim_waits_def)
    show ?thesis
      using e(3) k recv_keeps [of "Some (mbim_recv_buf w1)" w1 w'] recv_waits [of "mbim_recv_buf w1" w1 w' req]
      by (cases got) auto
  next
    case False
    then show ?thesis using assms
      by (auto simp: mbim_read_thread_def mbim_thread_quit_def mbim_event_to_main_def mbim_vars_def mbim_waits_def
          split: mbim_event.splits if_splits)
  qed
  then show "mbim_vars w' = mbim_vars w" "mbim_waits req w \<Longrightarrow> mbim_waits req w'" by simp_all
qed

lemma reader_waits:
  assumes "run_reader es w = Some w'"
  shows "mbim_vars w' = mbim_vars w" "mbim_waits req w \<Longrightarrow> mbim_waits req w'"
proof -
  have "mbim_vars w' = mbim_vars w \<and> (mbim_waits req w \<longrightarrow> mbim_waits req w')"
    using assms
  proof (induction es arbitrary: w)
    case (Cons e es)
    then obtain w1 where w1: "mbim_read_thread e w = Some w1" "run_reader es w1 = Some w'"
      by (auto simp: bind_eq_Some_conv)
    show ?case using thread_waits [OF w1(1)] Cons.IH [OF w1(2)] by simp
  qed simp
  then show "mbim_vars w' = mbim_vars w" "mbim_waits req w \<Longrightarrow> mbim_waits req w'" by simp_all
qed

lemma next_turn_keeps: "mbim_next_turn w = (t, w') \<Longrightarrow> TransactionId w' = TransactionId w \<and> mbim_sent w' = mbim_sent w"
  by (auto simp: mbim_next_turn_def split: list.splits)

text \<open>A command that was answered, step by step.\<close>

lemma exchange_steps:
  assumes "mbim_exchange cmd w = Some (Inr (m, w'))"
  obtains req0 and t :: mbim_turn and w1 req w2 l bs w3 where "cmd (TransactionId w) = Some req0"
    "TransactionId w1 = TransactionId w + 1" "mbim_sent w1 = mbim_sent w"
    "number_again req0 w1 = Some (req, w2)" "MessageLength req = Some l" "rdn req 0 (unat l) = Some bs"
    "mb_write t = int (unat l)"
    "run_reader (mb_after t)
      (w2\<lparr>mbim_sent := mbim_sent w2 @ [bs], mbim_pRequest := Some req, mbim_pResponse := None, mbim_signalled := False\<rparr>) = Some w3"
    "mbim_pResponse w3 = Some m" "w' = w3\<lparr>mbim_pRequest := None, mbim_pResponse := None\<rparr>" "mbim_status_code m = Some 0"
proof -
  let ?w = "w\<lparr>TransactionId := TransactionId w + 1\<rparr>"
  obtain req0 x where x: "cmd (TransactionId w) = Some req0" "mbim_send_command req0 ?w = Some x" "mbim_check_err x = Some (Inr (m, w'))"
    using assms by (auto simp: mbim_exchange_def bind_eq_Some_conv)
  have x0: "x = (0, Some m, w')" "mbim_status_code m = Some 0"
    using x(3) by (auto simp: mbim_check_err_def bind_eq_Some_conv split: prod.splits option.splits if_splits)
  obtain t w0 where t: "mbim_next_turn ?w = (t, w0)" by (cases "mbim_next_turn ?w")
  obtain w1 where w1: "run_reader (mb_before t) w0 = Some w1"
    using x(2) by (auto simp: mbim_send_command_def t bind_eq_Some_conv)
  have k: "TransactionId w1 = TransactionId w + 1" "mbim_sent w1 = mbim_sent w"
    using reader_waits(1) [OF w1] next_turn_keeps [OF t] by (simp_all add: mbim_vars_def)
  have on: "mbim_fd_open w1" "mbim_reader w1"
    using x(2) x0(1) by (auto simp: mbim_send_command_def t w1 split: if_splits)
  obtain req w2 where r: "number_again req0 w1 = Some (req, w2)"
    using x(2) by (auto simp: mbim_send_command_def t w1 on elim!: bind_pairE)
  obtain l bs where l: "MessageLength req = Some l" "rdn req 0 (unat l) = Some bs"
    using x(2) by (auto simp: mbim_send_command_def t w1 on r bind_eq_Some_conv)
  have g: "mb_write t = int (unat l) \<and> mb_write t > 0"
    using x(2) x0(1) by (auto simp: mbim_send_command_def t w1 on r l Let_def split: if_splits)
  with x(2) x0(1) have "mbim_wait (mb_after t)
      (w2\<lparr>mbim_sent := mbim_sent w2 @ [bs], mbim_pRequest := Some req, mbim_pResponse := None, mbim_signalled := False\<rparr>) = Some (0, Some m, w')"
    by (auto simp: mbim_send_command_def t w1 on r l Let_def)
  then obtain w3 where "run_reader (mb_after t)
      (w2\<lparr>mbim_sent := mbim_sent w2 @ [bs], mbim_pRequest := Some req, mbim_pResponse := None, mbim_signalled := False\<rparr>) = Some w3"
    "mbim_pResponse w3 = Some m" "w' = w3\<lparr>mbim_pRequest := None, mbim_pResponse := None\<rparr>"
    by (auto simp: mbim_wait_def bind_eq_Some_conv split: if_splits)
  moreover have "mb_write t = int (unat l)" using g by simp
  ultimately show thesis using that [OF x(1) k r l, of t w3] x0(2) by blast
qed

lemma renumber: "take 8 (mbim_header ty n i @ r) @ le32 j @ drop 12 (mbim_header ty n i @ r) = mbim_header ty n j @ r"
  by (simp add: mbim_header_def)

lemma number_again_command:
  assumes "number_again (mbim_header ty n tid @ r) w = Some (req, w')" "TransactionId w = tid + 1"
  shows "req = mbim_header ty n (if tid = 0x1000000 then 1 else tid) @ r"
    "TransactionId w' = (if tid = 0x1000000 then 1 else tid) + 1" "mbim_sent w' = mbim_sent w"
proof -
  have "req = mbim_header ty n (if tid = 0x1000000 then 1 else tid) @ r \<and>
    TransactionId w' = (if tid = 0x1000000 then 1 else tid) + 1 \<and> mbim_sent w' = mbim_sent w"
  proof (cases "tid = 0x1000000")
    case True
    then show ?thesis using assms(1) unfolding number_again_def header_fields renumber by auto
  next
    case False
    then show ?thesis using assms unfolding number_again_def header_fields by auto
  qed
  then show "req = mbim_header ty n (if tid = 0x1000000 then 1 else tid) @ r"
    "TransactionId w' = (if tid = 0x1000000 then 1 else tid) + 1" "mbim_sent w' = mbim_sent w" by simp_all
qed


text \<open>Property C6: an answer is for the command that was sent. If a command comes back with an answer,
  then exactly one message was written, whose transaction number fits in the 24 bits a proxy leaves to
  its clients; the answer carries that number and no error; and the next command will have another
  number, so a late answer is not taken for its.\<close>

theorem mbim_answer_is_for_the_command:
  assumes "mbim_exchange (compose_command service cid ty st b) w = Some (Inr (m, w'))"
    and "length b < 2 ^ 31" "1 \<le> unat (TransactionId w)" "unat (TransactionId w) \<le> 2 ^ 24"
  shows "\<exists>req tid. mbim_sent w' = mbim_sent w @ [req] \<and> msg_tid req = Some tid \<and> 1 \<le> unat tid \<and> unat tid < 2 ^ 24 \<and>
    (12 \<le> length m \<longrightarrow> msg_tid m = Some tid) \<and> mbim_status_code m = Some 0 \<and>
    TransactionId w' \<noteq> tid \<and> 1 \<le> unat (TransactionId w') \<and> unat (TransactionId w') \<le> 2 ^ 24"
proof -
  let ?tid = "TransactionId w"
  obtain req0 and t :: mbim_turn and w1 req w2 l bs w3 where e: "compose_command service cid ty st b ?tid = Some req0"
    "TransactionId w1 = ?tid + 1" "mbim_sent w1 = mbim_sent w" "number_again req0 w1 = Some (req, w2)"
    "MessageLength req = Some l" "rdn req 0 (unat l) = Some bs" "mb_write t = int (unat l)"
    "run_reader (mb_after t)
      (w2\<lparr>mbim_sent := mbim_sent w2 @ [bs], mbim_pRequest := Some req, mbim_pResponse := None, mbim_signalled := False\<rparr>) = Some w3"
    "mbim_pResponse w3 = Some m" "w' = w3\<lparr>mbim_pRequest := None, mbim_pResponse := None\<rparr>" "mbim_status_code m = Some 0"
    by (rule exchange_steps [OF assms(1)])
  obtain r where q0: "req0 = mbim_header MBIM_COMMAND_MSG (48 + length b) ?tid @ r" "length r = 36 + length b"
    by (rule compose_fields [OF e(1)])
  define tid where "tid = (if ?tid = 0x1000000 then 1 else ?tid)"
  have q: "req = mbim_header MBIM_COMMAND_MSG (48 + length b) tid @ r" "TransactionId w2 = tid + 1" "mbim_sent w2 = mbim_sent w"
    using number_again_command [OF e(4) [unfolded q0(1)] e(2)] e(3) unfolding tid_def by simp_all
  note h = header_fields [of MBIM_COMMAND_MSG "48 + length b" tid r, folded q(1)]
  have "l = of_nat (48 + length b)" using e(5) h(2) by (simp only: option.inject)
  then have "unat l = 48 + length b" using assms(2) by (simp only: unat_u32_of_nat)
  then have bs: "bs = req" using e(6) q(1) q0(2) by (simp add: rdn_def split: if_splits)
  have k: "mbim_vars w3 = (tid + 1, mbim_sent w @ [req], mbim_turns w2)"
    using reader_waits(1) [OF e(8)] q(2,3) bs by (simp add: mbim_vars_def)
  have "mbim_waits req w3" by (rule reader_waits(2) [OF e(8)]) (simp add: mbim_waits_def)
  then obtain buf n where buf: "msg_tid buf = Some tid" "rdn buf 0 n = Some m"
    using e(9) h(3) by (auto simp: mbim_waits_def answers_def)
  have "msg_tid m = Some tid" if "12 \<le> length m"
  proof -
    have "buf = m @ drop n buf" using buf(2) by (auto simp: rdn_def split: if_splits)
    then have "rd8 m k = rd8 buf k" if "k < 12" for k
      using that \<open>12 \<le> length m\<close> rd8_append1 [of k m "drop n buf"] by simp
    then have "msg_tid m = msg_tid buf" by (simp add: msg_tid_def rd32_def)
    then show ?thesis using buf(1) by simp
  qed
  moreover have t: "1 \<le> unat tid" "unat tid < 2 ^ 24"
  proof -
    have "?tid = 0x1000000 \<or> unat ?tid \<noteq> 2 ^ 24" by (auto simp: word_unat_eq_iff)
    then show "1 \<le> unat tid" "unat tid < 2 ^ 24" using assms(3,4) by (auto simp: tid_def)
  qed
  moreover have "unat (tid + 1) = unat tid + 1"
    using t(2) by (simp add: unat_word_ariths)
  moreover have "tid + 1 \<noteq> tid" by simp
  ultimately show ?thesis
    using k e(10,11) h(3) by (intro exI [of _ req] exI [of _ tid]) (simp add: mbim_vars_def)
qed


section \<open>A modem that answers\<close>

text \<open>The answer a modem gives to a command, and the turn in which it gives it to the next one.\<close>

definition mbim_done :: "u32 \<Rightarrow> u32 \<Rightarrow> u32 \<Rightarrow> bytes \<Rightarrow> bytes" where
  "mbim_done tid cid status info = mbim_header MBIM_COMMAND_DONE (48 + length info) tid @ le32 1 @ le32 0 @
     replicate 16 0 @ le32 cid @ le32 status @ le32 (of_nat (length info)) @ info"

definition answer_turn :: "bytes \<Rightarrow> u32 \<Rightarrow> u32 \<Rightarrow> bytes \<Rightarrow> mbim \<Rightarrow> mbim_turn" where
  "answer_turn b cid status info w = \<lparr>mb_before = [], mb_write = 48 + int (length b),
     mb_after = [Mb_Read (mbim_done (TransactionId w) cid status info)]\<rparr>"

text \<open>The state in which a command can be sent to the device itself.\<close>

definition mbim_ready :: "mbim \<Rightarrow> bool" where
  "mbim_ready w \<longleftrightarrow> mbim_fd_open w \<and> mbim_reader w \<and> \<not> mbim_by_proxy w \<and> length (mbim_recv_buf w) = 4096 \<and>
     TransactionId w \<noteq> 0x1000000"

lemma done_length [simp]: "length (mbim_done tid cid status info) = 48 + length info"
  by (simp add: mbim_done_def)

lemma rd32_skip: "length xs \<le> i \<Longrightarrow> rd32 (xs @ ys) i = rd32 ys (i - length xs)"
  using rd32_append [of xs ys "i - length xs"] by simp

lemma done_fields:
  "MessageType (mbim_done tid cid status info) = Some MBIM_COMMAND_DONE"
  "MessageLength (mbim_done tid cid status info) = Some (of_nat (48 + length info))"
  "msg_tid (mbim_done tid cid status info) = Some tid"
  "done_status (mbim_done tid cid status info) = Some status"
  "info_length (mbim_done tid cid status info) = Some (of_nat (length info))"
  "done_info (mbim_done tid cid status info) i = rd32 info i"
  using header_fields [of MBIM_COMMAND_DONE "48 + length info" tid] rd32_le32
  by (simp_all add: mbim_done_def done_status_def info_length_def done_info_def rd32_skip del: of_nat_add)

lemma rd32_prefix: "i + 4 \<le> length m \<Longrightarrow> rd32 (m @ r) i = rd32 m i"
  by (simp add: rd32_def rd8_append1)

lemma prefix_fields:
  assumes "48 \<le> length m"
  shows "MessageType (m @ r) = MessageType m" "MessageLength (m @ r) = MessageLength m" "msg_tid (m @ r) = msg_tid m"
  using assms by (simp_all add: MessageType_def MessageLength_def msg_tid_def rd32_prefix)

lemma done_status_code: "mbim_status_code (mbim_done tid cid status info) = Some (c_int (uint status))"
  by (simp add: mbim_status_code_def done_fields MBIM_COMMAND_DONE_def MBIM_OPEN_DONE_def MBIM_CLOSE_DONE_def MBIM_FUNCTION_ERROR_MSG_def)

definition after_answer :: "bytes \<Rightarrow> bytes \<Rightarrow> mbim_turn list \<Rightarrow> mbim \<Rightarrow> mbim" where
  "after_answer req m ts w = w\<lparr>TransactionId := TransactionId w + 1, mbim_turns := ts, mbim_sent := mbim_sent w @ [req],
     mbim_recv_buf := m @ drop (length m) (mbim_recv_buf w), mbim_pRequest := None, mbim_pResponse := None,
     mbim_signalled := True\<rparr>"

lemma command_answered:
  assumes "mbim_ready w" "mbim_turns w = answer_turn b cid status info w # ts"
    "compose_command service c ty (Some b) b (TransactionId w) = Some req" "length b < 2 ^ 31" "length info \<le> 4000"
  shows "mbim_exchange (compose_command service c ty (Some b) b) w =
    Some (let m = mbim_done (TransactionId w) cid status info; w' = after_answer req m ts w
          in if c_int (uint status) \<noteq> 0 then Inl (c_int (uint status), w') else Inr (m, w'))"
proof -
  let ?m = "mbim_done (TransactionId w) cid status info"
  obtain r where req: "req = mbim_header MBIM_COMMAND_MSG (48 + length b) (TransactionId w) @ r" "length r = 36 + length b"
    by (rule compose_fields [OF assms(3)])
  note h = header_fields [of MBIM_COMMAND_MSG "48 + length b" "TransactionId w" r, folded req(1)]
  let ?w1 = "w\<lparr>TransactionId := TransactionId w + 1, mbim_turns := ts\<rparr>"
  let ?w2 = "?w1\<lparr>mbim_sent := mbim_sent w @ [req], mbim_pRequest := Some req, mbim_pResponse := None, mbim_signalled := False\<rparr>"
  define buf where "buf = ?m @ drop (length ?m) (mbim_recv_buf w)"
  have n: "number_again req ?w1 = Some (req, ?w1)"
    using assms(1) by (simp add: number_again_def h mbim_ready_def)
  have rq: "rdn req 0 (48 + length b) = Some req"
    using req by (simp add: rdn_def)
  have d: "mbim_read_device ?m ?w2 = Some (True, ?w2\<lparr>mbim_recv_buf := buf\<rparr>)"
    using assms(1,5) length_greater_0_conv [of ?m]
    by (simp add: mbim_read_device_def mbim_ready_def into_buf_def wrn_def buf_def del: length_greater_0_conv length_0_conv)
  have f: "msg_tid buf = Some (TransactionId w)" "MessageLength buf = Some (of_nat (48 + length info))"
    unfolding buf_def by (simp_all only: prefix_fields done_fields done_length le_add1)
  have "rdn buf 0 (unat (of_nat (48 + length info) :: u32)) = Some ?m"
    using assms(5) by (subst unat_u32_of_nat) (simp_all add: rdn_def buf_def)
  then have c: "mbim_recv_command (Some buf) (?w2\<lparr>mbim_recv_buf := buf\<rparr>) =
      Some (?w2\<lparr>mbim_recv_buf := buf, mbim_pResponse := Some ?m, mbim_signalled := True\<rparr>)"
    by (simp add: mbim_recv_command_def f h del: of_nat_add)
  have "run_reader [Mb_Read ?m] ?w2 = Some (?w2\<lparr>mbim_recv_buf := buf, mbim_pResponse := Some ?m, mbim_signalled := True\<rparr>)"
    using assms(1) c by (simp add: mbim_read_thread_def d mbim_ready_def)
  then have wt: "mbim_wait [Mb_Read ?m] ?w2 = Some (0, Some ?m, after_answer req ?m ts w)"
    by (simp add: mbim_wait_def after_answer_def buf_def)
  have "mbim_send_command req (w\<lparr>TransactionId := TransactionId w + 1\<rparr>) = Some (0, Some ?m, after_answer req ?m ts w)"
    using assms(1,2,4) wt unat_u32_of_nat [OF assms(4)] uint_u32_of_nat [OF assms(4)]
    by (simp add: mbim_send_command_def mbim_next_turn_def answer_turn_def mbim_ready_def n h rq Let_def del: of_nat_add)
  then show ?thesis
    by (simp add: mbim_exchange_def assms(3) mbim_check_err_def done_status_code Let_def)
qed


theorem mbim_answer_is_for_the_command_witness:
  "\<exists>m w'. mbim_exchange (compose_basic_connect_command MBIM_CID_CONNECT MBIM_CID_CMD_TYPE_QUERY [0, 0, 0, 0])
      (mbim_zero\<lparr>mbim_fd_open := True, mbim_reader := True,
         mbim_turns := [answer_turn [0, 0, 0, 0] MBIM_CID_CONNECT 0 (replicate 40 0) mbim_zero]\<rparr>) = Some (Inr (m, w')) \<and>
    TransactionId w' \<noteq> 1 \<and> msg_tid m = Some 1"
proof -
  let ?w = "mbim_zero\<lparr>mbim_fd_open := True, mbim_reader := True,
      mbim_turns := [answer_turn [0, 0, 0, 0] MBIM_CID_CONNECT 0 (replicate 40 0) mbim_zero]\<rparr>"
  have r: "mbim_ready ?w" "TransactionId ?w = 1" by (simp_all add: mbim_ready_def mbim_zero_def)
  obtain req where c: "compose_command UUID_BASIC_CONNECT MBIM_CID_CONNECT MBIM_CID_CMD_TYPE_QUERY
      (Some [0, 0, 0, 0]) [0, 0, 0, 0] (TransactionId ?w) = Some req" by (auto simp: compose_command_def basic_connect_uuid)
  have t: "mbim_turns ?w = answer_turn [0, 0, 0, 0] MBIM_CID_CONNECT 0 (replicate 40 0) ?w # []"
    by (simp add: answer_turn_def)
  obtain m w' where x: "mbim_exchange (compose_command UUID_BASIC_CONNECT MBIM_CID_CONNECT MBIM_CID_CMD_TYPE_QUERY
      (Some [0, 0, 0, 0]) [0, 0, 0, 0]) ?w = Some (Inr (m, w'))" "m = mbim_done (TransactionId ?w) MBIM_CID_CONNECT 0 (replicate 40 0)"
      "TransactionId w' = 2"
    using command_answered [OF r(1) t c] by (simp add: Let_def c_int_def after_answer_def r(2))
  have "TransactionId w' \<noteq> 1" "msg_tid m = Some 1"
    using mbim_answer_is_for_the_command [OF x(1)] x(2,3) r(2) by (auto simp: done_fields)
  with x(1) show ?thesis unfolding compose_basic_connect_command_def by blast
qed

text \<open>A command that is cut off by the loss of the device fails. If the device is lost
  after a command was written and before any answer, the command returns 8888, and the main loop is
  told of the loss.\<close>

theorem mbim_cut_off_command_fails:
  assumes "mbim_ready w" "mbim_turns w = \<lparr>mb_before = [], mb_write = 48 + int (length b), mb_after = [Mb_Hup]\<rparr> # ts"
    and "length b < 2 ^ 31"
  shows "\<exists>w'. mbim_exchange (compose_basic_connect_command cid ty b) w = Some (Inl (8888, w')) \<and>
    mbim_to_main w' = mbim_to_main w @ [RIL_INDICATE_DEVICE_DISCONNECTED] \<and> \<not> mbim_fd_open w'"
proof -
  obtain req where c: "compose_command UUID_BASIC_CONNECT cid ty (Some b) b (TransactionId w) = Some req"
    by (auto simp: compose_command_def basic_connect_uuid)
  obtain r where req: "req = mbim_header MBIM_COMMAND_MSG (48 + length b) (TransactionId w) @ r" "length r = 36 + length b"
    by (rule compose_fields [OF c])
  note h = header_fields [of MBIM_COMMAND_MSG "48 + length b" "TransactionId w" r, folded req(1)]
  have rq: "rdn req 0 (48 + length b) = Some req"
    using req by (simp add: rdn_def)
  have n: "number_again req v = Some (req, v)" for v
    using assms(1) by (simp add: number_again_def h mbim_ready_def)
  show ?thesis
    using assms(1,2) unat_u32_of_nat [OF assms(3)] uint_u32_of_nat [OF assms(3)]
    by (simp add: mbim_exchange_def compose_basic_connect_command_def c mbim_send_command_def mbim_next_turn_def mbim_ready_def
        n h rq Let_def mbim_wait_def mbim_read_thread_def mbim_thread_quit_def mbim_event_to_main_def mbim_check_err_def del: of_nat_add)
qed

theorem mbim_cut_off_command_fails_witness:
  "\<exists>w'. mbim_exchange (compose_basic_connect_command MBIM_CID_DEVICE_CAPS MBIM_CID_CMD_TYPE_QUERY [])
      (mbim_zero\<lparr>mbim_fd_open := True, mbim_reader := True,
         mbim_turns := [\<lparr>mb_before = [], mb_write = 48, mb_after = [Mb_Hup]\<rparr>]\<rparr>) = Some (Inl (8888, w')) \<and>
     mbim_to_main w' = [RIL_INDICATE_DEVICE_DISCONNECTED]"
  using mbim_cut_off_command_fails [of "mbim_zero\<lparr>mbim_fd_open := True, mbim_reader := True,
      mbim_turns := [\<lparr>mb_before = [], mb_write = 48, mb_after = [Mb_Hup]\<rparr>]\<rparr>" "[]" "[]"]
  by (simp add: mbim_ready_def mbim_zero_def) blast

end
