(* ===== verification/Mbim_Ops.thy ===== *)
theory Mbim_Ops
  imports Mbim_Link
begin

text \<open>
  The requests over MBIM (\<^verbatim>\<open>quectel_cm_5G/src/mbim-cm.c\<close>): opening and closing, the capabilities, the
  SIM, registration, the call and its addresses, and the tables of requests and of device operations.
\<close>

section \<open>Queries\<close>

text \<open>What a request does with an answer, whose information buffer it looks at if its length is not 0.\<close>

definition mbim_request :: "mbim_answer option \<Rightarrow> (bytes \<Rightarrow> mbim \<Rightarrow> mbim option) \<Rightarrow> (int \<times> mbim) option" where
  "mbim_request x f = do {
     a \<leftarrow> x;
     (case a of Inl (err, w) \<Rightarrow> Some (err, w)
      | Inr (m, w) \<Rightarrow> do { w \<leftarrow> f m w; Some (0, w) }) }"

definition with_info :: "(bytes \<Rightarrow> mbim \<Rightarrow> mbim option) \<Rightarrow> bytes \<Rightarrow> mbim \<Rightarrow> mbim option" where
  "with_info f m w = do { l \<leftarrow> info_length m; (if l \<noteq> 0 then f m w else Some w) }"

definition basic_query :: "u32 \<Rightarrow> bytes \<Rightarrow> mbim \<Rightarrow> mbim_answer option" where
  "basic_query cid b = mbim_exchange (compose_basic_connect_command cid MBIM_CID_CMD_TYPE_QUERY b)"

definition basic_set :: "u32 \<Rightarrow> bytes \<Rightarrow> mbim \<Rightarrow> mbim_answer option" where
  "basic_set cid b = mbim_exchange (compose_basic_connect_command cid MBIM_CID_CMD_TYPE_SET b)"

text \<open>The bytes of a local variable that are never assigned.\<close>

definition stack_bytes :: "mbim \<Rightarrow> nat \<Rightarrow> bytes" where
  "stack_bytes w n = take n (mbim_stack w @ replicate n 0)"

definition mbim_update_state :: "mbim \<Rightarrow> mbim" where
  "mbim_update_state w = w\<lparr>oldReadyState := ReadyState w, oldRegisterState := RegisterState w,
     oldPacketServiceState := PacketServiceState w, oldActivationState := ActivationState w\<rparr>"

text \<open>The status is read once more where \<open>MBIM_OPEN_DONE\<close> and \<open>MBIM_CLOSE_DONE\<close> have it.\<close>

definition return_status :: "mbim_answer option \<Rightarrow> (int \<times> mbim) option" where
  "return_status x = do {
     a \<leftarrow> x;
     (case a of Inl (err, w) \<Rightarrow> Some (err, w)
      | Inr (m, w) \<Rightarrow> do { st \<leftarrow> rd32 m 12; Some (c_int (uint st), w) }) }"

definition mbim_open_device :: "u32 \<Rightarrow> mbim \<Rightarrow> (int \<times> mbim) option" where
  "mbim_open_device MaxControlTransfer w =
     return_status (mbim_exchange (\<lambda>tid. Some (compose_open_command MaxControlTransfer tid)) w)"

definition mbim_close_device :: "mbim \<Rightarrow> (int \<times> mbim) option" where
  "mbim_close_device w = return_status (mbim_exchange (\<lambda>tid. Some (compose_close_command tid)) w)"

definition mbim_query_connect :: "int \<Rightarrow> mbim \<Rightarrow> (int \<times> mbim) option" where
  "mbim_query_connect sessionID w =
     mbim_request (basic_query MBIM_CID_CONNECT (le32 (of_int sessionID) @ stack_bytes w 56) w)
       (with_info (\<lambda>m w. do { st \<leftarrow> done_info m 4; Some (mbim_update_state (w\<lparr>ActivationState := st\<rparr>)) }))"

definition mbim_ms_version_query :: "mbim \<Rightarrow> (int \<times> mbim) option" where
  "mbim_ms_version_query w =
     mbim_request (mbim_exchange (compose_basic_connect_ext_command MBIM_CID_MS_VERSION MBIM_CID_CMD_TYPE_QUERY [0, 1, 0, 2]) w)
       (with_info (\<lambda>m w. do { v \<leftarrow> rd8 m (48 + 3); Some (w\<lparr>mbim_ms_version := v\<rparr>) }))"

text \<open>The services the modem lists: whether the version may be asked for, and QMI over MBIM.\<close>

fun lists_ms_version :: "bytes \<Rightarrow> nat \<Rightarrow> nat \<Rightarrow> bool option" where
  "lists_ms_version m pos 0 = Some False"
| "lists_ms_version m pos (Suc n) = do {
     cid \<leftarrow> rd32 m pos; more \<leftarrow> lists_ms_version m (pos + 4) n;
     Some (cid = MBIM_CID_MS_VERSION \<or> more) }"

fun device_services :: "bytes \<Rightarrow> nat \<Rightarrow> nat \<Rightarrow> bool \<times> mbim \<Rightarrow> (bool \<times> mbim) option" where
  "device_services m i 0 x = Some x"
| "device_services m i (Suc n) (v2, w) = do {
     offset \<leftarrow> done_info m (8 + 8 * i);
     u \<leftarrow> rdn m (48 + unat offset) 16;
     x \<leftarrow> (if c_strcasecmp_eq UUID_BASIC_CONNECT_EXT (uuid2str u)
          then do { count \<leftarrow> rd32 m (48 + unat offset + 24);
            found \<leftarrow> lists_ms_version m (48 + unat offset + 28) (unat count);
            Some (v2 \<or> found, w) }
          else if c_strcasecmp_eq uuid_ext_qmux (uuid2str u) then Some (v2, w\<lparr>qmi_over_mbim_support := True\<rparr>)
          else Some (v2, w));
     device_services m (i + 1) n x }"

definition mbim_device_services_query :: "mbim \<Rightarrow> (int \<times> mbim) option" where
  "mbim_device_services_query w = do {
     a \<leftarrow> basic_query MBIM_CID_DEVICE_SERVICES [] w;
     (case a of Inl (err, w) \<Rightarrow> Some (err, w)
      | Inr (m, w) \<Rightarrow> do {
          l \<leftarrow> info_length m;
          (v2, w) \<leftarrow> (if l \<noteq> 0 then do { n \<leftarrow> done_info m 0; device_services m 0 (unat n) (False, w) }
                     else Some (False, w));
          (_, w) \<leftarrow> (if v2 then mbim_ms_version_query w else Some (0, w));
          Some (0, w) }) }"

text \<open>A string of the information buffer, in a buffer of 32 characters; one that is not there is
  skipped.\<close>

definition caps_string :: "bytes \<Rightarrow> nat \<Rightarrow> bytes option option" where
  "caps_string m field = do {
     off \<leftarrow> done_info m field; sz \<leftarrow> done_info m (field + 4);
     (if off = 0 \<or> sz = 0 then Some None
      else map_option Some (wchar2char m (48 + unat off) (unat sz) 32)) }"

definition c_string :: "bytes \<Rightarrow> string" where
  "c_string bs = takeWhile (\<lambda>c. c \<noteq> CHR 0x00) (map (\<lambda>b. char_of (unat b)) bs)"

definition mbim_device_caps_query :: "profile \<Rightarrow> mbim \<Rightarrow> (int \<times> profile \<times> mbim) option" where
  "mbim_device_caps_query p w = do {
     a \<leftarrow> basic_query MBIM_CID_DEVICE_CAPS [] w;
     (case a of Inl (err, w) \<Rightarrow> Some (err, p, w)
      | Inr (m, w) \<Rightarrow> do {
          l \<leftarrow> info_length m;
          (if l = 0 then Some (0, p, w)
           else do {
             _ \<leftarrow> caps_string m 40;
             firmware \<leftarrow> caps_string m 48;
             _ \<leftarrow> caps_string m 56;
             Some (0, (case firmware of None \<Rightarrow> p | Some s \<Rightarrow> p\<lparr>BaseBandVersion := c_string s\<rparr>), w) }) }) }"

definition mbim_set_radio_state :: "u32 \<Rightarrow> mbim \<Rightarrow> (int \<times> mbim) option" where
  "mbim_set_radio_state RadioState w =
     mbim_request (basic_set MBIM_CID_RADIO_STATE (le32 RadioState) w)
       (with_info (\<lambda>m w. do { _ \<leftarrow> done_info m 0; _ \<leftarrow> done_info m 4; Some w }))"

definition mbim_subscriber_status_query :: "mbim \<Rightarrow> (int \<times> mbim) option" where
  "mbim_subscriber_status_query w =
     mbim_request (basic_query MBIM_CID_SUBSCRIBER_READY_STATUS [] w)
       (with_info (\<lambda>m w. do {
          o1 \<leftarrow> done_info m 4; n1 \<leftarrow> done_info m 8; _ \<leftarrow> wchar2char m (48 + unat o1) (unat n1) 32;
          o2 \<leftarrow> done_info m 12; n2 \<leftarrow> done_info m 16; _ \<leftarrow> wchar2char m (48 + unat o2) (unat n2) 32;
          st \<leftarrow> done_info m 0;
          Some (mbim_update_state (w\<lparr>ReadyState := st\<rparr>)) }))"

definition mbim_register_state_query :: "mbim \<Rightarrow> (int \<times> mbim) option" where
  "mbim_register_state_query w =
     mbim_request (basic_query MBIM_CID_REGISTER_STATE [] w)
       (with_info (\<lambda>m w. do { st \<leftarrow> done_info m 4; Some (mbim_update_state (w\<lparr>RegisterState := st\<rparr>)) }))"

definition PACKET_SERVICE_V2_SIZE :: u32 where "PACKET_SERVICE_V2_SIZE = 32"

definition mbim_packet_service_query :: "mbim \<Rightarrow> (int \<times> mbim) option" where
  "mbim_packet_service_query w =
     mbim_request (basic_query MBIM_CID_PACKET_SERVICE [] w)
       (with_info (\<lambda>m w. do {
          st \<leftarrow> done_info m 4; l \<leftarrow> info_length m;
          _ \<leftarrow> (if l = PACKET_SERVICE_V2_SIZE then done_info m 8 else Some 0);
          Some (mbim_update_state (w\<lparr>PacketServiceState := st\<rparr>)) }))"

definition mbim_packet_service_set :: "u32 \<Rightarrow> mbim \<Rightarrow> (int \<times> mbim) option" where
  "mbim_packet_service_set action w =
     mbim_request (basic_set MBIM_CID_PACKET_SERVICE (le32 action) w)
       (with_info (\<lambda>m w. do { st \<leftarrow> done_info m 4; Some (mbim_update_state (w\<lparr>PacketServiceState := st\<rparr>)) }))"

section \<open>The call\<close>

definition connect_data :: "bool \<Rightarrow> int \<Rightarrow> mbim \<Rightarrow> bytes option" where
  "connect_data onoff sessionID w = do {
     d \<leftarrow> mbim_populate_connect_data (mbim_apn w) (mbim_user w) (mbim_passwd w);
     u \<leftarrow> str2uuid UUID_MBIMContextTypeInternet;
     Some (le32 (of_int sessionID) @
       le32 (if onoff then MBIMActivationCommandActivate else MBIMActivationCommandDeactivate) @ take 24 (drop 8 d) @
       le32 MBIMCompressionNone @ le32 (of_int (mbim_auth w)) @ le32 (of_int (mbim_iptype w)) @ u @ drop 60 d) }"

definition mbim_set_connect :: "bool \<Rightarrow> int \<Rightarrow> mbim \<Rightarrow> (int \<times> mbim) option" where
  "mbim_set_connect onoff sessionID w = do {
     b \<leftarrow> connect_data onoff sessionID w;
     mbim_request (basic_set MBIM_CID_CONNECT b w)
       (with_info (\<lambda>m w. do { st \<leftarrow> done_info m 4; Some (mbim_update_state (w\<lparr>ActivationState := st\<rparr>)) })) }"

definition mbim2qmi_ipv4addr :: "u32 \<Rightarrow> u32" where
  "mbim2qmi_ipv4addr addr = drop_bit 24 addr OR (drop_bit 8 addr AND 0xff00) OR (push_bit 8 addr AND 0xff0000) OR push_bit 24 addr"

text \<open>\<open>0xFFFFFFFF>>(32-prefix)<<(32-prefix)\<close>: a shift by 32 or more, or by less than 0, is undefined.\<close>

definition prefix_mask :: "byte \<Rightarrow> u32 option" where
  "prefix_mask p = (if 1 \<le> p \<and> p \<le> 32 then Some (push_bit (32 - unat p) (drop_bit (32 - unat p) 0xFFFFFFFF)) else None)"

text \<open>An item of the information buffer that is there if a bit of the mask is set: what \<open>read\<close> finds
  at the offset in the field.\<close>

definition if_available :: "u32 \<Rightarrow> u32 \<Rightarrow> bytes \<Rightarrow> nat \<Rightarrow> (nat \<Rightarrow> 'a option) \<Rightarrow> 'a option option" where
  "if_available avail bits m field read =
     (if avail AND bits = 0 then Some None
      else do { off \<leftarrow> done_info m field; map_option Some (read (48 + unat off)) })"

text \<open>The second of two DNS servers follows the first; it counts only if there are exactly two.\<close>

definition second_dns :: "bytes \<Rightarrow> nat \<Rightarrow> nat \<Rightarrow> (nat \<Rightarrow> 'a option) \<Rightarrow> nat \<Rightarrow> ('a \<times> 'a option) option" where
  "second_dns m count width read pos = do {
     n \<leftarrow> done_info m count; d1 \<leftarrow> read pos;
     (if n = 2 then do { d2 \<leftarrow> read (pos + width); Some (d1, Some d2) } else Some (d1, None)) }"

definition or_kept :: "'a option \<Rightarrow> 'a \<Rightarrow> 'a" where
  "or_kept x old = (case x of None \<Rightarrow> old | Some v \<Rightarrow> v)"

definition available_mtu :: "u32 \<Rightarrow> bytes \<Rightarrow> nat \<Rightarrow> u32 \<Rightarrow> u32 option" where
  "available_mtu avail m field mtu = (if avail AND 8 \<noteq> 0 then done_info m field else Some mtu)"

definition ip4_config :: "bytes \<Rightarrow> u32 \<Rightarrow> u32 \<times> profile \<Rightarrow> (u32 \<times> profile) option" where
  "ip4_config m avail x = (case x of (mtu, p) \<Rightarrow> do {
     off \<leftarrow> done_info m 16;
     pre \<leftarrow> rd32 m (48 + unat off);
     gw \<leftarrow> if_available avail 2 m 28 (rd32 m);
     dns \<leftarrow> if_available avail 4 m 40 (second_dns m 36 4 (rd32 m));
     mtu \<leftarrow> available_mtu avail m 52 mtu;
     addr \<leftarrow> rd32 m (48 + unat off + 4);
     sub \<leftarrow> prefix_mask (ucast pre);
     let old = ipv4 p;
     Some (mtu, p\<lparr>ipv4 := old\<lparr>Address := mbim2qmi_ipv4addr addr,
       Gateway := or_kept (map_option mbim2qmi_ipv4addr gw) (Gateway old),
       SubnetMask := mbim2qmi_ipv4addr sub,
       DnsPrimary := or_kept (map_option (mbim2qmi_ipv4addr \<circ> fst) dns) (DnsPrimary old),
       DnsSecondary := or_kept (map_option mbim2qmi_ipv4addr (Option.bind dns snd)) (DnsSecondary old),
       Mtu := mbim2qmi_ipv4addr mtu\<rparr>\<rparr>) })"

definition ip6_config :: "bytes \<Rightarrow> u32 \<Rightarrow> u32 \<times> profile \<Rightarrow> (u32 \<times> profile) option" where
  "ip6_config m avail x = (case x of (mtu, p) \<Rightarrow> do {
     off \<leftarrow> done_info m 24;
     pre \<leftarrow> rd32 m (48 + unat off);
     gw \<leftarrow> if_available avail 2 m 32 (\<lambda>i. rdn m i 16);
     dns \<leftarrow> if_available avail 4 m 48 (second_dns m 44 16 (\<lambda>i. rdn m i 16));
     mtu \<leftarrow> available_mtu avail m 56 mtu;
     addr \<leftarrow> rdn m (48 + unat off + 4) 16;
     let old = ipv6 p;
     Some (mtu, p\<lparr>ipv6 := old\<lparr>Address6 := addr,
       Gateway6 := or_kept gw (Gateway6 old),
       DnsPrimary6 := or_kept (map_option fst dns) (DnsPrimary6 old),
       DnsSecondary6 := or_kept (Option.bind dns snd) (DnsSecondary6 old),
       PrefixLengthIPAddr := ucast pre, PrefixLengthGateway := ucast pre,
       Mtu6 := mbim2qmi_ipv4addr mtu\<rparr>\<rparr>) })"

definition ip_answer :: "bytes \<Rightarrow> profile \<Rightarrow> profile option" where
  "ip_answer m p = do {
     l \<leftarrow> info_length m;
     (if l = 0 then Some p
      else do {
        v4 \<leftarrow> done_info m 4; v6 \<leftarrow> done_info m 8;
        x \<leftarrow> (if v4 AND 1 \<noteq> 0 then ip4_config m v4 (1500, p) else Some (1500, p));
        x \<leftarrow> (if v6 AND 1 \<noteq> 0 then ip6_config m v6 x else Some x);
        Some (snd x) }) }"

definition mbim_ip_config :: "int \<Rightarrow> profile \<Rightarrow> mbim \<Rightarrow> (int \<times> profile \<times> mbim) option" where
  "mbim_ip_config sessionID p w = do {
     a \<leftarrow> basic_query MBIM_CID_IP_CONFIGURATION (le32 (of_int sessionID) @ stack_bytes w 56) w;
     (case a of Inl (err, w) \<Rightarrow> Some (err, p, w)
      | Inr (m, w) \<Rightarrow> do { p \<leftarrow> ip_answer m p; Some (0, p, w) }) }"


section \<open>The device\<close>

definition mbim_proxy_configure :: "string \<Rightarrow> mbim \<Rightarrow> (int \<times> mbim) option" where
  "mbim_proxy_configure dev w =
     (let path = char2wchar dev (length dev * 2) in
      mbim_request (mbim_exchange (compose_command UUID_LIBMBIM_PROXY MBIM_CID_PROXY_CONTROL_CONFIGURATION MBIM_CID_CMD_TYPE_SET
          None (le32 12 @ le32 (of_nat (length path)) @ le32 15 @ path)) w) (\<lambda>m w. Some w))"

text \<open>Up to ten attempts to open, as long as there is no answer in time.\<close>

fun mbim_open_attempts :: "nat \<Rightarrow> mbim \<Rightarrow> (int \<times> mbim) option" where
  "mbim_open_attempts 0 w = Some (ETIMEDOUT, w)"
| "mbim_open_attempts (Suc n) w = do {
     (retval, w) \<leftarrow> mbim_open_device 4096 w;
     (if retval \<noteq> ETIMEDOUT then Some (retval, w) else mbim_open_attempts n w) }"

definition mbim_init :: "mbim \<Rightarrow> profile \<Rightarrow> (int \<times> profile \<times> bool \<times> mbim) option" where
  "mbim_init w p = do {
     (r, w) \<leftarrow> (if proxy p = LIBMBIM_PROXY then mbim_proxy_configure (qmichannel p) w else Some (0, w));
     (if r \<noteq> 0 then Some (r, p, False, w) else do {
       (r, w) \<leftarrow> mbim_open_attempts 10 w;
       (if r \<noteq> 0 then Some (r, p, False, w) else do {
         (r, p, w) \<leftarrow> mbim_device_caps_query p w;
         (if r \<noteq> 0 then Some (r, p, False, w) else do {
           (r, w) \<leftarrow> mbim_device_services_query (mbim_update_state w);
           (if r \<noteq> 0 then Some (r, p, False, w) else do {
             (r, w) \<leftarrow> mbim_set_radio_state MBIMRadioOn (mbim_update_state w);
             Some (r, p, False, if r \<noteq> 0 then w else mbim_update_state w) }) }) }) }) }"

definition mbim_deinit :: "mbim \<Rightarrow> mbim option" where
  "mbim_deinit w = do { (_, w) \<leftarrow> mbim_close_device w; Some w }"

definition mbim_dev_ops :: "mbim device_ops" where
  "mbim_dev_ops = \<lparr>dev_init = Some mbim_init, dev_deinit = Some mbim_deinit,
     dev_events = (\<lambda>w. (map (\<lambda>e. (e, None)) (mbim_to_main w), w\<lparr>mbim_to_main := []\<rparr>))\<rparr>"

section \<open>The requests of the main loop\<close>

definition mbim_requestBaseBandVersion :: "mbim \<Rightarrow> profile \<Rightarrow> (int \<times> profile \<times> mbim) option" where
  "mbim_requestBaseBandVersion w p = Some (0, p, w)"

definition sim_of_ready :: "u32 \<Rightarrow> sim_status" where
  "sim_of_ready st =
     (if st = MBIMSubscriberReadyStateNotInitialized then SIM_NOT_READY
      else if st = MBIMSubscriberReadyStateInitialized then SIM_READY
      else if st = MBIMSubscriberReadyStateBadSim then SIM_BAD
      else if st = MBIMSubscriberReadyStateDeviceLocked then SIM_PIN
      else SIM_ABSENT)"

definition mbim_requestGetSIMStatus :: "mbim \<Rightarrow> (int \<times> sim_status option \<times> mbim) option" where
  "mbim_requestGetSIMStatus w = do {
     (r, w) \<leftarrow> mbim_subscriber_status_query w;
     (if r \<noteq> 0 then Some (r, Some SIM_ABSENT, w)
      else Some (r, Some (sim_of_ready (ReadyState w)), mbim_update_state w)) }"

definition mbim_requestRegistrationState :: "mbim \<Rightarrow> (int \<times> byte option \<times> mbim) option" where
  "mbim_requestRegistrationState w = do {
     (r, w) \<leftarrow> mbim_register_state_query w;
     (if r \<noteq> 0 then Some (r, Some 0, w)
      else let w = mbim_update_state w in
        if RegisterState w \<noteq> MBIMRegisterStateHome \<and> RegisterState w \<noteq> MBIMRegisterStateRoaming
        then Some (r, Some 0, w)
        else do {
          (r, w) \<leftarrow> mbim_packet_service_query w;
          (if r \<noteq> 0 then Some (r, Some 1, w)
           else if PacketServiceState w = MBIMPacketServiceStateAttached then Some (r, Some 1, w)
           else do {
             (_, w) \<leftarrow> mbim_packet_service_set MBIMPacketServiceActionAttach w;
             Some (r, Some 0, w) }) }) }"

definition mbim_copy_profile :: "profile \<Rightarrow> mbim \<Rightarrow> mbim" where
  "mbim_copy_profile p w = w\<lparr>
     mbim_apn := (if apn p \<noteq> None then apn p else mbim_apn w),
     mbim_user := (if user p \<noteq> None then user p else mbim_user w),
     mbim_passwd := (if password p \<noteq> None then password p else mbim_passwd w),
     mbim_auth := (if auth p \<noteq> 0 then auth p else mbim_auth w),
     mbim_iptype := (if enable_ipv4 p \<and> enable_ipv6 p then MBIMContextIPTypeIPv4AndIPv6
       else if enable_ipv6 p then MBIMContextIPTypeIPv6
       else if enable_ipv4 p then MBIMContextIPTypeIPv4 else mbim_iptype w)\<rparr>"

definition mbim_requestSetupDataCall :: "mbim \<Rightarrow> profile \<Rightarrow> int \<Rightarrow> (int \<times> profile \<times> mbim) option" where
  "mbim_requestSetupDataCall w p fam = do {
     (r, w) \<leftarrow> mbim_set_connect True (mbim_sessionID w) (mbim_copy_profile p w);
     Some (r, p, w) }"

definition status_of_activation :: "u32 \<Rightarrow> byte" where
  "status_of_activation st =
     (if st = MBIMActivationStateUnknown then QWDS_PKT_DATA_UNKNOW
      else if st = MBIMActivationStateActivated then QWDS_PKT_DATA_CONNECTED
      else QWDS_PKT_DATA_DISCONNECTED)"

definition mbim_requestQueryDataCall :: "mbim \<Rightarrow> int \<Rightarrow> (int \<times> byte option \<times> mbim) option" where
  "mbim_requestQueryDataCall w fam = do {
     (r, w) \<leftarrow> mbim_query_connect (mbim_sessionID w) w;
     Some (r, Some (if r \<noteq> 0 then QWDS_PKT_DATA_DISCONNECTED else status_of_activation (ActivationState w)), w) }"

definition mbim_requestDeactivateDefaultPDP :: "mbim \<Rightarrow> profile \<Rightarrow> int \<Rightarrow> (int \<times> profile \<times> mbim) option" where
  "mbim_requestDeactivateDefaultPDP w p fam = do {
     (r, w) \<leftarrow> mbim_set_connect False (mbim_sessionID w) w;
     Some (r, p, w) }"

definition mbim_requestGetIPAddress :: "mbim \<Rightarrow> profile \<Rightarrow> int \<Rightarrow> (int \<times> profile \<times> mbim) option" where
  "mbim_requestGetIPAddress w p fam = mbim_ip_config (mbim_sessionID w) p w"

definition mbim_request_ops :: "mbim request_ops" where
  "mbim_request_ops = \<lparr>
     rq_BaseBandVersion = Some mbim_requestBaseBandVersion,
     rq_SetEthMode = None,
     rq_SetLoopBackState = None,
     rq_GetSIMStatus = Some mbim_requestGetSIMStatus,
     rq_EnterSimPin = None,
     rq_SetProfile = None,
     rq_GetProfile = None,
     rq_RegistrationState = mbim_requestRegistrationState,
     rq_SetupDataCall = mbim_requestSetupDataCall,
     rq_QueryDataCall = mbim_requestQueryDataCall,
     rq_DeactivateDefaultPDP = mbim_requestDeactivateDefaultPDP,
     rq_GetIPAddress = mbim_requestGetIPAddress,
     rq_GetSignalInfo = None,
     rq_GetCellInfoList = None,
     rq_GetICCID = None,
     rq_GetIMSI = None,
     rq_GetCoexWWANState = None\<rparr>"

section \<open>QMI over MBIM\<close>

text \<open>A QMI request goes out in a command of its own service. The result is that of \<open>write\<close> of the
  answer's information buffer to the socket: \<open>written\<close> tells what it returned. The client id is that of
  the network access service, 0 in the default configuration.\<close>

definition qmi_over_mbim_qmidev_send :: "byte \<Rightarrow> bytes \<Rightarrow> int \<Rightarrow> mbim \<Rightarrow> (int \<times> mbim) option" where
  "qmi_over_mbim_qmidev_send qmi_over_mbim_nas pQMI written w = do {
     n \<leftarrow> qmi_length pQMI; t \<leftarrow> qmi_type pQMI; c \<leftarrow> qmi_client pQMI;
     let q = (if t = QMUX_TYPE_NAS then pQMI[5 := qmi_over_mbim_nas] else pQMI);
     (if t \<noteq> QMUX_TYPE_CTL \<and> (if t = QMUX_TYPE_NAS then qmi_over_mbim_nas else c) = 0 then Some (- ENODEV, w)
      else do {
        b \<leftarrow> rdn q 0 (unat n + 1);
        a \<leftarrow> mbim_exchange (compose_qmi_over_mbim_command 1 MBIM_CID_CMD_TYPE_SET b) w;
        (case a of Inl (err, w) \<Rightarrow> Some (err, w)
         | Inr (m, w) \<Rightarrow> do { l \<leftarrow> info_length m;
             Some (if l \<noteq> 0 \<and> written = uint l then 0 else -1, w) }) }) }"

end
