(* ===== verification/Mbim_Requests.thy ===== *)
theory Mbim_Requests
  imports Mbim_Ops Main_Inv
begin

text \<open>
  What the requests over MBIM give when a modem answers them: registration, the IPv4 configuration, and
  the laws the main loop relies on.
\<close>

section \<open>Answers to queries\<close>

lemma answered_ready:
  "mbim_ready w \<Longrightarrow> unat (TransactionId w) + 1 < 2 ^ 24 \<Longrightarrow> length m \<le> 4096 \<Longrightarrow> mbim_ready (after_answer req m ts w)"
  by (auto simp: mbim_ready_def after_answer_def word_unat_eq_iff unat_word_ariths)

lemma answered_vars [simp]:
  "mbim_turns (after_answer req m ts w) = ts" "TransactionId (after_answer req m ts w) = TransactionId w + 1"
  "mbim_sent (after_answer req m ts w) = mbim_sent w @ [req]"
  "RegisterState (after_answer req m ts w) = RegisterState w"
  by (simp_all add: after_answer_def)

lemma update_vars [simp]:
  "mbim_turns (mbim_update_state w) = mbim_turns w" "TransactionId (mbim_update_state w) = TransactionId w"
  "mbim_sent (mbim_update_state w) = mbim_sent w" "RegisterState (mbim_update_state w) = RegisterState w"
  "PacketServiceState (mbim_update_state w) = PacketServiceState w"
  "mbim_ready (mbim_update_state w) = mbim_ready w"
  by (simp_all add: mbim_update_state_def mbim_ready_def)

lemma state_ready [simp]:
  "mbim_ready (w\<lparr>RegisterState := st\<rparr>) = mbim_ready w" "mbim_ready (w\<lparr>PacketServiceState := st\<rparr>) = mbim_ready w"
  by (simp_all add: mbim_ready_def)

lemma basic_answered:
  assumes "mbim_ready w" "mbim_turns w = answer_turn b cid status info v # ts" "TransactionId v = TransactionId w"
    "length b < 2 ^ 31" "length info \<le> 4000"
  obtains req where "mbim_exchange (compose_basic_connect_command c ty b) w =
      Some (let m = mbim_done (TransactionId w) cid status info; w' = after_answer req m ts w
            in if c_int (uint status) \<noteq> 0 then Inl (c_int (uint status), w') else Inr (m, w'))"
    "compose_basic_connect_command c ty b (TransactionId w) = Some req"
proof -
  obtain req where c: "compose_command UUID_BASIC_CONNECT c ty (Some b) b (TransactionId w) = Some req"
    by (auto simp: compose_command_def basic_connect_uuid)
  have "mbim_turns w = answer_turn b cid status info w # ts" using assms(2,3) by (simp add: answer_turn_def)
  from command_answered [OF assms(1) this c assms(4,5)] that c show thesis
    by (simp add: compose_basic_connect_command_def)
qed

lemma c_int_zero [simp]: "c_int 0 = 0"
  by (simp add: c_int_def)

lemma info_present: "info \<noteq> [] \<Longrightarrow> length info \<le> 4000 \<Longrightarrow> (of_nat (length info) :: u32) \<noteq> 0"
  by (auto simp: word_unat_eq_iff unat_of_nat take_bit_nat_eq_self)

lemma with_info_done:
  "info \<noteq> [] \<Longrightarrow> length info \<le> 4000 \<Longrightarrow> with_info f (mbim_done tid cid status info) w = f (mbim_done tid cid status info) w"
  using info_present [of info] by (simp add: with_info_def done_fields)

text \<open>The information of a state: an error number and the state, and whatever follows.\<close>

definition state_info :: "u32 \<Rightarrow> bytes \<Rightarrow> bytes" where
  "state_info st rest = le32 0 @ le32 st @ rest"

lemma state_info_fields: "rd32 (state_info st rest) 4 = Some st" "state_info st rest \<noteq> []"
  "length (state_info st rest) = 8 + length rest"
  using rd32_second [of 0 "le32 st @ rest" 0] rd32_le32 [of st rest] by (simp_all add: state_info_def le32_def [of 0])

lemma register_answered:
  assumes "mbim_ready w" "mbim_turns w = answer_turn [] cid 0 (state_info st rest) v # ts" "TransactionId v = TransactionId w"
    "length rest \<le> 3000"
  obtains req where "mbim_register_state_query w = Some (0, mbim_update_state
      ((after_answer req (mbim_done (TransactionId w) cid 0 (state_info st rest)) ts w)\<lparr>RegisterState := st\<rparr>))"
    "compose_basic_connect_command MBIM_CID_REGISTER_STATE MBIM_CID_CMD_TYPE_QUERY [] (TransactionId w) = Some req"
proof -
  have l: "length (state_info st rest) \<le> 4000" using assms(4) by (simp add: state_info_fields)
  obtain req where q: "mbim_exchange (compose_basic_connect_command MBIM_CID_REGISTER_STATE MBIM_CID_CMD_TYPE_QUERY []) w =
      Some (let m = mbim_done (TransactionId w) cid 0 (state_info st rest); w' = after_answer req m ts w
            in if c_int (uint (0 :: u32)) \<noteq> 0 then Inl (c_int (uint (0 :: u32)), w') else Inr (m, w'))"
      "compose_basic_connect_command MBIM_CID_REGISTER_STATE MBIM_CID_CMD_TYPE_QUERY [] (TransactionId w) = Some req"
    by (rule basic_answered [OF assms(1-3) _ l]) simp_all
  show thesis
    by (rule that [OF _ q(2)])
       (use q(1) assms(4) in \<open>simp add: mbim_register_state_query_def mbim_request_def basic_query_def with_info_done
          state_info_fields done_fields Let_def\<close>)
qed

lemma packet_answered:
  assumes "mbim_ready w" "mbim_turns w = answer_turn [] cid status (state_info st rest) v # ts" "TransactionId v = TransactionId w"
    "length rest \<le> 3000" "24 \<le> length rest"
  obtains req where "mbim_packet_service_query w = Some (let w' = after_answer req
      (mbim_done (TransactionId w) cid status (state_info st rest)) ts w in
      if c_int (uint status) \<noteq> 0 then (c_int (uint status), w') else (0, mbim_update_state (w'\<lparr>PacketServiceState := st\<rparr>)))"
    "compose_basic_connect_command MBIM_CID_PACKET_SERVICE MBIM_CID_CMD_TYPE_QUERY [] (TransactionId w) = Some req"
proof -
  have l: "length (state_info st rest) \<le> 4000" using assms(4) by (simp add: state_info_fields)
  obtain x where x: "rd32 (state_info st rest) 8 = Some x"
    using assms(5) rd32_None [of "state_info st rest" 8] by (auto simp: state_info_fields)
  obtain req where q: "mbim_exchange (compose_basic_connect_command MBIM_CID_PACKET_SERVICE MBIM_CID_CMD_TYPE_QUERY []) w =
      Some (let m = mbim_done (TransactionId w) cid status (state_info st rest); w' = after_answer req m ts w
            in if c_int (uint status) \<noteq> 0 then Inl (c_int (uint status), w') else Inr (m, w'))"
      "compose_basic_connect_command MBIM_CID_PACKET_SERVICE MBIM_CID_CMD_TYPE_QUERY [] (TransactionId w) = Some req"
    by (rule basic_answered [OF assms(1-3) _ l]) simp_all
  show thesis
    by (rule that [OF _ q(2)])
       (use q(1) x assms(4) in \<open>simp add: mbim_packet_service_query_def mbim_request_def basic_query_def with_info_done
          state_info_fields done_fields Let_def\<close>)
qed

section \<open>Registration\<close>

lemma set_answered:
  assumes "mbim_ready w" "mbim_turns w = answer_turn (le32 action) cid 0 (state_info st rest) v # ts" "TransactionId v = TransactionId w"
    "length rest \<le> 3000"
  obtains req where "mbim_packet_service_set action w = Some (0, mbim_update_state
      ((after_answer req (mbim_done (TransactionId w) cid 0 (state_info st rest)) ts w)\<lparr>PacketServiceState := st\<rparr>))"
    "compose_basic_connect_command MBIM_CID_PACKET_SERVICE MBIM_CID_CMD_TYPE_SET (le32 action) (TransactionId w) = Some req"
proof -
  have l: "length (state_info st rest) \<le> 4000" using assms(4) by (simp add: state_info_fields)
  obtain req where q: "mbim_exchange (compose_basic_connect_command MBIM_CID_PACKET_SERVICE MBIM_CID_CMD_TYPE_SET (le32 action)) w =
      Some (let m = mbim_done (TransactionId w) cid 0 (state_info st rest); w' = after_answer req m ts w
            in if c_int (uint (0 :: u32)) \<noteq> 0 then Inl (c_int (uint (0 :: u32)), w') else Inr (m, w'))"
      "compose_basic_connect_command MBIM_CID_PACKET_SERVICE MBIM_CID_CMD_TYPE_SET (le32 action) (TransactionId w) = Some req"
    by (rule basic_answered [OF assms(1-3) _ l]) simp_all
  show thesis
    by (rule that [OF _ q(2)])
       (use q(1) assms(4) in \<open>simp add: mbim_packet_service_set_def mbim_request_def basic_set_def with_info_done
          state_info_fields done_fields Let_def\<close>)
qed

text \<open>The turns of a registration query: the modem reports the registration state \<open>r\<close>, then the state
  \<open>s\<close> of the packet service with the status \<open>status\<close>, then answers the command to attach.\<close>

definition registration_turns :: "u32 \<Rightarrow> u32 \<Rightarrow> u32 \<Rightarrow> mbim \<Rightarrow> mbim_turn list" where
  "registration_turns r status s w =
     [answer_turn [] MBIM_CID_REGISTER_STATE 0 (state_info r (replicate 40 0)) w,
      answer_turn [] MBIM_CID_PACKET_SERVICE status (state_info s (replicate 24 0)) (w\<lparr>TransactionId := TransactionId w + 1\<rparr>),
      answer_turn (le32 MBIMPacketServiceActionAttach) MBIM_CID_PACKET_SERVICE 0 (state_info s (replicate 24 0))
        (w\<lparr>TransactionId := TransactionId w + 2\<rparr>)]"

definition at_home :: "u32 \<Rightarrow> bool" where
  "at_home r \<longleftrightarrow> r = MBIMRegisterStateHome \<or> r = MBIMRegisterStateRoaming"

lemma registration_answered:
  assumes w: "mbim_ready w" "unat (TransactionId w) + 3 < 2 ^ 24" "mbim_turns w = registration_turns r status s w"
  obtains w' where "mbim_requestRegistrationState w =
      Some (if at_home r then c_int (uint status) else 0,
            Some (if at_home r \<and> (c_int (uint status) \<noteq> 0 \<or> s = MBIMPacketServiceStateAttached) then 1 else 0), w')"
    "length (mbim_sent w') = length (mbim_sent w) +
       (if \<not> at_home r then 1 else if c_int (uint status) \<noteq> 0 \<or> s = MBIMPacketServiceStateAttached then 2 else 3)"
proof -
  let ?t = "registration_turns r status s w"
  obtain r1 where q1: "mbim_register_state_query w = Some (0, mbim_update_state
      ((after_answer r1 (mbim_done (TransactionId w) MBIM_CID_REGISTER_STATE 0 (state_info r (replicate 40 0))) (tl ?t) w)\<lparr>RegisterState := r\<rparr>))"
    by (rule register_answered [OF w(1), of MBIM_CID_REGISTER_STATE r "replicate 40 0" w "tl ?t"])
       (use w(3) in \<open>simp_all add: registration_turns_def\<close>)
  define w1 where "w1 = mbim_update_state (mbim_update_state
      ((after_answer r1 (mbim_done (TransactionId w) MBIM_CID_REGISTER_STATE 0 (state_info r (replicate 40 0))) (tl ?t) w)\<lparr>RegisterState := r\<rparr>))"
  have w1: "mbim_ready w1" "TransactionId w1 = TransactionId w + 1" "mbim_turns w1 = tl ?t" "RegisterState w1 = r"
      "length (mbim_sent w1) = length (mbim_sent w) + 1"
    using w(1,2) by (simp_all add: w1_def answered_ready state_info_fields)
  show thesis
  proof (cases "at_home r")
    case False
    then show thesis using q1 w1 by (intro that [of w1]) (auto simp: mbim_requestRegistrationState_def at_home_def Let_def w1_def [symmetric])
  next
    case True
    obtain r2 where q2: "mbim_packet_service_query w1 = Some (let w' = after_answer r2
      (mbim_done (TransactionId w1) MBIM_CID_PACKET_SERVICE status (state_info s (replicate 24 0))) (tl (tl ?t)) w1 in
      if c_int (uint status) \<noteq> 0 then (c_int (uint status), w') else (0, mbim_update_state (w'\<lparr>PacketServiceState := s\<rparr>)))"
      by (rule packet_answered [OF w1(1), of MBIM_CID_PACKET_SERVICE status s "replicate 24 0" "w\<lparr>TransactionId := TransactionId w + 1\<rparr>" "tl (tl ?t)"])
         (use w1(2,3) in \<open>simp_all add: registration_turns_def\<close>)
    define w2 where "w2 = after_answer r2 (mbim_done (TransactionId w1) MBIM_CID_PACKET_SERVICE status (state_info s (replicate 24 0))) (tl (tl ?t)) w1"
    note q2 = q2 [folded w2_def]
    have a: "unat (TransactionId w1) + 1 < 2 ^ 24" using w(2) w1(2) by (simp add: unat_word_ariths)
    have w2: "mbim_ready w2" "TransactionId w2 = TransactionId w + 2" "mbim_turns w2 = tl (tl ?t)"
      "length (mbim_sent w2) = length (mbim_sent w) + 2"
      using w1 a by (simp_all add: w2_def answered_ready state_info_fields)
    have home: "mbim_requestRegistrationState w = do {
          (r, w) \<leftarrow> mbim_packet_service_query w1;
          (if r \<noteq> 0 then Some (r, Some 1, w)
           else if PacketServiceState w = MBIMPacketServiceStateAttached then Some (r, Some 1, w)
           else do {
             (_, w) \<leftarrow> mbim_packet_service_set MBIMPacketServiceActionAttach w;
             Some (r, Some 0, w) }) }"
      using True q1 w1(4) by (auto simp: mbim_requestRegistrationState_def at_home_def Let_def w1_def [symmetric])
    let ?w3 = "mbim_update_state (w2\<lparr>PacketServiceState := s\<rparr>)"
    consider (fails) "c_int (uint status) \<noteq> 0" | (attached) "c_int (uint status) = 0" "s = MBIMPacketServiceStateAttached"
      | (detached) "c_int (uint status) = 0" "s \<noteq> MBIMPacketServiceStateAttached" by blast
    then show thesis
    proof cases
      case fails
      then show thesis using q2 w2(4) True home by (intro that [of w2]) (simp_all add: Let_def)
    next
      case attached
      then show thesis using q2 w2(4) True home
        by (intro that [of ?w3]) (simp_all add: Let_def)
    next
      case detached
      have w3: "mbim_ready ?w3" "mbim_turns ?w3 = answer_turn (le32 MBIMPacketServiceActionAttach) MBIM_CID_PACKET_SERVICE 0
          (state_info s (replicate 24 0)) (w\<lparr>TransactionId := TransactionId w + 2\<rparr>) # []"
        "TransactionId (w\<lparr>TransactionId := TransactionId w + 2\<rparr>) = TransactionId ?w3"
        using w2 by (simp_all add: registration_turns_def)
      obtain r3 where q3: "mbim_packet_service_set MBIMPacketServiceActionAttach ?w3 = Some (0, mbim_update_state
          ((after_answer r3 (mbim_done (TransactionId ?w3) MBIM_CID_PACKET_SERVICE 0 (state_info s (replicate 24 0))) [] ?w3)\<lparr>PacketServiceState := s\<rparr>))"
        by (rule set_answered [OF w3]) simp_all
      show thesis
        by (rule that, simp add: home q2 Let_def detached q3 True) (simp add: w2(4) True detached)
    qed
  qed
qed


definition mbim_started :: "(mbim \<Rightarrow> mbim_turn list) \<Rightarrow> mbim" where
  "mbim_started f = (let w = mbim_zero\<lparr>mbim_fd_open := True, mbim_reader := True\<rparr> in w\<lparr>mbim_turns := f w\<rparr>)"

lemma started: "mbim_ready (mbim_started f)" "TransactionId (mbim_started f) = 1" "mbim_sent (mbim_started f) = []"
  "mbim_turns (mbim_started (registration_turns r status s)) = registration_turns r status s (mbim_started (registration_turns r status s))"
  by (simp_all add: mbim_started_def mbim_ready_def mbim_zero_def Let_def registration_turns_def answer_turn_def)


text \<open>Property C29: a failed query counts as attachment. If the modem is registered and refuses the query
  for the packet service, the request returns the error but leaves the state at attached, and the main
  loop, which ignores the error, goes on to dial.\<close>

theorem mbim_refused_query_counts_as_attached:
  assumes "mbim_ready (world m)" "unat (TransactionId (world m)) + 3 < 2 ^ 24"
    "mbim_turns (world m) = registration_turns r status s (world m)" "at_home r" "c_int (uint status) \<noteq> 0"
  shows "\<exists>m'. update_registration mbim_request_ops m = Some m' \<and> PSAttachedState m' = 1"
  by (rule registration_answered [OF assms(1-3)])
     (use assms(4,5) in \<open>simp add: update_registration_def mbim_request_ops_def\<close>)

theorem mbim_refused_query_counts_as_attached_witness:
  "\<exists>m'. update_registration mbim_request_ops
      (cm_start (mbim_started (registration_turns MBIMRegisterStateHome 2 0)) profile_zero) = Some m' \<and> PSAttachedState m' = 1"
  by (rule mbim_refused_query_counts_as_attached [where r = MBIMRegisterStateHome and status = 2 and s = 0])
     (simp_all add: started at_home_def c_int_def cm_start_def)

section \<open>Addresses\<close>

lemma octet_masks: "(0xff00 :: u32) = push_bit 8 (mask 8)" "(0xff0000 :: u32) = push_bit 16 (mask 8)"
  by (simp_all add: mask_eq_exp_minus_1)

lemma swap_join: "mbim2qmi_ipv4addr (le32_join a b c d) = le32_join d c b a"
proof (rule bit_word_eqI)
  fix n assume "n < LENGTH(32)"
  then consider "n < 8" | "8 \<le> n" "n < 16" | "16 \<le> n" "n < 24" | "24 \<le> n" "n < 32" by fastforce
  then show "bit (mbim2qmi_ipv4addr (le32_join a b c d)) n = bit (le32_join d c b a) n"
    by cases (auto simp: mbim2qmi_ipv4addr_def le32_join_def octet_masks bit_simps dest: bit_imp_le_length)
qed

text \<open>An answer with an address and its prefix, a gateway, two DNS servers and an MTU for IPv4, and
  nothing for IPv6. \<open>dotted_value\<close> is the number in which the rest of the program keeps the address
  \<open>a.b.c.d\<close>: the first octet on top.\<close>

type_synonym octets = "byte \<times> byte \<times> byte \<times> byte"

definition octets_bytes :: "octets \<Rightarrow> bytes" where
  "octets_bytes x = (case x of (a, b, c, d) \<Rightarrow> [a, b, c, d])"

definition dotted_value :: "octets \<Rightarrow> u32" where
  "dotted_value x = (case x of (a, b, c, d) \<Rightarrow> le32_join d c b a)"

definition ip4_info :: "byte \<Rightarrow> octets \<Rightarrow> octets \<Rightarrow> octets \<Rightarrow> octets \<Rightarrow> u32 \<Rightarrow> bytes" where
  "ip4_info pre addr gw d1 d2 mtu =
     (le32 0 @ le32 15 @ le32 0 @ le32 1 @ le32 60 @ le32 0 @ le32 0 @ le32 68 @ le32 0 @ le32 2 @ le32 72 @
      le32 0 @ le32 0 @ le32 mtu @ le32 0) @
     le32 (ucast pre) @ octets_bytes addr @ octets_bytes gw @ octets_bytes d1 @ octets_bytes d2"

lemma rd32_octets: "rd32 (octets_bytes x @ r) 0 = Some (mbim2qmi_ipv4addr (dotted_value x))"
  by (cases x) (simp add: octets_bytes_def rd32_def rd8_def dotted_value_def swap_join numeral_2_eq_2 numeral_3_eq_3)

lemma octets_length [simp]: "length (octets_bytes x) = 4"
  by (cases x) (simp add: octets_bytes_def)

lemma swap_swap: "mbim2qmi_ipv4addr (mbim2qmi_ipv4addr (dotted_value x)) = dotted_value x"
  by (cases x) (simp add: dotted_value_def swap_join)

lemma rd32_last: "rd32 (le32 v) 0 = Some v" "rd32 (octets_bytes x) 0 = Some (mbim2qmi_ipv4addr (dotted_value x))"
  using rd32_le32 [of v "[]"] rd32_octets [of x "[]"] by simp_all

lemma ip4_fields:
  fixes pre addr gw d1 d2 mtu
  defines "m \<equiv> ip4_info pre addr gw d1 d2 mtu"
  shows "rd32 m 4 = Some 15" "rd32 m 8 = Some 0" "rd32 m 16 = Some 60" "rd32 m 28 = Some 68" "rd32 m 36 = Some 2"
    "rd32 m 40 = Some 72" "rd32 m 52 = Some mtu" "rd32 m 60 = Some (ucast pre)"
    "rd32 m 64 = Some (mbim2qmi_ipv4addr (dotted_value addr))" "rd32 m 68 = Some (mbim2qmi_ipv4addr (dotted_value gw))"
    "rd32 m 72 = Some (mbim2qmi_ipv4addr (dotted_value d1))" "rd32 m 76 = Some (mbim2qmi_ipv4addr (dotted_value d2))"
    "length m = 84 - 4"
  by (simp_all add: m_def ip4_info_def rd32_skip rd32_le32 rd32_octets rd32_last)

lemma done_rd32: "rd32 (mbim_done tid cid status info) (48 + i) = rd32 info i"
  using done_fields(6) [of tid cid status info i] by (simp add: done_info_def)

lemma prefix_mask_swapped: "1 \<le> p \<Longrightarrow> p < 32 \<Longrightarrow> prefix_mask p = Some sub \<Longrightarrow> mbim2qmi_ipv4addr sub \<noteq> sub"
proof
  assume p: "1 \<le> p" "p < 32" "prefix_mask p = Some sub" and eq: "mbim2qmi_ipv4addr sub = sub"
  have u: "1 \<le> unat p" "unat p < 32" using p(1,2) by (simp_all add: word_le_nat_alt word_less_nat_alt)
  have m: "(0xFFFFFFFF :: u32) = mask 32" by (simp add: mask_eq_exp_minus_1)
  have "sub = push_bit (32 - unat p) (drop_bit (32 - unat p) (mask 32))"
    using p(3) unfolding prefix_mask_def m by (simp only: option.inject option.distinct split: if_splits)
  then have sub: "bit sub n \<longleftrightarrow> 32 - unat p \<le> n \<and> n < 32" for n
    by (auto simp: bit_push_bit_iff bit_drop_bit_eq bit_mask_iff)
  have "bit (mbim2qmi_ipv4addr sub) 7 = bit sub 31" "bit (mbim2qmi_ipv4addr sub) 24 = bit sub 0"
    by (auto simp: mbim2qmi_ipv4addr_def octet_masks bit_simps sub)
  then show False using eq u by (simp add: sub)
qed

text \<open>Property C28: the IPv4 configuration is taken over from the answer, except that the netmask and the MTU
  come out with their octets reversed. Address, gateway and DNS servers are the numbers the rest of the
  program expects; the mask, which was computed as such a number, and the MTU are swapped all the same,
  so a prefix of 24 gives 0.255.255.255.\<close>

theorem mbim_addresses_from_answer:
  assumes "1 \<le> pre" "pre \<le> 32"
  shows "\<exists>p' sub. ip_answer (mbim_done tid cid 0 (ip4_info pre addr gw d1 d2 mtu)) p = Some p' \<and> prefix_mask pre = Some sub \<and>
    Address (ipv4 p') = dotted_value addr \<and> Gateway (ipv4 p') = dotted_value gw \<and>
    DnsPrimary (ipv4 p') = dotted_value d1 \<and> DnsSecondary (ipv4 p') = dotted_value d2 \<and>
    SubnetMask (ipv4 p') = mbim2qmi_ipv4addr sub \<and> (pre < 32 \<longrightarrow> SubnetMask (ipv4 p') \<noteq> sub) \<and>
    Mtu (ipv4 p') = mbim2qmi_ipv4addr mtu \<and> ipv6 p' = ipv6 p"
proof -
  let ?i = "ip4_info pre addr gw d1 d2 mtu" let ?m = "mbim_done tid cid 0 ?i"
  have l: "info_length ?m = Some 80" using ip4_fields(13) [of pre addr gw d1 d2 mtu] by (simp add: done_fields)
  have d: "done_info ?m 4 = Some 15" "done_info ?m 8 = Some 0" "done_info ?m 16 = Some 60" "done_info ?m 28 = Some 68"
    "done_info ?m 36 = Some 2" "done_info ?m 40 = Some 72" "done_info ?m 52 = Some mtu"
    by (simp_all add: done_fields ip4_fields)
  note r = done_rd32 [of tid cid 0 ?i 60, simplified ip4_fields, simplified]
    done_rd32 [of tid cid 0 ?i 64, simplified ip4_fields, simplified]
    done_rd32 [of tid cid 0 ?i 68, simplified ip4_fields, simplified]
    done_rd32 [of tid cid 0 ?i 72, simplified ip4_fields, simplified]
    done_rd32 [of tid cid 0 ?i 76, simplified ip4_fields, simplified]
  obtain sub where sub: "prefix_mask pre = Some sub" using assms by (simp add: prefix_mask_def)
  have "ucast (ucast pre :: u32) = pre" by (rule bit_word_eqI) (simp add: bit_simps)
  then show ?thesis
    using prefix_mask_swapped [OF assms(1) _ sub]
    by (simp add: ip_answer_def l d ip4_config_def if_available_def second_dns_def available_mtu_def r sub or_kept_def
        swap_swap Let_def)
qed

theorem mbim_addresses_from_answer_witness:
  "\<exists>p'. ip_answer (mbim_done 7 15 0 (ip4_info 24 (10, 0, 0, 2) (10, 0, 0, 1) (8, 8, 8, 8) (1, 1, 1, 1) 1500)) profile_zero = Some p' \<and>
     Address (ipv4 p') = dotted_value (10, 0, 0, 2) \<and> SubnetMask (ipv4 p') = 0x00FFFFFF"
  using mbim_addresses_from_answer [of 24 7 15 "(10, 0, 0, 2)" "(10, 0, 0, 1)" "(8, 8, 8, 8)" "(1, 1, 1, 1)" 1500 profile_zero]
  by (auto simp: prefix_mask_def mbim2qmi_ipv4addr_def)

section \<open>The laws of the main loop\<close>

lemma ip4_config_families: "ip4_config m avail (mtu, p) = Some (mtu', p') \<Longrightarrow> same_families p p'"
  by (auto simp: ip4_config_def bind_eq_Some_conv Let_def same_families_def)

lemma ip6_config_families: "ip6_config m avail (mtu, p) = Some (mtu', p') \<Longrightarrow> same_families p p'"
  by (auto simp: ip6_config_def bind_eq_Some_conv Let_def same_families_def)

lemma ip_answer_families:
  assumes "ip_answer m p = Some p'"
  shows "same_families p p'"
proof -
  obtain l where l: "info_length m = Some l" using assms by (auto simp: ip_answer_def bind_eq_Some_conv)
  show ?thesis
  proof (cases "l = 0")
    case True
    then show ?thesis using assms l by (simp add: ip_answer_def)
  next
    case False
    then obtain v4 v6 x y where x: "(if v4 AND 1 \<noteq> 0 then ip4_config m v4 (1500, p) else Some (1500, p)) = Some x"
        "(if v6 AND 1 \<noteq> 0 then ip6_config m v6 x else Some x) = Some y" "p' = snd y"
      using assms l by (auto simp: ip_answer_def bind_eq_Some_conv)
    have "same_families p (snd x)" using x(1) ip4_config_families [of m v4 1500 p "fst x" "snd x"] by (auto split: if_splits)
    moreover have "same_families (snd x) (snd y)"
      using x(2) ip6_config_families [of m v6 "fst x" "snd x" "fst y" "snd y"] by (auto split: if_splits)
    ultimately show ?thesis using x(3) same_families_trans by blast
  qed
qed

lemma setup_families_same: "mbim_requestSetupDataCall w p fam = Some (err, p', w') \<Longrightarrow> p' = p"
  by (auto simp: mbim_requestSetupDataCall_def elim!: bind_pairE)

lemma deactivate_families_same: "mbim_requestDeactivateDefaultPDP w p fam = Some (err, p', w') \<Longrightarrow> p' = p"
  by (auto simp: mbim_requestDeactivateDefaultPDP_def elim!: bind_pairE)

lemma ip_config_families: "mbim_ip_config s p w = Some (err, p', w') \<Longrightarrow> same_families p p'"
proof -
  assume x: "mbim_ip_config s p w = Some (err, p', w')"
  obtain a where a: "basic_query MBIM_CID_IP_CONFIGURATION (le32 (of_int s) @ stack_bytes w 56) w = Some a"
    using x by (auto simp: mbim_ip_config_def bind_eq_Some_conv)
  show ?thesis
  proof (cases a)
    case (Inl y)
    then show ?thesis using x a by (cases y) (simp add: mbim_ip_config_def)
  next
    case (Inr y)
    then show ?thesis using x a
      by (cases y) (auto simp: mbim_ip_config_def bind_eq_Some_conv dest: ip_answer_families)
  qed
qed

interpretation mbim_ops: request_laws mbim_request_ops
  by unfold_locales
    (auto simp: mbim_request_ops_def mbim_requestGetIPAddress_def dest: setup_families_same deactivate_families_same ip_config_families)

end
