(* ===== verification/Mbim_Proxy.thy ===== *)
theory Mbim_Proxy
  imports Mbim_Link
begin

text \<open>
  \<^verbatim>\<open>quectel_cm_5G/src/quectel-mbim-proxy.c\<close>: the program that shares one MBIM device among up to 32
  clients. It puts the number of the client into the upper 8 bits of the transaction number of a
  request and takes it out of the answer. Writes are recorded as handed to \<open>write\<close>, whose result the
  program does not use. \<open>None\<close> is an access outside the receive buffer.
\<close>

section \<open>State\<close>

definition CM_MAX_CLIENT :: nat where "CM_MAX_CLIENT = 32"
definition TID_MASK :: u32 where "TID_MASK = 0xFFFFFF"
definition TID_SHIFT :: nat where "TID_SHIFT = 24"

record cm_client =
  client_fd :: int
  client_idx :: int

record mbim_proxy =
  mbim_server_fd :: int
  cm_clients :: "cm_client list"
  cm_recv_buffer :: bytes
  px_to_dev :: "bytes list"
  px_to_clients :: "(int \<times> bytes) list"

text \<open>As \<open>main\<close> starts it, with the message that opens the device.\<close>

definition px_start :: mbim_proxy where
  "px_start = \<lparr>mbim_server_fd = -1, cm_clients = replicate CM_MAX_CLIENT \<lparr>client_fd = 0, client_idx = 0\<rparr>,
     cm_recv_buffer = replicate 4096 0, px_to_dev = [mbim_header MBIM_OPEN_MSG 16 1 @ le32 4096], px_to_clients = []\<rparr>"

section \<open>Clients\<close>

text \<open>The first slot with a property, counted from \<open>i\<close>.\<close>

fun find_slot :: "(cm_client \<Rightarrow> bool) \<Rightarrow> nat \<Rightarrow> cm_client list \<Rightarrow> nat option" where
  "find_slot P i [] = None"
| "find_slot P i (c # cs) = (if P c then Some i else find_slot P (i + 1) cs)"

definition handle_client_connect :: "int \<Rightarrow> mbim_proxy \<Rightarrow> mbim_proxy" where
  "handle_client_connect fd x =
     (if fd < 0 then x
      else case find_slot (\<lambda>c. client_fd c \<le> 0) 0 (cm_clients x) of
        None \<Rightarrow> x
      | Some i \<Rightarrow> x\<lparr>cm_clients := (cm_clients x)[i := \<lparr>client_fd = fd, client_idx = int i + 1\<rparr>]\<rparr>)"

definition safe_close :: "cm_client \<Rightarrow> cm_client" where
  "safe_close c = (if client_fd c > 0 then c\<lparr>client_fd := -1\<rparr> else c)"

definition handle_client_disconnect :: "int \<Rightarrow> mbim_proxy \<Rightarrow> mbim_proxy" where
  "handle_client_disconnect fd x = (case find_slot (\<lambda>c. client_fd c = fd) 0 (cm_clients x) of
     None \<Rightarrow> x
   | Some i \<Rightarrow> x\<lparr>cm_clients := (cm_clients x)[i := safe_close (cm_clients x ! i)]\<rparr>)"

section \<open>Messages\<close>

definition to_client :: "int \<Rightarrow> bytes \<Rightarrow> mbim_proxy \<Rightarrow> mbim_proxy" where
  "to_client fd m x = x\<lparr>px_to_clients := px_to_clients x @ [(fd, m)]\<rparr>"

text \<open>The transaction number in the receive buffer replaced.\<close>

definition set_tid :: "u32 \<Rightarrow> mbim_proxy \<Rightarrow> mbim_proxy option" where
  "set_tid tid x = do { b \<leftarrow> wrn (cm_recv_buffer x) 8 (le32 tid); Some (x\<lparr>cm_recv_buffer := b\<rparr>) }"

definition handle_client_request :: "int \<Rightarrow> nat \<Rightarrow> mbim_proxy \<Rightarrow> mbim_proxy option" where
  "handle_client_request fd len x = do {
     tid \<leftarrow> msg_tid (cm_recv_buffer x);
     (case find_slot (\<lambda>c. client_fd c = fd) 0 (cm_clients x) of
        None \<Rightarrow> Some x
      | Some i \<Rightarrow> (let idx = client_idx (cm_clients x ! i) in
         if idx = -1 then Some x
         else do {
           ty \<leftarrow> MessageType (cm_recv_buffer x);
           (if ty = MBIM_OPEN_MSG \<or> ty = MBIM_CLOSE_MSG
            then Some (to_client fd (mbim_header (ty OR 0x80000000) 16 tid @ le32 0) x)
            else do {
              x \<leftarrow> set_tid (tid OR push_bit TID_SHIFT (of_int idx)) x;
              m \<leftarrow> rdn (cm_recv_buffer x) 0 len;
              Some (x\<lparr>px_to_dev := px_to_dev x @ [m]\<rparr>) }) })) }"

text \<open>A message without a number goes to every client, an answer to the client its number names.\<close>

fun to_all :: "bytes \<Rightarrow> cm_client list \<Rightarrow> mbim_proxy \<Rightarrow> mbim_proxy" where
  "to_all m [] x = x"
| "to_all m (c # cs) x = to_all m cs (if client_fd c > 0 then to_client (client_fd c) m x else x)"

definition handle_device_response :: "nat \<Rightarrow> mbim_proxy \<Rightarrow> mbim_proxy option" where
  "handle_device_response len x = do {
     tid \<leftarrow> msg_tid (cm_recv_buffer x);
     (if tid = 0 then do { m \<leftarrow> rdn (cm_recv_buffer x) 0 len; Some (to_all m (cm_clients x) x) }
      else let idx = int (unat (drop_bit TID_SHIFT tid)) in
        case find_slot (\<lambda>c. client_idx c = idx \<and> client_fd c > 0) 0 (cm_clients x) of
          None \<Rightarrow> Some x
        | Some i \<Rightarrow> do {
            x \<leftarrow> set_tid (tid AND TID_MASK) x;
            m \<leftarrow> rdn (cm_recv_buffer x) 0 len;
            Some (to_client (client_fd (cm_clients x ! i)) m x) }) }"

section \<open>The loop\<close>

text \<open>What the loop finds: a message or the loss of the device, a new client (the number \<open>accept\<close>
  returns), a message of a client, its hang-up, a failed read from it, or nothing within ten seconds
  while the device is not open. \<open>server\<close> is what the creation of the server's socket returns.\<close>

datatype px_input = Px_Dev bytes | Px_Dev_Lost | Px_Connect int | Px_Msg int bytes | Px_Hangup int
  | Px_Read_Fails int | Px_Nothing

definition px_read :: "bytes \<Rightarrow> mbim_proxy \<Rightarrow> mbim_proxy" where
  "px_read m x = x\<lparr>cm_recv_buffer := take 4096 m @ drop (length m) (cm_recv_buffer x)\<rparr>"

definition px_exit :: "mbim_proxy \<Rightarrow> mbim_proxy" where
  "px_exit x = x\<lparr>mbim_server_fd := (if mbim_server_fd x > 0 then -1 else mbim_server_fd x),
     cm_clients := map safe_close (cm_clients x)\<rparr>"

definition device_opened :: "int \<Rightarrow> mbim_proxy \<Rightarrow> (bool \<times> mbim_proxy) option" where
  "device_opened server x = do {
     ty \<leftarrow> MessageType (cm_recv_buffer x);
     (if ty \<noteq> MBIM_OPEN_DONE then Some (False, x)
      else do { st \<leftarrow> rd32 (cm_recv_buffer x) 12;
        Some (if st \<noteq> 0 then (True, px_exit x) else (False, x\<lparr>mbim_server_fd := server\<rparr>)) }) }"

text \<open>One event; the flag says that the loop is left. A failed read from a client leaves it without
  closing anything else.\<close>

definition px_event :: "int \<Rightarrow> px_input \<Rightarrow> mbim_proxy \<Rightarrow> (bool \<times> mbim_proxy) option" where
  "px_event server e x = (case e of
     Px_Nothing \<Rightarrow> Some (True, px_exit x)
   | Px_Dev_Lost \<Rightarrow> Some (True, px_exit x)
   | Px_Connect fd \<Rightarrow> Some (False, handle_client_connect fd x)
   | Px_Hangup fd \<Rightarrow> Some (False, handle_client_disconnect fd x)
   | Px_Read_Fails fd \<Rightarrow> Some (True, handle_client_disconnect fd x)
   | Px_Dev m \<Rightarrow> (let x = px_read m x in
       if mbim_server_fd x = -1 then device_opened server x
       else map_option (Pair False) (handle_device_response (min 4096 (length m)) x))
   | Px_Msg fd m \<Rightarrow> map_option (Pair False) (handle_client_request fd (min 4096 (length m)) (px_read m x)))"

fun proxy_loop :: "int \<Rightarrow> px_input list \<Rightarrow> mbim_proxy \<Rightarrow> (bool \<times> mbim_proxy) option" where
  "proxy_loop server [] x = Some (False, x)"
| "proxy_loop server (e # es) x = do {
     (left, x) \<leftarrow> px_event server e x;
     (if left then Some (True, x) else proxy_loop server es x) }"

section \<open>The table of clients\<close>

text \<open>Every slot in use has the number of its place, and no descriptor is in two slots.\<close>

definition table_ok :: "cm_client list \<Rightarrow> bool" where
  "table_ok cs \<longleftrightarrow> length cs = CM_MAX_CLIENT \<and>
     (\<forall>i < CM_MAX_CLIENT. client_fd (cs ! i) > 0 \<longrightarrow> client_idx (cs ! i) = int i + 1) \<and>
     (\<forall>i < CM_MAX_CLIENT. \<forall>j < CM_MAX_CLIENT. client_fd (cs ! i) > 0 \<longrightarrow> client_fd (cs ! i) = client_fd (cs ! j) \<longrightarrow> i = j)"

definition px_ok :: "mbim_proxy \<Rightarrow> bool" where
  "px_ok x \<longleftrightarrow> table_ok (cm_clients x) \<and> length (cm_recv_buffer x) = 4096"

lemma table_update:
  assumes "table_ok cs" "k < CM_MAX_CLIENT"
    and "client_fd c > 0 \<Longrightarrow> client_idx c = int k + 1 \<and> (\<forall>j < CM_MAX_CLIENT. j \<noteq> k \<longrightarrow> client_fd (cs ! j) \<noteq> client_fd c)"
  shows "table_ok (cs[k := c])"
proof -
  have l: "length cs = CM_MAX_CLIENT" using assms(1) by (simp add: table_ok_def)
  have n: "cs[k := c] ! i = (if i = k then c else cs ! i)" if "i < CM_MAX_CLIENT" for i
    using that l by (simp add: nth_list_update)
  have "client_idx (cs[k := c] ! i) = int i + 1" if "i < CM_MAX_CLIENT" "client_fd (cs[k := c] ! i) > 0" for i
    using assms that unfolding n [OF that(1)] by (cases "i = k") (simp_all add: table_ok_def)
  moreover have "i = j" if "i < CM_MAX_CLIENT" "j < CM_MAX_CLIENT" "client_fd (cs[k := c] ! i) > 0"
    "client_fd (cs[k := c] ! i) = client_fd (cs[k := c] ! j)" for i j
  proof (cases "i = k \<or> j = k")
    case True
    then show ?thesis using assms(3) that unfolding n [OF that(1)] n [OF that(2)] by (metis (full_types))
  next
    case False
    then show ?thesis using assms(1) that unfolding n [OF that(1)] n [OF that(2)] by (simp add: table_ok_def)
  qed
  ultimately show ?thesis using l by (simp add: table_ok_def)
qed

text \<open>The slot of a client.\<close>

definition has_slot :: "int \<Rightarrow> nat \<Rightarrow> mbim_proxy \<Rightarrow> bool" where
  "has_slot fd i x \<longleftrightarrow> i < CM_MAX_CLIENT \<and> fd > 0 \<and> client_fd (cm_clients x ! i) = fd"

text \<open>The numbers \<open>accept\<close> returns are not in use.\<close>

fun fresh :: "px_input \<Rightarrow> mbim_proxy \<Rightarrow> bool" where
  "fresh (Px_Connect fd) x \<longleftrightarrow> fd \<noteq> 0 \<and> (\<forall>c \<in> set (cm_clients x). client_fd c \<noteq> fd)"
| "fresh e x \<longleftrightarrow> True"

lemma find_slot_Some: "find_slot P k cs = Some i \<Longrightarrow> k \<le> i \<and> i < k + length cs \<and> P (cs ! (i - k))"
proof (induction cs arbitrary: k)
  case (Cons c cs)
  then show ?case
  proof (cases "P c")
    case False
    then have "k + 1 \<le> i \<and> i < k + 1 + length cs \<and> P (cs ! (i - (k + 1)))"
      using Cons.IH [of "k + 1"] Cons.prems by simp
    moreover from this have "i - k = Suc (i - (k + 1))" by linarith
    ultimately show ?thesis by simp
  qed simp
qed simp

lemma find_slot_None: "find_slot P k cs = None \<longleftrightarrow> (\<forall>c \<in> set cs. \<not> P c)"
  by (induction cs arbitrary: k) auto

lemma find_slot_unique:
  assumes "i < length cs" "P (cs ! i)" "\<And>j. j < length cs \<Longrightarrow> P (cs ! j) \<Longrightarrow> j = i"
  shows "find_slot P 0 cs = Some i"
proof (cases "find_slot P 0 cs")
  case None
  then show ?thesis using assms(1,2) by (auto simp: find_slot_None)
next
  case (Some j)
  then show ?thesis using find_slot_Some [OF Some] assms(3) [of j] by simp
qed


lemma close_slot: "client_fd (safe_close c) > 0 \<Longrightarrow> safe_close c = c"
  by (auto simp: safe_close_def split: if_splits)

text \<open>What a step does to the table: a slot is kept, given to a new client, or closed.\<close>

lemma connect_table:
  assumes "px_ok x" "fd \<noteq> 0" "\<forall>c \<in> set (cm_clients x). client_fd c \<noteq> fd"
  shows "px_ok (handle_client_connect fd x) \<and> (has_slot g i x \<longrightarrow> has_slot g i (handle_client_connect fd x)) \<and>
    mbim_server_fd (handle_client_connect fd x) = mbim_server_fd x"
proof (cases "fd < 0 \<or> find_slot (\<lambda>c. client_fd c \<le> 0) 0 (cm_clients x) = None")
  case True
  then show ?thesis using assms(1) by (auto simp: handle_client_connect_def)
next
  case False
  then obtain k where k: "find_slot (\<lambda>c. client_fd c \<le> 0) 0 (cm_clients x) = Some k" "0 \<le> fd" by auto
  have l: "length (cm_clients x) = CM_MAX_CLIENT" using assms(1) by (simp add: px_ok_def table_ok_def)
  have f: "k < CM_MAX_CLIENT" "client_fd (cm_clients x ! k) \<le> 0" using find_slot_Some [OF k(1)] l by simp_all
  have n: "client_fd (cm_clients x ! j) \<noteq> fd" if "j < CM_MAX_CLIENT" for j
    using assms(3) that l by simp
  have e: "handle_client_connect fd x = x\<lparr>cm_clients := (cm_clients x)[k := \<lparr>client_fd = fd, client_idx = int k + 1\<rparr>]\<rparr>"
    using k by (simp add: handle_client_connect_def)
  have "table_ok ((cm_clients x)[k := \<lparr>client_fd = fd, client_idx = int k + 1\<rparr>])"
    by (rule table_update) (use assms(1) f n in \<open>simp_all add: px_ok_def\<close>)
  moreover have "has_slot g i x \<longrightarrow> has_slot g i (handle_client_connect fd x)"
    unfolding e using f l by (cases "i = k") (simp_all add: has_slot_def)
  ultimately show ?thesis using assms(1) by (simp add: e px_ok_def)
qed

lemma disconnect_table:
  assumes "px_ok x"
  shows "px_ok (handle_client_disconnect fd x) \<and> (fd \<noteq> g \<and> has_slot g i x \<longrightarrow> has_slot g i (handle_client_disconnect fd x)) \<and>
    mbim_server_fd (handle_client_disconnect fd x) = mbim_server_fd x"
proof (cases "find_slot (\<lambda>c. client_fd c = fd) 0 (cm_clients x)")
  case None
  then show ?thesis using assms by (simp add: handle_client_disconnect_def)
next
  case (Some k)
  have l: "length (cm_clients x) = CM_MAX_CLIENT" using assms by (simp add: px_ok_def table_ok_def)
  have f: "k < CM_MAX_CLIENT" "client_fd (cm_clients x ! k) = fd" using find_slot_Some [OF Some] l by simp_all
  have e: "handle_client_disconnect fd x = x\<lparr>cm_clients := (cm_clients x)[k := safe_close (cm_clients x ! k)]\<rparr>"
    by (simp add: handle_client_disconnect_def Some)
  have "table_ok ((cm_clients x)[k := safe_close (cm_clients x ! k)])"
    by (rule table_update) (use assms f in \<open>simp_all add: px_ok_def safe_close_def split: if_splits\<close>)
  moreover have "fd \<noteq> g \<and> has_slot g i x \<longrightarrow> has_slot g i (handle_client_disconnect fd x)"
    unfolding e using f l by (cases "i = k") (auto simp: has_slot_def)
  ultimately show ?thesis using assms by (simp add: e px_ok_def)
qed

text \<open>Messages leave the table, the length of the buffer and the server alone.\<close>

definition px_keeps :: "mbim_proxy \<Rightarrow> mbim_proxy \<Rightarrow> bool" where
  "px_keeps x y \<longleftrightarrow> cm_clients y = cm_clients x \<and> mbim_server_fd y = mbim_server_fd x \<and>
     length (cm_recv_buffer y) = length (cm_recv_buffer x)"

lemma keeps_ok:
  "px_keeps x y \<Longrightarrow> px_ok x \<Longrightarrow> px_ok y \<and> (has_slot g i y \<longleftrightarrow> has_slot g i x) \<and> mbim_server_fd y = mbim_server_fd x"
  by (simp add: px_keeps_def px_ok_def has_slot_def)

lemma keeps_trans: "px_keeps x y \<Longrightarrow> px_keeps y z \<Longrightarrow> px_keeps x z"
  by (simp add: px_keeps_def)

lemma set_tid_keeps: "set_tid tid x = Some y \<Longrightarrow> px_keeps x y"
  by (auto simp: set_tid_def px_keeps_def bind_eq_Some_conv dest: wrn_length)

lemma to_all_keeps: "px_keeps x (to_all m cs x)"
proof (induction cs arbitrary: x)
  case (Cons c cs)
  show ?case using Cons [of x] Cons [of "to_client (client_fd c) m x"] by (simp add: px_keeps_def to_client_def)
qed (simp add: px_keeps_def)

lemma request_keeps:
  assumes "handle_client_request fd len x = Some y"
  shows "px_keeps x y"
proof -
  obtain tid where t: "msg_tid (cm_recv_buffer x) = Some tid" using assms by (auto simp: handle_client_request_def bind_eq_Some_conv)
  show ?thesis
  proof (cases "find_slot (\<lambda>c. client_fd c = fd) 0 (cm_clients x)")
    case None
    then show ?thesis using assms t by (simp add: handle_client_request_def px_keeps_def)
  next
    case (Some i)
    have r: "px_keeps z (z\<lparr>px_to_dev := d\<rparr>)" "px_keeps x (to_client fd m x)" for z d m
      by (simp_all add: px_keeps_def to_client_def)
    show ?thesis using assms t Some r set_tid_keeps
      by (auto simp: handle_client_request_def Let_def bind_eq_Some_conv px_keeps_def split: if_splits)
  qed
qed

lemma response_keeps:
  assumes "handle_device_response len x = Some y"
  shows "px_keeps x y"
proof -
  obtain tid where t: "msg_tid (cm_recv_buffer x) = Some tid" using assms by (auto simp: handle_device_response_def bind_eq_Some_conv)
  show ?thesis
  proof (cases "tid = 0 \<or> find_slot (\<lambda>c. client_idx c = int (unat (drop_bit TID_SHIFT tid)) \<and> client_fd c > 0) 0 (cm_clients x) = None")
    case True
    then show ?thesis using assms t to_all_keeps
      by (auto simp: handle_device_response_def bind_eq_Some_conv px_keeps_def Let_def split: if_splits)
  next
    case False
    then obtain i where "find_slot (\<lambda>c. client_idx c = int (unat (drop_bit TID_SHIFT tid)) \<and> client_fd c > 0) 0 (cm_clients x) = Some i"
      by auto
    then obtain z m where "set_tid (tid AND TID_MASK) x = Some z" "y = to_client (client_fd (cm_clients z ! i)) m z"
      using assms t False by (auto simp: handle_device_response_def bind_eq_Some_conv Let_def)
    then show ?thesis using set_tid_keeps by (fastforce simp: px_keeps_def to_client_def)
  qed
qed

lemma read_keeps_px: "length (cm_recv_buffer x) = 4096 \<Longrightarrow> px_keeps x (px_read m x)"
  by (auto simp: px_read_def px_keeps_def)

text \<open>One event that does not leave the loop.\<close>

lemma event_table:
  assumes "px_event server e x = Some (False, y)" "px_ok x" "fresh e x"
  shows "px_ok y \<and> (has_slot g i x \<and> e \<noteq> Px_Hangup g \<longrightarrow> has_slot g i y) \<and>
    (mbim_server_fd x \<noteq> -1 \<longrightarrow> mbim_server_fd y = mbim_server_fd x)"
proof -
  have b: "length (cm_recv_buffer x) = 4096" using assms(2) by (simp add: px_ok_def)
  note r = read_keeps_px [OF b]
  show ?thesis
  proof (cases e)
    case (Px_Dev m)
    have s: "mbim_server_fd (px_read m x) = mbim_server_fd x" by (simp add: px_read_def)
    show ?thesis
    proof (cases "mbim_server_fd x = -1")
      case True
      then have "device_opened server (px_read m x) = Some (False, y)" using assms(1) Px_Dev s by (simp add: px_event_def Let_def)
      then have "cm_clients y = cm_clients (px_read m x) \<and> cm_recv_buffer y = cm_recv_buffer (px_read m x)"
        by (auto simp: device_opened_def bind_eq_Some_conv split: if_splits)
      then show ?thesis using True assms(2) r [of m] by (simp add: px_ok_def has_slot_def px_keeps_def)
    next
      case False
      have "handle_device_response (min 4096 (length m)) (px_read m x) = Some y"
        using assms(1) Px_Dev False s by (auto simp: px_event_def Let_def)
      then show ?thesis using keeps_ok [OF keeps_trans [OF r response_keeps] assms(2)] by blast
    qed
  next
    case (Px_Connect fd)
    then show ?thesis using assms connect_table [OF assms(2), of fd g i] by (simp add: px_event_def)
  next
    case (Px_Msg fd m)
    then have "handle_client_request fd (min 4096 (length m)) (px_read m x) = Some y" using assms(1) by (auto simp: px_event_def)
    then show ?thesis using keeps_ok [OF keeps_trans [OF r request_keeps] assms(2)] by blast
  next
    case (Px_Hangup fd)
    then show ?thesis using assms disconnect_table [OF assms(2), of fd g i] by (auto simp: px_event_def)
  qed (use assms(1) in \<open>simp_all add: px_event_def\<close>)
qed

fun fresh_run :: "int \<Rightarrow> px_input list \<Rightarrow> mbim_proxy \<Rightarrow> bool" where
  "fresh_run server [] x \<longleftrightarrow> True"
| "fresh_run server (e # es) x \<longleftrightarrow> fresh e x \<and>
     (case px_event server e x of Some (False, y) \<Rightarrow> fresh_run server es y | _ \<Rightarrow> True)"

lemma run_table:
  assumes "proxy_loop server es x = Some (False, y)" "px_ok x" "fresh_run server es x"
  shows "px_ok y \<and> (has_slot g i x \<and> Px_Hangup g \<notin> set es \<longrightarrow> has_slot g i y) \<and>
    (mbim_server_fd x \<noteq> -1 \<longrightarrow> mbim_server_fd y = mbim_server_fd x)"
  using assms
proof (induction es arbitrary: x)
  case (Cons e es)
  obtain z where z: "px_event server e x = Some (False, z)" "proxy_loop server es z = Some (False, y)"
    using Cons.prems(1) by (auto elim!: bind_pairE split: if_splits)
  then have "fresh e x" "fresh_run server es z" using Cons.prems(3) by simp_all
  then show ?case using event_table [OF z(1) Cons.prems(2), of g i] Cons.IH [OF z(2)] by auto
qed simp

lemma start_ok: "px_ok px_start"
  by (simp add: px_ok_def table_ok_def px_start_def)

section \<open>Routing\<close>

text \<open>The number of a request and of its client in one word.\<close>

definition joined_tid :: "u32 \<Rightarrow> nat \<Rightarrow> u32" where
  "joined_tid t i = t OR push_bit TID_SHIFT (of_nat (i + 1))"

lemma small_word: "k < 256 \<Longrightarrow> take_bit 8 (of_nat k :: u32) = of_nat k"
  by (simp add: take_bit_of_nat take_bit_nat_eq_self)

lemma small_unat: "k < 256 \<Longrightarrow> unat (of_nat k :: u32) = k"
  by (simp only: unat_of_nat) (simp add: take_bit_nat_eq_self)

lemma join_words:
  fixes t k :: u32
  assumes "take_bit 24 t = t" "take_bit 8 k = k"
  shows "drop_bit 24 (t OR push_bit 24 k) = k" "take_bit 24 (t OR push_bit 24 k) = t"
proof -
  have t: "\<not> bit t n" if "24 \<le> n" for n using assms(1) that by (metis bit_take_bit_iff not_less)
  have k: "\<not> bit k n" if "8 \<le> n" for n using assms(2) that by (metis bit_take_bit_iff not_less)
  show "drop_bit 24 (t OR push_bit 24 k) = k"
  proof (rule bit_word_eqI)
    fix n assume "n < LENGTH(32)"
    then show "bit (drop_bit 24 (t OR push_bit 24 k)) n = bit k n"
      using t [of "24 + n"] k [of n] by (cases "8 \<le> n") (auto simp: bit_drop_bit_eq bit_or_iff bit_push_bit_iff)
  qed
  show "take_bit 24 (t OR push_bit 24 k) = t"
  proof (rule bit_word_eqI)
    fix n assume "n < LENGTH(32)"
    then show "bit (take_bit 24 (t OR push_bit 24 k)) n = bit t n"
      using t [of n] by (auto simp: bit_take_bit_iff bit_or_iff bit_push_bit_iff)
  qed
qed

lemma tid_mask: "w AND TID_MASK = take_bit 24 w"
  by (simp add: TID_MASK_def take_bit_eq_mask mask_eq_exp_minus_1)

lemma joined_parts:
  assumes "t AND TID_MASK = t" "i < CM_MAX_CLIENT"
  shows "unat (drop_bit TID_SHIFT (joined_tid t i)) = i + 1" "joined_tid t i AND TID_MASK = t" "joined_tid t i \<noteq> 0"
proof -
  have k: "i + 1 < 256" using assms(2) by (simp add: CM_MAX_CLIENT_def)
  note j = join_words [OF assms(1) [unfolded tid_mask] small_word [OF k]]
  show d: "unat (drop_bit TID_SHIFT (joined_tid t i)) = i + 1"
    unfolding joined_tid_def TID_SHIFT_def j(1) by (rule small_unat [OF k])
  show "joined_tid t i AND TID_MASK = t" unfolding joined_tid_def TID_SHIFT_def tid_mask by (rule j(2))
  show "joined_tid t i \<noteq> 0"
  proof
    assume "joined_tid t i = 0"
    with d show False by simp
  qed
qed

lemma buffer_set: "cm_recv_buffer (x\<lparr>cm_recv_buffer := b\<rparr>) = b"
  by simp

lemma wrn_field: "length u = j \<Longrightarrow> wrn (u @ le32 t @ r) j (le32 t') = Some (u @ le32 t' @ r)"
  by (simp add: wrn_def)

lemma tid_field: "length u = 8 \<Longrightarrow> msg_tid (u @ le32 t @ r) = Some t"
  using rd32_append [of u "le32 t @ r" 0] by (simp add: msg_tid_def rd32_le32)

lemma read_whole: "length m \<le> 4096 \<Longrightarrow> cm_recv_buffer (px_read m x) = m @ drop (length m) (cm_recv_buffer x)"
  by (simp add: px_read_def)

lemma slot_of_client:
  assumes "px_ok x" "has_slot fd i x"
  shows "find_slot (\<lambda>c. client_fd c = fd) 0 (cm_clients x) = Some i" "client_idx (cm_clients x ! i) = int i + 1"
    "find_slot (\<lambda>c. client_idx c = int i + 1 \<and> client_fd c > 0) 0 (cm_clients x) = Some i"
proof -
  have l: "length (cm_clients x) = CM_MAX_CLIENT" using assms(1) by (simp add: px_ok_def table_ok_def)
  have s: "i < CM_MAX_CLIENT" "fd > 0" "client_fd (cm_clients x ! i) = fd" using assms(2) by (simp_all add: has_slot_def)
  have n: "client_idx (cm_clients x ! j) = int j + 1" if "j < CM_MAX_CLIENT" "client_fd (cm_clients x ! j) > 0" for j
    using assms(1) that by (simp add: px_ok_def table_ok_def)
  have u: "i = j" if "j < CM_MAX_CLIENT" "client_fd (cm_clients x ! i) = client_fd (cm_clients x ! j)" for j
    using assms(1) s that by (simp add: px_ok_def table_ok_def)
  show "find_slot (\<lambda>c. client_fd c = fd) 0 (cm_clients x) = Some i"
  proof (rule find_slot_unique)
    fix j assume "j < length (cm_clients x)" "client_fd (cm_clients x ! j) = fd"
    then show "j = i" using u [of j] s l by simp
  qed (use l s in simp_all)
  show "client_idx (cm_clients x ! i) = int i + 1" using n s by simp
  show "find_slot (\<lambda>c. client_idx c = int i + 1 \<and> client_fd c > 0) 0 (cm_clients x) = Some i"
  proof (rule find_slot_unique)
    fix j assume "j < length (cm_clients x)" "client_idx (cm_clients x ! j) = int i + 1 \<and> client_fd (cm_clients x ! j) > 0"
    then show "j = i" using n [of j] l by simp
  qed (use l s n [of i] in simp_all)
qed

text \<open>A request of a client with a slot, and an answer to it.\<close>

lemma request_step:
  assumes "msg_tid (cm_recv_buffer x) = Some tid" "find_slot (\<lambda>c. client_fd c = fd) 0 (cm_clients x) = Some i"
    "client_idx (cm_clients x ! i) = int i + 1" "MessageType (cm_recv_buffer x) = Some ty" "ty \<noteq> MBIM_OPEN_MSG" "ty \<noteq> MBIM_CLOSE_MSG"
    "set_tid (joined_tid tid i) x = Some y" "rdn (cm_recv_buffer y) 0 n = Some m"
  shows "handle_client_request fd n x = Some (y\<lparr>px_to_dev := px_to_dev y @ [m]\<rparr>)"
proof -
  have j: "tid OR push_bit TID_SHIFT (of_int (int i + 1)) = joined_tid tid i" by (simp add: joined_tid_def add.commute)
  have n: "int i + 1 \<noteq> -1" by simp
  show ?thesis
    unfolding handle_client_request_def Let_def assms(1,2,3,4) bind.bind_lunit option.case j assms(7,8)
    using n assms(5,6) by simp
qed

lemma response_step:
  assumes "msg_tid (cm_recv_buffer x) = Some tid" "tid \<noteq> 0"
    "find_slot (\<lambda>c. client_idx c = int (unat (drop_bit TID_SHIFT tid)) \<and> client_fd c > 0) 0 (cm_clients x) = Some i"
    "set_tid (tid AND TID_MASK) x = Some y" "rdn (cm_recv_buffer y) 0 n = Some m" "client_fd (cm_clients y ! i) = fd"
  shows "handle_device_response n x = Some (to_client fd m y)"
  unfolding handle_device_response_def Let_def assms(1) bind.bind_lunit assms(3) option.case assms(4) assms(5) assms(6)
  using assms(2) by simp

lemma request_forwarded:
  assumes "px_ok x" "has_slot fd i x" "length u = 8" "rd32 u 0 = Some ty" "ty \<noteq> MBIM_OPEN_MSG" "ty \<noteq> MBIM_CLOSE_MSG"
    "length (u @ le32 t @ r) \<le> 4096"
  shows "\<exists>b. px_event server (Px_Msg fd (u @ le32 t @ r)) x =
    Some (False, x\<lparr>cm_recv_buffer := b, px_to_dev := px_to_dev x @ [u @ le32 (joined_tid t i) @ r]\<rparr>)"
proof -
  let ?m = "u @ le32 t @ r" and ?m' = "u @ le32 (joined_tid t i) @ r"
  let ?d = "drop (length ?m) (cm_recv_buffer x)" and ?y = "px_read ?m x"
  have b: "cm_recv_buffer ?y = u @ le32 t @ (r @ ?d)" using read_whole [OF assms(7), of x] by (simp only: append_assoc)
  have c: "cm_clients ?y = cm_clients x" "px_to_dev ?y = px_to_dev x" by (simp_all add: px_read_def)
  have ty: "MessageType (cm_recv_buffer ?y) = Some ty"
    unfolding b MessageType_def using rd32_prefix [of 0 u "le32 t @ r @ ?d"] assms(3,4) by simp
  have t: "set_tid (joined_tid t i) ?y = Some (?y\<lparr>cm_recv_buffer := ?m' @ ?d\<rparr>)"
    by (simp add: set_tid_def b wrn_field [OF assms(3)])
  have tf: "msg_tid (cm_recv_buffer ?y) = Some t" unfolding b by (rule tid_field [OF assms(3)])
  have r: "rdn (cm_recv_buffer (?y\<lparr>cm_recv_buffer := ?m' @ ?d\<rparr>)) 0 (length ?m) = Some ?m'"
    unfolding buffer_set by (rule rdn_prefix) simp
  have f: "find_slot (\<lambda>c. client_fd c = fd) 0 (cm_clients ?y) = Some i" "client_idx (cm_clients ?y ! i) = int i + 1"
    unfolding c using slot_of_client [OF assms(1,2)] by simp_all
  have "handle_client_request fd (length ?m) ?y =
      Some (?y\<lparr>cm_recv_buffer := ?m' @ ?d, px_to_dev := px_to_dev x @ [?m']\<rparr>)"
    using request_step [OF tf f ty assms(5,6) t r] by (simp only: c mbim_proxy.simps mbim_proxy.update_convs) (simp add: c)
  moreover have "min 4096 (length ?m) = length ?m" using assms(7) by simp
  ultimately show ?thesis by (auto simp: px_event_def px_read_def simp del: length_append append_assoc)
qed

lemma answer_delivered:
  assumes "px_ok x" "has_slot fd i x" "mbim_server_fd x \<noteq> -1" "t AND TID_MASK = t" "length u = 8"
    "length (u @ le32 (joined_tid t i) @ r) \<le> 4096"
  shows "\<exists>b. px_event server (Px_Dev (u @ le32 (joined_tid t i) @ r)) x =
    Some (False, x\<lparr>cm_recv_buffer := b, px_to_clients := px_to_clients x @ [(fd, u @ le32 t @ r)]\<rparr>)"
proof -
  let ?m = "u @ le32 (joined_tid t i) @ r" and ?m' = "u @ le32 t @ r"
  let ?d = "drop (length ?m) (cm_recv_buffer x)" and ?y = "px_read ?m x"
  have i: "i < CM_MAX_CLIENT" "client_fd (cm_clients x ! i) = fd" using assms(2) by (simp_all add: has_slot_def)
  note p = joined_parts [OF assms(4) i(1)]
  have b: "cm_recv_buffer ?y = u @ le32 (joined_tid t i) @ (r @ ?d)" using read_whole [OF assms(6), of x] by (simp only: append_assoc)
  have c: "cm_clients ?y = cm_clients x" "px_to_clients ?y = px_to_clients x" "mbim_server_fd ?y = mbim_server_fd x"
    by (simp_all add: px_read_def)
  have t: "set_tid t ?y = Some (?y\<lparr>cm_recv_buffer := ?m' @ ?d\<rparr>)"
    by (simp add: set_tid_def b wrn_field [OF assms(5)])
  have s: "find_slot (\<lambda>c. client_idx c = int (unat (drop_bit TID_SHIFT (joined_tid t i))) \<and> client_fd c > 0) 0 (cm_clients ?y) = Some i"
    unfolding p c using slot_of_client(3) [OF assms(1,2)] by (simp add: add.commute)
  have tf: "msg_tid (cm_recv_buffer ?y) = Some (joined_tid t i)" unfolding b by (rule tid_field [OF assms(5)])
  have r: "rdn (cm_recv_buffer (?y\<lparr>cm_recv_buffer := ?m' @ ?d\<rparr>)) 0 (length ?m) = Some ?m'"
    unfolding buffer_set by (rule rdn_prefix) simp
  have f: "client_fd (cm_clients (?y\<lparr>cm_recv_buffer := ?m' @ ?d\<rparr>) ! i) = fd" using i(2) c(1) by simp
  have "handle_device_response (length ?m) ?y = Some (to_client fd ?m' (?y\<lparr>cm_recv_buffer := ?m' @ ?d\<rparr>))"
    by (rule response_step [OF tf p(3) s _ r f]) (simp only: p(2) t)
  moreover have "min 4096 (length ?m) = length ?m" using assms(6) by simp
  ultimately show ?thesis using assms(3) c(3)
    by (auto simp: px_event_def Let_def to_client_def px_read_def simp del: length_append append_assoc)
qed

lemma mbim_start_reaches:
  assumes "proxy_loop server es px_start = Some (False, x)" "fresh_run server es px_start"
  shows "px_ok x"
  using run_table [OF assms(1) start_ok assms(2)] by blast

text \<open>Property C8: once the device is open, a request of a connected client goes to the device with the client's number in
  the upper 8 bits of the transaction number and nothing else changed, and whatever happens afterwards
  (other clients come, go and make requests) until that client hangs up, the device's answer with that
  number goes to that client and to no other, with the number the client had chosen.\<close>

theorem mbim_proxy_routes_answers:
  assumes "proxy_loop server es px_start = Some (False, x)" "fresh_run server es px_start"
    and "mbim_server_fd x \<noteq> -1" "has_slot fd i x"
    and "length u = 8" "rd32 u 0 = Some ty" "ty \<noteq> MBIM_OPEN_MSG" "ty \<noteq> MBIM_CLOSE_MSG" "t AND TID_MASK = t"
    and "length (u @ le32 t @ r) \<le> 4096"
  shows "\<exists>y. px_event server (Px_Msg fd (u @ le32 t @ r)) x = Some (False, y) \<and>
      px_to_dev y = px_to_dev x @ [u @ le32 (joined_tid t i) @ r] \<and> px_to_clients y = px_to_clients x \<and>
      (\<forall>es' z v a. proxy_loop server es' y = Some (False, z) \<longrightarrow> fresh_run server es' y \<longrightarrow> Px_Hangup fd \<notin> set es' \<longrightarrow>
        length v = 8 \<longrightarrow> length (v @ le32 (joined_tid t i) @ a) \<le> 4096 \<longrightarrow>
        (\<exists>w. px_event server (Px_Dev (v @ le32 (joined_tid t i) @ a)) z = Some (False, w) \<and>
          px_to_clients w = px_to_clients z @ [(fd, v @ le32 t @ a)] \<and> px_to_dev w = px_to_dev z))"
proof -
  have ok: "px_ok x" by (rule mbim_start_reaches [OF assms(1,2)])
  obtain b where y: "px_event server (Px_Msg fd (u @ le32 t @ r)) x =
      Some (False, x\<lparr>cm_recv_buffer := b, px_to_dev := px_to_dev x @ [u @ le32 (joined_tid t i) @ r]\<rparr>)"
    using request_forwarded [OF ok assms(4-8,10)] by blast
  define y where "y = x\<lparr>cm_recv_buffer := b, px_to_dev := px_to_dev x @ [u @ le32 (joined_tid t i) @ r]\<rparr>"
  have ev: "px_event server (Px_Msg fd (u @ le32 t @ r)) x = Some (False, y)" using y by (simp only: y_def)
  have t: "px_ok y" "has_slot fd i y" "mbim_server_fd y \<noteq> -1"
    using event_table [OF ev ok, of fd i] assms(3,4) by simp_all
  have later: "\<exists>w. px_event server (Px_Dev (v @ le32 (joined_tid t i) @ a)) z = Some (False, w) \<and>
      px_to_clients w = px_to_clients z @ [(fd, v @ le32 t @ a)] \<and> px_to_dev w = px_to_dev z"
    if "proxy_loop server es' y = Some (False, z)" "fresh_run server es' y" "Px_Hangup fd \<notin> set es'"
      "length v = 8" "length (v @ le32 (joined_tid t i) @ a) \<le> 4096" for es' z v a
  proof -
    have "px_ok z" "has_slot fd i z" "mbim_server_fd z \<noteq> -1"
      using run_table [OF that(1) t(1) that(2), of fd i] t that(3) by simp_all
    from answer_delivered [OF this assms(9) that(4,5), of server] show ?thesis by fastforce
  qed
  show ?thesis using ev later by (intro exI [of _ y]) (simp add: y_def)
qed

text \<open>Property C31: a client that leaves while its request is at the device leaves its number to the next client,
  which is given the answer as if it were its own.\<close>

theorem mbim_next_client_gets_answer:
  assumes "proxy_loop server es px_start = Some (False, x)" "fresh_run server es px_start"
    and "mbim_server_fd x \<noteq> -1" "has_slot fd 0 x" "fd' > 0" "\<forall>c \<in> set (cm_clients x). client_fd c \<noteq> fd'"
    and "length u = 8" "rd32 u 0 = Some ty" "ty \<noteq> MBIM_OPEN_MSG" "ty \<noteq> MBIM_CLOSE_MSG" "t AND TID_MASK = t"
    and "length (u @ le32 t @ r) \<le> 4096" "length v = 8" "length (v @ le32 (joined_tid t 0) @ a) \<le> 4096"
  shows "\<exists>y. proxy_loop server [Px_Msg fd (u @ le32 t @ r), Px_Hangup fd, Px_Connect fd', Px_Dev (v @ le32 (joined_tid t 0) @ a)] x =
      Some (False, y) \<and> px_to_clients y = px_to_clients x @ [(fd', v @ le32 t @ a)] \<and>
      px_to_dev y = px_to_dev x @ [u @ le32 (joined_tid t 0) @ r]"
proof -
  have ok: "px_ok x" by (rule mbim_start_reaches [OF assms(1,2)])
  obtain b where b: "px_event server (Px_Msg fd (u @ le32 t @ r)) x =
      Some (False, x\<lparr>cm_recv_buffer := b, px_to_dev := px_to_dev x @ [u @ le32 (joined_tid t 0) @ r]\<rparr>)"
    using request_forwarded [OF ok assms(4) assms(7-10,12)] by blast
  define x1 where "x1 = x\<lparr>cm_recv_buffer := b, px_to_dev := px_to_dev x @ [u @ le32 (joined_tid t 0) @ r]\<rparr>"
  define x2 where "x2 = handle_client_disconnect fd x1"
  define x3 where "x3 = handle_client_connect fd' x2"
  have e1: "px_event server (Px_Msg fd (u @ le32 t @ r)) x = Some (False, x1)" using b by (simp only: x1_def)
  have t1: "px_ok x1" "has_slot fd 0 x1" "mbim_server_fd x1 \<noteq> -1"
    using event_table [OF e1 ok, of fd 0] assms(3,4) by simp_all
  have l: "length (cm_clients x1) = CM_MAX_CLIENT" "cm_clients x1 = cm_clients x"
    using t1 by (simp_all add: px_ok_def table_ok_def x1_def)
  have p: "0 < CM_MAX_CLIENT" by (simp add: CM_MAX_CLIENT_def)
  have x2: "x2 = x1\<lparr>cm_clients := (cm_clients x1)[0 := safe_close (cm_clients x1 ! 0)]\<rparr>"
    by (simp add: x2_def handle_client_disconnect_def slot_of_client(1) [OF t1(1,2)])
  have c2: "client_fd (cm_clients x2 ! 0) = -1" using t1(2) l p by (simp add: x2 safe_close_def has_slot_def)
  have t2: "px_ok x2" "mbim_server_fd x2 \<noteq> -1" using disconnect_table [OF t1(1), of fd] t1 by (simp_all add: x2_def)
  have f2: "client_fd c \<noteq> fd'" if "c \<in> set (cm_clients x2)" for c
  proof -
    have "cm_clients x2 = (cm_clients x)[0 := safe_close (cm_clients x ! 0)]" by (simp add: x2 l(2))
    then have "c \<in> insert (safe_close (cm_clients x ! 0)) (set (cm_clients x))" using that set_update_subset_insert by fastforce
    moreover have "cm_clients x ! 0 \<in> set (cm_clients x)" using l p by simp
    ultimately show ?thesis using assms(5,6) by (auto simp: safe_close_def split: if_splits)
  qed
  have s: "find_slot (\<lambda>c. client_fd c \<le> 0) 0 (cm_clients x2) = Some 0"
    using c2 t2(1) p by (cases "cm_clients x2") (auto simp: px_ok_def table_ok_def)
  have x3: "x3 = x2\<lparr>cm_clients := (cm_clients x2)[0 := \<lparr>client_fd = fd', client_idx = int 0 + 1\<rparr>]\<rparr>"
    using assms(5) by (simp only: x3_def handle_client_connect_def s) simp
  have t3: "px_ok x3" "mbim_server_fd x3 \<noteq> -1"
    using connect_table [OF t2(1), of fd'] f2 t2(2) assms(5) by (auto simp: x3_def)
  have h3: "has_slot fd' 0 x3" using t2(1) p assms(5) by (simp add: has_slot_def x3 px_ok_def table_ok_def)
  obtain b' where e4: "px_event server (Px_Dev (v @ le32 (joined_tid t 0) @ a)) x3 =
      Some (False, x3\<lparr>cm_recv_buffer := b', px_to_clients := px_to_clients x3 @ [(fd', v @ le32 t @ a)]\<rparr>)"
    using answer_delivered [OF t3(1) h3 t3(2) assms(11,13,14)] by blast
  have "px_event server (Px_Hangup fd) x1 = Some (False, x2)" "px_event server (Px_Connect fd') x2 = Some (False, x3)"
    by (simp_all add: px_event_def x2_def x3_def)
  then show ?thesis using e1 e4 by (simp add: x3 x2 x1_def)
qed

text \<open>An open device and one client.\<close>

definition demo_events :: "px_input list" where
  "demo_events = [Px_Dev (mbim_header MBIM_OPEN_DONE 16 1 @ le32 0), Px_Connect 5]"

definition demo_proxy :: mbim_proxy where
  "demo_proxy = handle_client_connect 5 ((px_read (mbim_header MBIM_OPEN_DONE 16 1 @ le32 0) px_start)\<lparr>mbim_server_fd := 3\<rparr>)"

lemma demo_runs: "proxy_loop 3 demo_events px_start = Some (False, demo_proxy)" "fresh_run 3 demo_events px_start"
proof -
  let ?m = "mbim_header MBIM_OPEN_DONE 16 1 @ le32 0"
  let ?y = "(px_read ?m px_start)\<lparr>mbim_server_fd := 3\<rparr>"
  have b: "cm_recv_buffer (px_read ?m px_start) = ?m @ drop 16 (cm_recv_buffer px_start)" by (simp add: px_read_def)
  have "MessageType (cm_recv_buffer (px_read ?m px_start)) = Some MBIM_OPEN_DONE"
    using header_fields(1) [of MBIM_OPEN_DONE 16 1 "le32 0 @ drop 16 (cm_recv_buffer px_start)"]
    by (simp only: b append_assoc MessageType_def)
  moreover have "rd32 (cm_recv_buffer (px_read ?m px_start)) 12 = Some 0"
    unfolding b append_assoc using rd32_append [of "mbim_header MBIM_OPEN_DONE 16 1" "le32 0 @ drop 16 (cm_recv_buffer px_start)" 0]
    by (simp add: rd32_le32)
  ultimately have e1: "px_event 3 (Px_Dev ?m) px_start = Some (False, ?y)"
    by (simp add: px_event_def Let_def device_opened_def px_read_def px_start_def)
  have e2: "px_event 3 (Px_Connect 5) ?y = Some (False, demo_proxy)" by (simp add: px_event_def demo_proxy_def)
  show "proxy_loop 3 demo_events px_start = Some (False, demo_proxy)" using e1 e2 by (simp add: demo_events_def)
  show "fresh_run 3 demo_events px_start" using e1 e2 by (simp add: demo_events_def px_read_def px_start_def)
qed

lemma demo_slot: "has_slot 5 0 demo_proxy" "mbim_server_fd demo_proxy \<noteq> -1" "\<forall>c \<in> set (cm_clients demo_proxy). client_fd c \<noteq> 6"
proof -
  have r: "replicate CM_MAX_CLIENT c = c # replicate 31 c" for c :: cm_client
    using replicate_Suc [of 31 c] by (simp add: CM_MAX_CLIENT_def)
  have "cm_clients demo_proxy = \<lparr>client_fd = 5, client_idx = 1\<rparr> # replicate 31 \<lparr>client_fd = 0, client_idx = 0\<rparr>"
    by (simp add: demo_proxy_def handle_client_connect_def px_read_def px_start_def r)
  then show "has_slot 5 0 demo_proxy" "\<forall>c \<in> set (cm_clients demo_proxy). client_fd c \<noteq> 6"
    by (simp_all add: has_slot_def CM_MAX_CLIENT_def)
  show "mbim_server_fd demo_proxy \<noteq> -1"
    by (simp add: demo_proxy_def handle_client_connect_def px_read_def px_start_def r)
qed

theorem mbim_proxy_routes_answers_witness:
  "\<exists>y. px_event 3 (Px_Msg 5 (([3, 0, 0, 0] @ [12, 0, 0, 0]) @ le32 7 @ [])) demo_proxy = Some (False, y) \<and>
    px_to_dev y = px_to_dev demo_proxy @ [[3, 0, 0, 0, 12, 0, 0, 0, 7, 0, 0, 1]]"
proof -
  have "rd32 ([3, 0, 0, 0] @ [12, 0, 0, 0]) 0 = Some 3" "(7 :: u32) AND TID_MASK = 7"
    "le32 (joined_tid 7 0) = [7, 0, 0, 1]" by code_simp+
  then show ?thesis
    using mbim_proxy_routes_answers [OF demo_runs demo_slot(2,1), of "[3, 0, 0, 0] @ [12, 0, 0, 0]" 3 7 "[]"]
    by (simp add: MBIM_OPEN_MSG_def MBIM_CLOSE_MSG_def) blast
qed

theorem mbim_next_client_gets_answer_witness:
  "\<exists>y. proxy_loop 3 [Px_Msg 5 (([3, 0, 0, 0] @ [12, 0, 0, 0]) @ le32 7 @ []), Px_Hangup 5, Px_Connect 6,
      Px_Dev (([3, 0, 0, 128] @ [16, 0, 0, 0]) @ le32 (joined_tid 7 0) @ [1, 2, 3, 4])] demo_proxy = Some (False, y) \<and>
    px_to_clients y = px_to_clients demo_proxy @ [(6, [3, 0, 0, 128, 16, 0, 0, 0, 7, 0, 0, 0, 1, 2, 3, 4])]"
proof -
  have "rd32 ([3, 0, 0, 0] @ [12, 0, 0, 0]) 0 = Some 3" "(7 :: u32) AND TID_MASK = 7" "le32 7 = [7, 0, 0, 0]" by code_simp+
  then show ?thesis
    using mbim_next_client_gets_answer [OF demo_runs demo_slot(2,1) _ demo_slot(3),
        of "[3, 0, 0, 0] @ [12, 0, 0, 0]" 3 7 "[]" "[3, 0, 0, 128] @ [16, 0, 0, 0]" "[1, 2, 3, 4]"]
    by (simp add: MBIM_OPEN_MSG_def MBIM_CLOSE_MSG_def) blast
qed

end
