(* ===== verification/Util.thy ===== *)
theory Util
  imports Profile
begin

text \<open>
  \<^verbatim>\<open>quectel_cm_5G/src/util.c\<close>: the timed wait every request of the connection manager uses, the
  rewriting of \<^verbatim>\<open>/etc/resolv.conf\<close>, the name copy and the driver's QMAP report. A path is absent,
  denied, or a file that can be read; its text holds no zero character.
\<close>

datatype path_state = Absent | Denied | Present string

section \<open>Timed wait\<close>

text \<open>The point in time \<open>msec\<close> after \<open>sec\<close> and \<open>usec\<close>, in seconds and nanoseconds.\<close>

definition setTimespecRelative :: "int \<Rightarrow> int \<Rightarrow> int \<Rightarrow> int \<times> int" where
  "setTimespecRelative sec usec msec =
     (let s = sec + c_div msec 1000;
          ns = (usec + c_mod msec 1000 * 1000) * 1000
      in if 1000000000 \<le> ns mod 2 ^ 64 then (s + 1, ns - 1000000000) else (s, ns))"

text \<open>The waits end as \<open>w\<close> says, one after the other. Beside the result, the number of waits.\<close>

partial_function (option) wait_loop :: "(nat \<Rightarrow> int) \<Rightarrow> u32 \<Rightarrow> u32 \<Rightarrow> u32 \<Rightarrow> nat \<Rightarrow> int \<Rightarrow> (int \<times> nat) option" where
  "wait_loop w msecs t i k ret =
     (if i < msecs
      then (if w k \<noteq> ETIMEDOUT then Some (w k, k + 1) else wait_loop w msecs t (i + t) (k + 1) (w k))
      else Some (ret, k))"

definition wait_step :: "u32 \<Rightarrow> u32" where
  "wait_step msecs = (if msecs div 4 = 0 then 1 else msecs div 4)"

definition pthread_cond_timeout_np :: "(nat \<Rightarrow> int) \<Rightarrow> u32 \<Rightarrow> (int \<times> nat) option" where
  "pthread_cond_timeout_np w msecs =
     (if msecs \<noteq> 0 then wait_loop w msecs (wait_step msecs) 0 0 0 else Some (w 0, 1))"

definition clock_msec :: "int \<Rightarrow> int \<Rightarrow> int" where
  "clock_msec sec nsec = (sec * 1000 + nsec div 1000000) mod 2 ^ 64"

section \<open>Name servers\<close>

definition NL :: char where "NL = CHR 0x0A"
definition MAX_DNS :: nat where "MAX_DNS = 16"

text \<open>At most \<open>k\<close> characters, up to and with the end of the line; the rest.\<close>

fun c_fgets :: "nat \<Rightarrow> string \<Rightarrow> string \<times> string" where
  "c_fgets 0 s = ([], s)"
| "c_fgets (Suc k) [] = ([], [])"
| "c_fgets (Suc k) (c # s) = (if c = NL then ([c], s) else let (a, r) = c_fgets k s in (c # a, r))"

definition chomp :: "string \<Rightarrow> string" where
  "chomp l = (if length l > 1 \<and> last l = NL then butlast l else l)"

definition dns_tag :: "int \<Rightarrow> string \<Rightarrow> string" where
  "dns_tag v ifname = c_snprintf 64 (''# IPV'' @ show_int v @ '' '' @ ifname)"

definition has_tag :: "string \<Rightarrow> string \<Rightarrow> bool" where
  "has_tag tag l \<longleftrightarrow> c_strstr l tag \<noteq> None"

lemma fgets_shrinks: "s \<noteq> [] \<Longrightarrow> 0 < k \<Longrightarrow> length (snd (c_fgets k s)) < length s"
proof -
  have "length (snd (c_fgets k s)) \<le> length s" for k s
    by (induction k s rule: c_fgets.induct) (simp_all add: Let_def case_prod_beta le_Suc_eq)
  then show "s \<noteq> [] \<Longrightarrow> 0 < k \<Longrightarrow> length (snd (c_fgets k s)) < length s"
    by (cases k; cases s) (simp_all add: Let_def case_prod_beta le_imp_less_Suc)
qed

text \<open>The lines that are kept, \<open>room\<close> at most, and the number of lines with the tag.\<close>

function read_dns :: "string \<Rightarrow> nat \<Rightarrow> string \<Rightarrow> nat \<times> string list" where
  "read_dns tag room s =
     (if s = [] then (0, [])
      else let l = chomp (fst (c_fgets 254 s)); r = snd (c_fgets 254 s) in
        if has_tag tag l then (let (m, ls) = read_dns tag room r in (m + 1, ls))
        else if room = 1 then (0, [l])
        else let (m, ls) = read_dns tag (room - 1) r in (m, l # ls))"
  by auto

termination by (relation "measure (\<lambda>(tag, room, s). length s)") (simp_all add: fgets_shrinks)

declare read_dns.simps [simp del]

definition nameserver_line :: "string \<Rightarrow> string \<Rightarrow> string" where
  "nameserver_line dns tag = ''nameserver '' @ dns @ '' '' @ tag"

definition opt_list :: "'a option \<Rightarrow> 'a list" where
  "opt_list x = (case x of None \<Rightarrow> [] | Some a \<Rightarrow> [a])"

definition text_of :: "string list \<Rightarrow> string" where
  "text_of ls = concat (map (\<lambda>l. l @ [NL]) ls)"

text \<open>\<open>writable\<close> says whether the file can be opened for writing.\<close>

definition update_resolv_conf ::
  "bool \<Rightarrow> int \<Rightarrow> string \<Rightarrow> string option \<Rightarrow> string option \<Rightarrow> path_state \<Rightarrow> path_state" where
  "update_resolv_conf writable v ifname dns1 dns2 f =
     (if f = Denied then f
      else let tag = dns_tag v ifname;
               (m, ls) = (case f of Present s \<Rightarrow> read_dns tag MAX_DNS s | _ \<Rightarrow> (0, [])) in
        if dns1 = None \<and> m = 0 then f
        else if writable
        then Present (text_of (map (\<lambda>d. nameserver_line d tag) (opt_list dns1 @ opt_list dns2) @ ls))
        else f)"

section \<open>Names and the driver\<close>

text \<open>What is stored in \<open>dest\<close> from its start; \<open>None\<close> when it is too small for the final zero.\<close>

definition no_trunc_strncpy :: "string \<Rightarrow> string \<Rightarrow> nat \<Rightarrow> string option" where
  "no_trunc_strncpy dest src dest_size =
     (let t = take dest_size src in
      if length t < length dest then Some (t @ CHR 0x00 # drop (length t + 1) dest) else None)"

definition IFNAMSIZ :: nat where "IFNAMSIZ = 16"

text \<open>The answer of the driver for the interface; a failed call gives zeros.\<close>

definition ql_get_driver_rmnet_info :: "(string \<Rightarrow> rmnet_info option) \<Rightarrow> profile \<Rightarrow> rmnet_info" where
  "ql_get_driver_rmnet_info drv p =
     (case drv (take (IFNAMSIZ - 1) (usbnet_adapter p)) of None \<Rightarrow> rmnet_zero | Some r \<Rightarrow> r)"

section \<open>Lemmas\<close>

lemma deadline_is_later:
  assumes "0 \<le> usec" "usec < 1000000" "0 \<le> msec" "setTimespecRelative sec usec msec = (s, ns)"
  shows "0 \<le> ns" "ns < 1000000000" "s * 1000000000 + ns = sec * 1000000000 + usec * 1000 + msec * 1000000"
proof -
  define q r where "q = msec div 1000" and "r = msec mod 1000"
  have d: "c_div msec 1000 = q" using assms(3) by (simp add: c_div_nonneg q_def)
  have m: "c_mod msec 1000 = r" unfolding c_mod_def d q_def r_def by (simp add: minus_mult_div_eq_mod)
  have r: "0 \<le> r" "r < 1000" "msec = 1000 * q + r" by (simp_all add: q_def r_def)
  have n: "((usec + r * 1000) * 1000) mod 2 ^ 64 = (usec + r * 1000) * 1000"
    using assms(1,2) r(1,2) by simp
  have sn: "(s, ns) = (if 1000000000 \<le> (usec + r * 1000) * 1000
      then (sec + q + 1, (usec + r * 1000) * 1000 - 1000000000) else (sec + q, (usec + r * 1000) * 1000))"
    using assms(4) unfolding setTimespecRelative_def d m Let_def n by (simp split: if_splits)
  show "0 \<le> ns" "ns < 1000000000" "s * 1000000000 + ns = sec * 1000000000 + usec * 1000 + msec * 1000000"
    using sn assms(1,2) r by (simp_all split: if_splits)
qed

text \<open>The loop, counted in natural numbers while the counter cannot wrap.\<close>

lemma wait_next:
  assumes "unat msecs + unat t \<le> 2 ^ 32" "unat i = k * unat t" "k * unat t < unat msecs" "w k = ETIMEDOUT"
  shows "wait_loop w msecs t i k ret = wait_loop w msecs t (i + t) (k + 1) ETIMEDOUT" "unat (i + t) = (k + 1) * unat t"
proof -
  have "i < msecs" using assms(2,3) by (simp add: word_less_nat_alt)
  then show "wait_loop w msecs t i k ret = wait_loop w msecs t (i + t) (k + 1) ETIMEDOUT"
    using assms(4) by (subst wait_loop.simps) simp
  have "unat i + unat t < 2 ^ 32" using assms(1-3) by linarith
  then have "unat (i + t) = unat i + unat t" using unat_add_lem [of i t] by simp
  then show "unat (i + t) = (k + 1) * unat t" using assms(2) by simp
qed

lemma wait_all:
  assumes "unat msecs + unat t \<le> 2 ^ 32" "unat i = k * unat t"
    "\<And>l. l < k + m \<Longrightarrow> l * unat t < unat msecs" "unat msecs \<le> (k + m) * unat t" "\<And>l. l < k + m \<Longrightarrow> w l = ETIMEDOUT"
  shows "wait_loop w msecs t i k ret = Some (if m = 0 then ret else ETIMEDOUT, k + m)"
  using assms(2-)
proof (induction m arbitrary: i k ret)
  case 0
  then have "\<not> i < msecs" by (simp add: word_less_nat_alt)
  then show ?case by (subst wait_loop.simps) simp
next
  case (Suc m)
  have "k * unat t < unat msecs" "w k = ETIMEDOUT" using Suc.prems(2,4) by simp_all
  note n = wait_next [where w = w, OF assms(1) Suc.prems(1) this]
  have "wait_loop w msecs t (i + t) (k + 1) ETIMEDOUT = Some (ETIMEDOUT, k + 1 + m)"
    using Suc.IH [of "i + t" "k + 1" ETIMEDOUT] n(2) Suc.prems(2-4) by (simp split: if_splits)
  then show ?case using n(1) by simp
qed

lemma wait_until:
  assumes "unat msecs + unat t \<le> 2 ^ 32" "unat i = k * unat t"
    "\<And>l. l \<le> k + m \<Longrightarrow> l * unat t < unat msecs" "\<And>l. l < k + m \<Longrightarrow> w l = ETIMEDOUT" "w (k + m) \<noteq> ETIMEDOUT"
  shows "wait_loop w msecs t i k ret = Some (w (k + m), k + m + 1)"
  using assms(2-)
proof (induction m arbitrary: i k ret)
  case 0
  then have "i < msecs" by (simp add: word_less_nat_alt)
  then show ?case using 0 by (subst wait_loop.simps) simp
next
  case (Suc m)
  have "k * unat t < unat msecs" "w k = ETIMEDOUT" using Suc.prems(2,3) by simp_all
  note n = wait_next [where w = w, OF assms(1) Suc.prems(1) this]
  have "wait_loop w msecs t (i + t) (k + 1) ETIMEDOUT = Some (w (k + 1 + m), k + 1 + m + 1)"
    using Suc.IH [of "i + t" "k + 1" ETIMEDOUT] n(2) Suc.prems(2-4) by simp
  then show ?case using n(1) by simp
qed

text \<open>The number of waits.\<close>

definition wait_count :: "u32 \<Rightarrow> nat" where
  "wait_count msecs = (unat msecs + unat (wait_step msecs) - 1) div unat (wait_step msecs)"

lemma wait_step_nat: "unat (wait_step msecs) = max 1 (unat msecs div 4)"
  by (auto simp: wait_step_def unat_div_distrib unat_eq_zero max_def word_unat_eq_iff)

lemma ceiling_facts:
  fixes M d :: nat
  assumes "0 < d" "0 < M"
  shows "l < (M + d - 1) div d \<Longrightarrow> l * d < M" "M \<le> (M + d - 1) div d * d" "(M + d - 1) div d * d < M + d" "0 < (M + d - 1) div d"
proof -
  define q where "q = (M + d - 1) div d"
  have q: "q * d \<le> M + d - 1" "M + d - 1 < (q + 1) * d"
    using assms(1) div_times_less_eq_dividend [of "M + d - 1" d] dividend_less_div_times [of d "M + d - 1"]
    by (simp_all add: q_def algebra_simps)
  show "l * d < M" if "l < (M + d - 1) div d"
  proof -
    have "(l + 1) * d \<le> q * d" using that by (intro mult_right_mono) (simp_all add: q_def)
    then show ?thesis using q(1) assms by simp
  qed
  show "M \<le> (M + d - 1) div d * d" "(M + d - 1) div d * d < M + d" "0 < (M + d - 1) div d"
    using q assms unfolding q_def [symmetric] by (auto simp: algebra_simps intro: Nat.gr0I)
qed

text \<open>Property C25: a timed wait returns. It is cut into waits of a quarter of its time, so that a change of the clock
  costs at most one of them: it ends with the first wait that does not time out, with the result of that
  wait, and otherwise after as many waits as together last at least the time asked for and less than a
  quarter more, at most seven of them.\<close>

theorem timed_wait_outcome:
  assumes "0 < msecs" "unat msecs < 2 ^ 31"
  shows "((\<forall>k < wait_count msecs. w k = ETIMEDOUT) \<longrightarrow> pthread_cond_timeout_np w msecs = Some (ETIMEDOUT, wait_count msecs)) \<and>
    (\<forall>j < wait_count msecs. (\<forall>k < j. w k = ETIMEDOUT) \<and> w j \<noteq> ETIMEDOUT \<longrightarrow>
      pthread_cond_timeout_np w msecs = Some (w j, j + 1)) \<and>
    unat msecs \<le> wait_count msecs * unat (wait_step msecs) \<and>
    wait_count msecs * unat (wait_step msecs) < unat msecs + unat (wait_step msecs) \<and> wait_count msecs \<le> 7"
proof -
  let ?d = "unat (wait_step msecs)"
  have M: "0 < unat msecs" using assms(1) by (simp add: unat_gt_0 word_gt_0)
  have d: "0 < ?d" "?d = max 1 (unat msecs div 4)" by (simp_all add: wait_step_nat)
  have s: "unat msecs + ?d \<le> 2 ^ 32" using assms(2) d(2) by (simp add: max_def) linarith
  note c = ceiling_facts [OF d(1) M, folded wait_count_def]
  have n: "msecs \<noteq> 0" using assms(1) by auto
  have all: "pthread_cond_timeout_np w msecs = Some (ETIMEDOUT, wait_count msecs)" if "\<forall>k < wait_count msecs. w k = ETIMEDOUT"
    using wait_all [OF s, of 0 0 "wait_count msecs" w 0] that c n by (simp add: pthread_cond_timeout_np_def)
  have one: "pthread_cond_timeout_np w msecs = Some (w j, j + 1)"
    if "j < wait_count msecs" "\<forall>k < j. w k = ETIMEDOUT" "w j \<noteq> ETIMEDOUT" for j
    using wait_until [OF s, of 0 0 j w 0] that c(1) n by (simp add: pthread_cond_timeout_np_def)
  have "wait_count msecs \<le> 7"
  proof (cases "unat msecs < 8")
    case True
    then have "unat msecs div 4 \<le> 1" by linarith
    then have "?d = 1" using d(2) by (simp add: max_def)
    then show ?thesis using True by (simp add: wait_count_def)
  next
    case False
    define q where "q = unat msecs div 4"
    have q: "?d = q" "2 \<le> q" "unat msecs < 4 * q + 4" using False d(2) by (simp_all add: q_def max_def)
    have "wait_count msecs * q < 8 * q" using c(3) q(2,3) unfolding q(1) by linarith
    then show ?thesis by simp
  qed
  then show ?thesis using all one c(2,3) by blast
qed

theorem timed_wait_outcome_witness:
  "pthread_cond_timeout_np (\<lambda>k. ETIMEDOUT) 30000 = Some (ETIMEDOUT, 4) \<and>
   pthread_cond_timeout_np (\<lambda>k. if k = 2 then 0 else ETIMEDOUT) 30000 = Some (0, 3)"
proof -
  have m: "(0 :: u32) < 30000" "unat (30000 :: u32) < 2 ^ 31" by simp_all
  have "unat (wait_step 30000) = 7500" by (simp add: wait_step_nat)
  then have c: "wait_count 30000 = 4" by (simp add: wait_count_def)
  have "\<forall>k < 2. (if k = (2 :: nat) then 0 else ETIMEDOUT) = ETIMEDOUT" "ETIMEDOUT \<noteq> 0" by (simp_all add: ETIMEDOUT_def)
  then show ?thesis
    using timed_wait_outcome [OF m, of "\<lambda>k. ETIMEDOUT"]
      timed_wait_outcome [OF m, of "\<lambda>k. if k = 2 then 0 else ETIMEDOUT", THEN conjunct2, THEN conjunct1, THEN spec, of 2] c
    by simp
qed

section \<open>The file of name servers\<close>

definition lines_ok :: "string list \<Rightarrow> bool" where
  "lines_ok ls \<longleftrightarrow> (\<forall>l \<in> set ls. l \<noteq> [] \<and> NL \<notin> set l \<and> length l \<le> 253)"

lemma text_simps [simp]: "text_of [] = []" "text_of (l # ls) = l @ NL # text_of ls" "text_of (xs @ ys) = text_of xs @ text_of ys"
  by (simp_all add: text_of_def)

lemma fgets_line: "NL \<notin> set l \<Longrightarrow> length l < k \<Longrightarrow> c_fgets k (l @ NL # r) = (l @ [NL], r)"
proof (induction l arbitrary: k)
  case Nil
  then show ?case by (cases k) simp_all
next
  case (Cons c l)
  then show ?case by (cases k) auto
qed

lemma chomp_line: "l \<noteq> [] \<Longrightarrow> chomp (l @ [NL]) = l"
  by (simp add: chomp_def)

lemma read_line:
  assumes "l \<noteq> []" "NL \<notin> set l" "length l \<le> 253"
  shows "read_dns tag room (l @ NL # r) =
    (if has_tag tag l then (let (m, ls) = read_dns tag room r in (m + 1, ls))
     else if room = 1 then (0, [l]) else (let (m, ls) = read_dns tag (room - 1) r in (m, l # ls)))"
proof -
  have g: "c_fgets 254 (l @ NL # r) = (l @ [NL], r)" by (rule fgets_line) (use assms in simp_all)
  show ?thesis by (subst read_dns.simps) (simp only: g fst_conv snd_conv chomp_line [OF assms(1)] Let_def, simp)
qed

lemma read_kept:
  assumes "lines_ok ls" "length (filter (\<lambda>l. \<not> has_tag tag l) ls) \<le> room" "0 < room"
  shows "snd (read_dns tag room (text_of ls)) = filter (\<lambda>l. \<not> has_tag tag l) ls"
  using assms
proof (induction ls arbitrary: room)
  case Nil
  then show ?case by (subst read_dns.simps) simp
next
  case (Cons l ls)
  have l: "l \<noteq> []" "NL \<notin> set l" "length l \<le> 253" "lines_ok ls" using Cons.prems(1) by (simp_all add: lines_ok_def)
  show ?case
  proof (cases "has_tag tag l")
    case True
    then show ?thesis using Cons.IH [OF l(4), of room] Cons.prems by (simp add: read_line [OF l(1-3)] case_prod_beta Let_def)
  next
    case False
    then have n: "length (filter (\<lambda>l. \<not> has_tag tag l) ls) \<le> room - 1" using Cons.prems(2) by simp
    show ?thesis
    proof (cases "room = 1")
      case True
      then show ?thesis using False n by (simp add: read_line [OF l(1-3)])
    next
      case r: False
      then show ?thesis using False n Cons.IH [OF l(4) n] Cons.prems(3)
        by (simp add: read_line [OF l(1-3)] case_prod_beta Let_def)
    qed
  qed
qed

lemma has_tag_append: "has_tag tag (a @ tag @ b)"
  using c_strstr_Some_iff [of "a @ tag @ b" tag] by (fastforce simp: has_tag_def)

lemma has_tag_mono: "has_tag (t @ x) l \<Longrightarrow> has_tag t l"
  using c_strstr_Some_iff [of l "t @ x"] c_strstr_Some_iff [of l t] by (fastforce simp: has_tag_def)

lemma nameserver_tagged: "has_tag tag (nameserver_line d tag)"
  using has_tag_append [of tag "''nameserver '' @ d @ '' ''" "[]"] by (simp add: nameserver_line_def)

definition new_lines :: "string option \<Rightarrow> string option \<Rightarrow> string \<Rightarrow> string list" where
  "new_lines d1 d2 tag = map (\<lambda>d. nameserver_line d tag) (opt_list d1 @ opt_list d2)"

lemma new_lines_tagged: "filter (\<lambda>l. \<not> has_tag tag l) (new_lines d1 d2 tag) = []"
  by (auto simp: new_lines_def nameserver_tagged filter_empty_conv)

lemma resolv_conf_rewrite:
  assumes "lines_ok ls" "length (filter (\<lambda>l. \<not> has_tag (dns_tag v ifname) l) ls) \<le> MAX_DNS"
  shows "update_resolv_conf True v ifname (Some d1) d2 (Present (text_of ls)) =
    Present (text_of (new_lines (Some d1) d2 (dns_tag v ifname) @ filter (\<lambda>l. \<not> has_tag (dns_tag v ifname) l) ls))"
  using read_kept [OF assms(1), of "dns_tag v ifname" MAX_DNS] assms(2)
  by (auto simp: update_resolv_conf_def Let_def case_prod_beta new_lines_def MAX_DNS_def)


text \<open>Property C34: the lines of an interface are found by its name as a part of the line, so setting the name servers of
  an interface removes those of every interface whose name continues it (of wwan0.1 when wwan0 is set).\<close>

theorem resolv_conf_loses_longer_names:
  assumes "lines_ok ls" "length (filter (\<lambda>l. \<not> has_tag (dns_tag v (ifname @ x)) l) ls) \<le> MAX_DNS"
    and "lines_ok (new_lines (Some d1) d2 (dns_tag v (ifname @ x)))" "length (''# IPV'' @ show_int v @ '' '' @ ifname @ x) < 64"
  shows "update_resolv_conf True v ifname (Some e1) e2
      (update_resolv_conf True v (ifname @ x) (Some d1) d2 (Present (text_of ls))) =
    update_resolv_conf True v ifname (Some e1) e2 (Present (text_of ls))"
proof -
  define t where "t = dns_tag v ifname"
  define u where "u = dns_tag v (ifname @ x)"
  have u: "u = t @ x" using assms(4) by (simp add: t_def u_def dns_tag_def c_snprintf_def)
  have sub: "has_tag t l" if "has_tag u l" for l using has_tag_mono that by (simp add: u)
  have n: "filter (\<lambda>l. \<not> has_tag t l) (new_lines (Some d1) d2 u) = []"
    using sub nameserver_tagged by (auto simp: new_lines_def filter_empty_conv)
  have k: "filter (\<lambda>l. \<not> has_tag t l) (filter (\<lambda>l. \<not> has_tag u l) ls) = filter (\<lambda>l. \<not> has_tag t l) ls"
    using sub by (induction ls) auto
  have le: "length (filter (\<lambda>l. \<not> has_tag t l) ls) \<le> MAX_DNS"
  proof -
    have "length (filter (\<lambda>l. \<not> has_tag t l) (filter (\<lambda>l. \<not> has_tag u l) ls)) \<le> length (filter (\<lambda>l. \<not> has_tag u l) ls)"
      by (rule length_filter_le)
    also have "\<dots> \<le> MAX_DNS" using assms(2) by (simp only: u_def)
    finally show ?thesis unfolding k .
  qed
  have ok: "lines_ok (new_lines (Some d1) d2 u @ filter (\<lambda>l. \<not> has_tag u l) ls)"
    using assms(1,3) by (auto simp: lines_ok_def u_def)
  have "update_resolv_conf True v ifname (Some e1) e2 (Present (text_of (new_lines (Some d1) d2 u @ filter (\<lambda>l. \<not> has_tag u l) ls))) =
      update_resolv_conf True v ifname (Some e1) e2 (Present (text_of ls))"
    using resolv_conf_rewrite [OF ok, of v ifname e1 e2] resolv_conf_rewrite [OF assms(1), of v ifname e1 e2] le n k
    unfolding t_def [symmetric] by simp
  then show ?thesis using resolv_conf_rewrite [OF assms(1,2), of d1 d2] by (simp add: u_def)
qed

text \<open>An empty line is doubled.\<close>

lemma empty_lines_double:
  "update_resolv_conf True 4 ''wwan0'' (Some ''1.1.1.1'') None (Present (text_of [[], ''search lan''])) =
   Present (text_of [''nameserver 1.1.1.1 # IPV4 wwan0'', [], [], ''search lan''])"
  by code_simp


theorem resolv_conf_loses_longer_names_witness:
  "update_resolv_conf True 4 ''wwan0'' (Some ''1.1.1.1'') None
     (update_resolv_conf True 4 ''wwan0.1'' (Some ''8.8.8.8'') None (Present (text_of []))) =
   update_resolv_conf True 4 ''wwan0'' (Some ''1.1.1.1'') None (Present (text_of []))"
proof -
  have "lines_ok []" "length (filter (\<lambda>l. \<not> has_tag (dns_tag 4 (''wwan0'' @ ''.1'')) l) []) \<le> MAX_DNS"
    "lines_ok (new_lines (Some ''8.8.8.8'') None (dns_tag 4 (''wwan0'' @ ''.1'')))"
    "length (''# IPV'' @ show_int 4 @ '' '' @ ''wwan0'' @ ''.1'') < 64" by code_simp+
  from resolv_conf_loses_longer_names [OF this, of "''1.1.1.1''" None] show ?thesis by simp
qed

end
