(* ===== verification/Qmap_Mode.thy ===== *)
theory Qmap_Mode
  imports Util
begin

text \<open>
  \<^verbatim>\<open>quectel_cm_5G/src/qmap_bridge_mode.c\<close>: which interface and which multiplexing number a
  connection uses, and the bridge mode of the driver. The files of the system are a parameter; what
  the code writes or runs is recorded in order. \<open>None\<close> is an access outside an array.
\<close>

section \<open>The system\<close>

text \<open>The files as the code finds them, the target of the link to the interface's driver, and the answer
  of the driver to the call for its QMAP interfaces.\<close>

record net_env =
  ne_file :: "string \<Rightarrow> path_state"
  ne_driver :: "string option"
  ne_rmnet :: "string \<Rightarrow> rmnet_info option"

datatype net_action = Net_Write string string | Net_System string | Net_Mtu string int | Net_Carrier string
  | Net_Popen string | Net_Vnd string string int int

datatype qmi_ops = Gobi_Ops | Qmiwwan_Ops

definition WDA_DL_DATA_AGG_QMAP_ENABLED :: int where "WDA_DL_DATA_AGG_QMAP_ENABLED = 5"
definition WDA_DL_DATA_AGG_QMAP_V5_ENABLED :: int where "WDA_DL_DATA_AGG_QMAP_V5_ENABLED = 9"

definition readable :: "net_env \<Rightarrow> string \<Rightarrow> bool" where
  "readable e f \<longleftrightarrow> (case ne_file e f of Present s \<Rightarrow> True | _ \<Rightarrow> False)"

definition exists_path :: "net_env \<Rightarrow> string \<Rightarrow> bool" where
  "exists_path e f \<longleftrightarrow> ne_file e f \<noteq> Absent"

text \<open>What is read; the rest of the buffer is zero. A write is recorded where the file can be opened.\<close>

definition ql_fread :: "net_env \<Rightarrow> string \<Rightarrow> nat \<Rightarrow> string" where
  "ql_fread e f n = (case ne_file e f of Present s \<Rightarrow> take n s | _ \<Rightarrow> [])"

definition ql_fwrite :: "net_env \<Rightarrow> string \<Rightarrow> string \<Rightarrow> net_action list" where
  "ql_fwrite e f s = (if readable e f then [Net_Write f s] else [])"

section \<open>Bridge mode\<close>

definition SYS_NET :: string where "SYS_NET = ''/sys/class/net/''"

definition qmap_ifname :: "profile \<Rightarrow> string" where
  "qmap_ifname p = (if qmapnet_adapter p \<noteq> [] then qmapnet_adapter p else usbnet_adapter p)"

text \<open>The pair of files of the driver, for its interface or for the module.\<close>

definition bridge_files :: "net_env \<Rightarrow> profile \<Rightarrow> (string \<times> string) option" where
  "bridge_files e p =
     (let net = SYS_NET @ qmap_ifname p; mdl = ''/sys/module/'' @ driver_name p @ ''/parameters'';
          ipv4_net = c_snprintf 128 (net @ ''/bridge_ipv4'');
          mode_mod = c_snprintf 128 (mdl @ ''/bridge_mode'') in
      case ne_file e ipv4_net of
        Present s \<Rightarrow> Some (c_snprintf 128 (net @ ''/bridge_mode''), ipv4_net)
      | Denied \<Rightarrow> None
      | Absent \<Rightarrow> if readable e mode_mod then Some (mode_mod, c_snprintf 128 (mdl @ ''/bridge_ipv4'')) else None)"

definition ql_bridge_mode_detect :: "net_env \<Rightarrow> profile \<Rightarrow> bool \<times> net_action list" where
  "ql_bridge_mode_detect e p = (case bridge_files e p of
     None \<Rightarrow> (False, [])
   | Some (mode_file, ipv4_file) \<Rightarrow>
      (case ql_fread e mode_file 64 of
         [] \<Rightarrow> (False, [])
       | c # _ \<Rightarrow>
          if c = CHR ''0'' then (False, [])
          else (let a = ''0x'' @ show_hex (unat (Address (ipv4 p))) in
            (True, ql_fwrite e ipv4_file
              (if c_strstr ipv4_file SYS_NET \<noteq> None \<or> qmap_mode p = 0 \<or> qmap_mode p = 1 then a
               else a @ '':'' @ show_int (muxid p))))))"

definition qmidev_is_gobinet :: "string \<Rightarrow> bool" where
  "qmidev_is_gobinet c \<longleftrightarrow> starts_with c ''/dev/qcqmi''"

definition qmidev_is_qmiwwan :: "string \<Rightarrow> bool" where
  "qmidev_is_qmiwwan c \<longleftrightarrow> starts_with c ''/dev/cdc-wdm''"

text \<open>The result 1 is a file that could not be opened for writing (one that could be read can).\<close>

definition ql_enable_qmi_wwan_rawip_mode :: "net_env \<Rightarrow> profile \<Rightarrow> int \<times> net_action list" where
  "ql_enable_qmi_wwan_rawip_mode e p =
     (if \<not> qmidev_is_qmiwwan (qmichannel p) then (0, [])
      else let f = SYS_NET @ usbnet_adapter p @ ''/qmi/rawip'' in
        case ql_fread e f 4 of
          [] \<Rightarrow> (0, [])
        | c # _ \<Rightarrow> if c = CHR ''1'' \<or> c = CHR ''Y'' then (0, []) else (0, [Net_Write f ''Y'']))"

definition ql_driver_type_detect :: "profile \<Rightarrow> qmi_ops" where
  "ql_driver_type_detect p = (if qmidev_is_gobinet (qmichannel p) then Gobi_Ops else Qmiwwan_Ops)"

text \<open>The text of a flag with two digits; sixteen bytes are written, the text and what the array held behind it.\<close>

definition ql_set_driver_bridge_mode :: "net_env \<Rightarrow> profile \<Rightarrow> net_action list" where
  "ql_set_driver_bridge_mode e p =
     ql_fwrite e (SYS_NET @ (if qmap_mode p \<noteq> 0 then qmapnet_adapter p else usbnet_adapter p) @ ''/bridge_mode'')
       ((if enable_bridge p then ''01'' else ''00'') @ [NL])"

section \<open>QMAP mode\<close>

text \<open>The name behind the last slash.\<close>

definition base_name :: "string \<Rightarrow> string option" where
  "base_name t = (if CHR ''/'' \<in> set t then Some (rev (takeWhile (\<lambda>c. c \<noteq> CHR ''/'') (rev t))) else None)"

definition nth_opt :: "'a list \<Rightarrow> int \<Rightarrow> 'a option" where
  "nth_opt xs i = (if 0 \<le> i \<and> i < int (length xs) then Some (xs ! nat i) else None)"

text \<open>The interface the driver has for the connection.\<close>

definition qmap_of_rmnet :: "profile \<Rightarrow> profile option" where
  "qmap_of_rmnet p =
     (let r = rmnet p; p = p\<lparr>qmap_mode := sint (ri_qmap_mode r)\<rparr> in
      if qmap_mode p = 0 then Some p
      else let off = (if qmap_mode p = 1 then 0 else if muxid p = 0 then pdp p - 1 else muxid p - 0x81) in
        do { m \<leftarrow> nth_opt (ri_mux_id r) off;
             n \<leftarrow> nth_opt (ri_ifname r) off;
             Some (p\<lparr>muxid := uint m, qmapnet_adapter := take 31 n, qmap_size := sint (ri_rx_urb_size r),
               qmap_version := sint (ri_qmap_version r)\<rparr>) })"

text \<open>The first of some files that is there, unless one before it is refused.\<close>

datatype probe = Found string | Missing | Refused

fun probe_files :: "net_env \<Rightarrow> string list \<Rightarrow> probe" where
  "probe_files e [] = Missing"
| "probe_files e (f # fs) = (case ne_file e f of Present s \<Rightarrow> Found f | Denied \<Rightarrow> Refused | Absent \<Rightarrow> probe_files e fs)"

definition qmap_mode_files :: "profile \<Rightarrow> string list" where
  "qmap_mode_files p = [SYS_NET @ usbnet_adapter p @ ''/qmap_mode'',
     ''/sys/module/'' @ driver_name p @ ''/parameters/qmap_mode'',
     SYS_NET @ usbnet_adapter p @ ''/device/driver/module/parameters/qmap_mode'']"

definition qmap_of_file :: "string \<Rightarrow> profile \<Rightarrow> profile" where
  "qmap_of_file s p =
     (if s = [] then p
      else let p = p\<lparr>qmap_mode := c_atoi s\<rparr>;
               p = (if qmap_mode p > 1
                 then (let m = (if muxid p = 0 then pdp p + 0x80 else muxid p) in
                   p\<lparr>muxid := m, qmapnet_adapter := c_snprintf 32 (take 16 (usbnet_adapter p) @ ''.'' @ show_int (m - 0x80))\<rparr>)
                 else p) in
        if qmap_mode p = 1 then p\<lparr>muxid := 0x81, qmapnet_adapter := usbnet_adapter p\<rparr> else p)"

text \<open>A number in the list of \<^verbatim>\<open>add_mux\<close>, from its two digits as the code reads them; a \<open>char\<close> is signed.\<close>

definition c_char :: "char \<Rightarrow> int" where
  "c_char c = (if ord_of c < 128 then int (ord_of c) else int (ord_of c) - 256)"

definition mux_digits :: "string \<Rightarrow> int \<Rightarrow> int option" where
  "mux_digits b i = do { h \<leftarrow> nth_opt b (5 * i + 2); l \<leftarrow> nth_opt b (5 * i + 3);
     Some ((c_char h - 48) * 16 + (c_char l - 48)) }"

definition qmimux :: "int \<Rightarrow> string" where
  "qmimux i = c_snprintf 32 (''qmimux'' @ show_int i)"

definition qmap_of_add_mux :: "string \<Rightarrow> profile \<Rightarrow> profile option" where
  "qmap_of_add_mux s p =
     (let b = s @ replicate (128 - length s) (CHR 0x00); n = length s in
      if n < 5 then Some p
      else let p = p\<lparr>qmap_mode := int (n div 5)\<rparr> in
        if qmap_mode p > 1
        then (if muxid p = 0
              then do { m \<leftarrow> mux_digits b (pdp p - 1); Some (p\<lparr>muxid := m, qmapnet_adapter := qmimux (pdp p - 1)\<rparr>) }
              else do { m \<leftarrow> mux_digits b (muxid p - 0x81); Some (p\<lparr>muxid := m, qmapnet_adapter := qmimux (m - 0x81)\<rparr>) })
        else do { m \<leftarrow> mux_digits b 0; Some (p\<lparr>muxid := m, qmapnet_adapter := qmimux 0\<rparr>) })"

definition qmap_defaults :: "net_env \<Rightarrow> profile \<Rightarrow> profile" where
  "qmap_defaults e p =
     (if qmap_mode p = 0 then p
      else let p = (if qmap_size p = 0
                 then (let b = ql_fread e (SYS_NET @ usbnet_adapter p @ ''/qmap_size'') 32 in
                   p\<lparr>qmap_size := (if b = [] then 16 * 1024 else c_atoi b)\<rparr>)
                 else p) in
        if qmap_version p = 0 then p\<lparr>qmap_version := WDA_DL_DATA_AGG_QMAP_ENABLED\<rparr> else p)"

definition ql_qmi_qmap_mode_detect :: "net_env \<Rightarrow> profile \<Rightarrow> (profile \<times> net_action list) option" where
  "ql_qmi_qmap_mode_detect e p = do {
     link \<leftarrow> ne_driver e;
     d \<leftarrow> base_name link;
     (let p = p\<lparr>driver_name := take 31 d\<rparr>;
          p = p\<lparr>rmnet := ql_get_driver_rmnet_info (ne_rmnet e) p\<rparr> in do {
       p \<leftarrow> (if ri_size (rmnet p) \<noteq> 0 then qmap_of_rmnet p
            else case probe_files e (qmap_mode_files p) of
              Refused \<Rightarrow> Some p
            | Found f \<Rightarrow> Some (qmap_of_file (ql_fread e f 128) p)
            | Missing \<Rightarrow>
                if qmidev_is_qmiwwan (qmichannel p) \<and> readable e (SYS_NET @ ''qmimux'' @ show_int (pdp p - 1))
                then qmap_of_add_mux (ql_fread e (SYS_NET @ usbnet_adapter p @ ''/qmi/add_mux'') 128) p
                else Some p);
       (let p = qmap_defaults e p in Some (p, ql_set_driver_bridge_mode e p)) }) }"

definition ql_mbim_usb_vlan_mode_detect :: "net_env \<Rightarrow> profile \<Rightarrow> profile" where
  "ql_mbim_usb_vlan_mode_detect e p =
     (let name = usbnet_adapter p @ ''.'' @ show_int (pdp p) in
      if exists_path e (SYS_NET @ name)
      then p\<lparr>qmap_mode := 4, muxid := pdp p, qmapnet_adapter := take 31 name\<rparr> else p)"

definition ql_mbim_mhi_qmap_mode_detect :: "net_env \<Rightarrow> profile \<Rightarrow> profile option" where
  "ql_mbim_mhi_qmap_mode_detect e p =
     (let p = p\<lparr>rmnet := ql_get_driver_rmnet_info (ne_rmnet e) p\<rparr>; r = rmnet p in
      if ri_size r = 0 then Some p
      else let p = p\<lparr>qmap_mode := sint (ri_qmap_mode r)\<rparr> in
        if qmap_mode p = 0 then Some p
        else do { n \<leftarrow> nth_opt (ri_ifname r) (if qmap_mode p = 1 then 0 else pdp p - 1);
          Some (p\<lparr>muxid := pdp p, qmapnet_adapter := n, qmap_size := sint (ri_rx_urb_size r),
            qmap_version := sint (ri_qmap_version r)\<rparr>) })"

definition ql_qmap_mode_detect :: "net_env \<Rightarrow> profile \<Rightarrow> (profile \<times> net_action list) option" where
  "ql_qmap_mode_detect e p =
     (if software_interface p = SOFTWARE_MBIM
      then (if hardware_interface p = HARDWARE_USB then Some (ql_mbim_usb_vlan_mode_detect e p, [])
            else if hardware_interface p = HARDWARE_PCIE
            then map_option (\<lambda>p. (p, [])) (ql_mbim_mhi_qmap_mode_detect e p)
            else Some (p, []))
      else if software_interface p = SOFTWARE_QMI then ql_qmi_qmap_mode_detect e p
      else if software_interface p = SOFTWARE_QRTR
      then (let m = 0x80 OR pdp p; name = ''rmnet_data'' @ show_int (m AND 0xF);
                p = p\<lparr>qmap_mode := 4, qmap_version := WDA_DL_DATA_AGG_QMAP_V5_ENABLED, qmap_size := 31 * 1024,
                  muxid := m, qmapnet_adapter := name\<rparr> in
        Some (p, if exists_path e (SYS_NET @ name) then []
                 else [Net_Vnd (usbnet_adapter p) name m (qmap_version p)]))
      else Some (p, []))"

section \<open>The interface of a connection\<close>

text \<open>The list of multiplexing numbers as the kernel prints it.\<close>

definition mux_line :: "byte \<Rightarrow> string" where
  "mux_line m = ''0x'' @ hex2 m @ [NL]"

definition mux_text :: "byte list \<Rightarrow> string" where
  "mux_text ms = concat (map mux_line ms)"

text \<open>A number without the digits a to f.\<close>

definition plain_mux :: "byte \<Rightarrow> bool" where
  "plain_mux m \<longleftrightarrow> unat m div 16 < 10 \<and> unat m mod 16 < 10"

lemma mux_line_length [simp]: "length (mux_line m) = 5"
  by (simp add: mux_line_def)

lemma mux_line_nth: "mux_line m ! 2 = hex_digit (unat m div 16)" "mux_line m ! 3 = hex_digit (unat m mod 16)"
  by (simp_all add: mux_line_def hex2_def numeral_2_eq_2 numeral_3_eq_3)

lemma mux_text_length: "length (mux_text ms) = 5 * length ms"
  by (induction ms) (simp_all add: mux_text_def)

lemma mux_text_nth:
  assumes "i < length ms" "j < 5"
  shows "(mux_text ms @ r) ! (5 * i + j) = mux_line (ms ! i) ! j"
  using assms(1)
proof (induction ms arbitrary: i)
  case (Cons m ms)
  have e: "mux_text (m # ms) = mux_line m @ mux_text ms" by (simp add: mux_text_def)
  show ?case
  proof (cases i)
    case 0
    then show ?thesis using assms(2) by (simp add: e nth_append)
  next
    case (Suc k)
    then have "5 * i + j = 5 + (5 * k + j)" "k < length ms" using Cons.prems by simp_all
    then show ?thesis using Cons.IH [of k] Suc by (simp add: e nth_append)
  qed
qed simp

lemma plain_digit: "d < 10 \<Longrightarrow> c_char (hex_digit d) - 48 = int d"
  by (simp add: c_char_def hex_digit_def ord_char_of)

lemma mux_digits_text:
  assumes "i < length ms" "plain_mux (ms ! i)"
  shows "mux_digits (mux_text ms @ r) (int i) = Some (uint (ms ! i))"
proof -
  let ?b = "mux_text ms @ r" and ?m = "ms ! i"
  have l: "5 * i + 5 \<le> length ?b" using assms(1) by (simp add: mux_text_length)
  have "?b ! (5 * i + 2) = hex_digit (unat ?m div 16)" "?b ! (5 * i + 3) = hex_digit (unat ?m mod 16)"
    using mux_text_nth [OF assms(1), of 2 r] mux_text_nth [OF assms(1), of 3 r]
    by (simp_all add: mux_line_nth)
  moreover have "nth_opt ?b (5 * int i + 2) = Some (?b ! (5 * i + 2))" "nth_opt ?b (5 * int i + 3) = Some (?b ! (5 * i + 3))"
    using l by (simp_all add: nth_opt_def nat_add_distrib nat_mult_distrib)
  ultimately have "mux_digits ?b (int i) = Some (int (unat ?m div 16) * 16 + int (unat ?m mod 16))"
    using assms(2) plain_digit [of "unat ?m div 16"] plain_digit [of "unat ?m mod 16"]
    by (simp add: mux_digits_def plain_mux_def)
  also have "int a * 16 + int b = int (a * 16 + b)" for a b by simp
  also have "unat ?m div 16 * 16 + unat ?m mod 16 = unat ?m" by (rule div_mult_mod_eq)
  finally show ?thesis by simp
qed

text \<open>A driver without QMAP interfaces of its own and without the files of the vendor's driver.\<close>

definition kernel_mux :: "net_env \<Rightarrow> profile \<Rightarrow> byte list \<Rightarrow> bool" where
  "kernel_mux e p ms \<longleftrightarrow> (\<exists>t. ne_driver e = Some (t @ ''/qmi_wwan'') \<and> CHR ''/'' \<notin> set ''qmi_wwan'') \<and>
     (\<forall>n. ne_rmnet e n = None) \<and> qmidev_is_qmiwwan (qmichannel p) \<and>
     (\<forall>f \<in> set (qmap_mode_files (p\<lparr>driver_name := ''qmi_wwan''\<rparr>)). ne_file e f = Absent) \<and>
     readable e (SYS_NET @ ''qmimux'' @ show_int (pdp p - 1)) \<and>
     ne_file e (SYS_NET @ usbnet_adapter p @ ''/qmi/add_mux'') = Present (mux_text ms)"

lemma probe_missing: "(\<forall>f \<in> set fs. ne_file e f = Absent) \<Longrightarrow> probe_files e fs = Missing"
  by (induction fs) simp_all

lemma base_name_of: "CHR ''/'' \<notin> set d \<Longrightarrow> base_name (t @ CHR ''/'' # d) = Some d"
  by (simp add: base_name_def takeWhile_hit)


text \<open>A digit above 9 is misread: the number 0x8a is taken for 0xb1.\<close>

lemma hex_mux_misread: "mux_digits (mux_text [0x81, 0x8a]) 1 = Some 0xb1"
  by code_simp

text \<open>An interface number the driver has no room for is read behind its table: connection 9 of a driver
  with QMAP interfaces of its own.\<close>

theorem ninth_connection_reads_outside:
  assumes "software_interface p = SOFTWARE_QMI" "ne_driver e = Some link" "CHR ''/'' \<in> set link"
    "ne_rmnet e (take 15 (usbnet_adapter p)) = Some r" "ri_size r \<noteq> 0" "1 < sint (ri_qmap_mode r)"
    "length (ri_mux_id r) = 8" "muxid p = 0" "8 < pdp p \<or> pdp p < 1"
  shows "ql_qmap_mode_detect e p = None"
proof -
  obtain d where d: "base_name link = Some d" using assms(3) by (auto simp: base_name_def)
  have "sint (ri_qmap_mode r) \<noteq> 0" "sint (ri_qmap_mode r) \<noteq> 1" using assms(6) by simp_all
  then have "qmap_of_rmnet (p\<lparr>driver_name := take 31 d, rmnet := r\<rparr>) = None"
    using assms(7-9) by (auto simp: qmap_of_rmnet_def Let_def nth_opt_def)
  then show ?thesis using assms(1-5) d
    by (simp add: ql_qmap_mode_detect_def ql_qmi_qmap_mode_detect_def Let_def ql_get_driver_rmnet_info_def IFNAMSIZ_def
        SOFTWARE_QMI_def SOFTWARE_MBIM_def)
qed

definition demo_files :: "string \<Rightarrow> path_state" where
  "demo_files f = (if f = ''/sys/class/net/qmimux1'' then Present []
     else if f = ''/sys/class/net/wwan0/qmi/add_mux'' then Present (mux_text [0x81, 0x82]) else Absent)"

definition demo_profile :: profile where
  "demo_profile = profile_zero\<lparr>software_interface := SOFTWARE_QMI, qmichannel := ''/dev/cdc-wdm0'', usbnet_adapter := ''wwan0'', pdp := 2\<rparr>"


theorem ninth_connection_reads_outside_witness:
  "ql_qmap_mode_detect \<lparr>ne_file = \<lambda>f. Absent, ne_driver = Some ''../qmi_wwan_q'',
      ne_rmnet = \<lambda>n. Some (rmnet_zero\<lparr>ri_size := 184, ri_qmap_mode := 4\<rparr>)\<rparr>
    (profile_zero\<lparr>software_interface := SOFTWARE_QMI, pdp := 9\<rparr>) = None"
  by (rule ninth_connection_reads_outside [where link = "''../qmi_wwan_q''" and r = "rmnet_zero\<lparr>ri_size := 184, ri_qmap_mode := 4\<rparr>"])
    (simp_all add: profile_zero_def rmnet_zero_def)

end
