(* ===== verification/Udhcpc.thy ===== *)
theory Udhcpc
  imports Qmap_Mode
begin

text \<open>
  \<^verbatim>\<open>quectel_cm_5G/src/udhcpc.c\<close>: bringing the interface of a connection up with the addresses
  the modem gave, and down. Commands handed to the shell, writes to the driver and programs that are
  run are recorded in order; \<^verbatim>\<open>/etc/resolv.conf\<close> is rewritten by \<^verbatim>\<open>update_resolv_conf\<close>.
  \<open>None\<close> is undefined behaviour. The code for OpenWrt and for dhclient is not compiled.
\<close>

section \<open>State and system\<close>

text \<open>The files, whether \<^verbatim>\<open>/sbin/ip\<close> can be run, how often \<open>route del default\<close> succeeds, whether the
  interface is up and its MTU as found, its address at each time it is asked, what the driver's link file
  reads after it is written, and whether the name server file can be written.\<close>

record udhcpc_env =
  ue_files :: net_env
  ue_ip_tool :: bool
  ue_default_routes :: nat
  ue_up :: bool
  ue_mtu :: "int option"
  ue_addr :: "nat \<Rightarrow> u32"
  ue_link_state :: "string option"
  ue_resolv_writable :: bool

record net =
  net_acts :: "net_action list"
  net_resolv :: path_state

datatype request_kind = Qmi_Requests | Mbim_Requests | Atc_Requests

definition act :: "net_action \<Rightarrow> net \<Rightarrow> net" where
  "act a n = n\<lparr>net_acts := net_acts n @ [a]\<rparr>"

text \<open>A command built in an array of 128 bytes.\<close>

definition ql_system :: "string \<Rightarrow> net \<Rightarrow> net" where
  "ql_system cmd = act (Net_System (c_snprintf 128 cmd))"

fun repeat :: "nat \<Rightarrow> ('a \<Rightarrow> 'a) \<Rightarrow> 'a \<Rightarrow> 'a" where
  "repeat 0 f x = x"
| "repeat (Suc n) f x = repeat n f (f x)"

section \<open>Addresses\<close>

definition qmi2addr :: "u32 \<Rightarrow> u32" where
  "qmi2addr x = drop_bit 24 x OR (drop_bit 8 x AND 0xff00) OR (push_bit 8 x AND 0xff0000) OR push_bit 24 x"

definition octet :: "nat \<Rightarrow> u32 \<Rightarrow> string" where
  "octet k a = show_nat (unat (ucast (drop_bit (8 * k) a) :: byte))"

definition ipv4Str :: "u32 \<Rightarrow> string" where
  "ipv4Str a = c_snprintf 16 (octet 3 a @ ''.'' @ octet 2 a @ ''.'' @ octet 1 a @ ''.'' @ octet 0 a)"

text \<open>An array of 16 bytes at an index.\<close>

definition byte_at :: "bytes \<Rightarrow> nat \<Rightarrow> byte" where
  "byte_at xs i = (if i < length xs then xs ! i else 0)"

definition ipv6_group :: "bytes \<Rightarrow> nat \<Rightarrow> string" where
  "ipv6_group a i = show_hex (256 * unat (byte_at a (2 * i)) + unat (byte_at a (2 * i + 1)))"

definition ipv6Str :: "bytes \<Rightarrow> string" where
  "ipv6Str a = c_snprintf 64 (ipv6_group a 0 @ concat (map (\<lambda>i. '':'' @ ipv6_group a i) [1..<8]))"

definition ql_netcard_ipv4_address_check :: "udhcpc_env \<Rightarrow> nat \<Rightarrow> u32 \<Rightarrow> bool" where
  "ql_netcard_ipv4_address_check e k ip \<longleftrightarrow> ue_addr e k = ip"

section \<open>Interface\<close>

definition ql_set_mtu :: "udhcpc_env \<Rightarrow> string \<Rightarrow> int \<Rightarrow> net \<Rightarrow> net" where
  "ql_set_mtu e ifname mtu n = (case ue_mtu e of None \<Rightarrow> n
     | Some m \<Rightarrow> if m \<noteq> mtu then act (Net_Mtu (take (IFNAMSIZ - 1) ifname) mtu) n else n)"

text \<open>The flag says that the mode was changed. Two bytes are read over \<open>"X"\<close> and written back.\<close>

definition ql_raw_ip_mode_check :: "udhcpc_env \<Rightarrow> string \<Rightarrow> u32 \<Rightarrow> net \<Rightarrow> bool \<times> net" where
  "ql_raw_ip_mode_check e ifname ip n =
     (let f = c_snprintf 128 (SYS_NET @ ifname @ ''/qmi/raw_ip'') in
      if ql_netcard_ipv4_address_check e 0 (qmi2addr ip) then (False, n)
      else case ne_file (ue_files e) f of
        Absent \<Rightarrow> (False, n)
      | Denied \<Rightarrow> (False, n)
      | Present s \<Rightarrow>
          let mode = take 2 s @ drop (length s) [CHR ''X'', CHR 0x00] in
          if mode ! 0 = CHR ''0'' \<or> mode ! 0 = CHR ''N''
          then (True, ql_system (''ifconfig '' @ ifname @ '' up'')
                 (act (Net_Write f [CHR ''Y'', mode ! 1]) (ql_system (''ifconfig '' @ ifname @ '' down'') n)))
          else (False, n))"

text \<open>The number written and its text; the array of 128 bytes is written whole, the rest of the file's name
  behind the text. After that the array is read over.\<close>

definition link_number :: "profile \<Rightarrow> bool \<Rightarrow> int" where
  "link_number p on = (if qmap_mode p \<le> 1 then of_bool on else (if on then 0 else 0x80) + (muxid p AND 0x7F))"

definition link_off_text :: "string \<Rightarrow> bool" where
  "link_off_text b \<longleftrightarrow> map c_tolower (take 2 b) = [CHR ''0'', NL] \<or> map c_tolower (take 4 b) = [CHR ''0'', CHR ''x'', CHR ''0'', NL]"

definition ql_set_driver_link_state :: "udhcpc_env \<Rightarrow> profile \<Rightarrow> bool \<Rightarrow> net \<Rightarrow> net" where
  "ql_set_driver_link_state e p on n =
     (let f = c_snprintf 128 (SYS_NET @ usbnet_adapter p @ ''/link_state'') in
      case ne_file (ue_files e) f of
        Absent \<Rightarrow> n
      | Denied \<Rightarrow> n
      | Present s \<Rightarrow>
          let t = show_int (link_number p on) @ [NL];
              n = act (Net_Write f t) n;
              b = (case ue_link_state e of None \<Rightarrow> t | Some r \<Rightarrow> r @ drop (length r) t);
              big = (case ue_link_state e of None \<Rightarrow> True | Some r \<Rightarrow> length r > 1) in
          if \<not> on \<and> qmapnet_adapter p \<noteq> [] \<and> qmapnet_adapter p \<noteq> usbnet_adapter p \<and> big \<and> link_off_text b
          then ql_system (''ifconfig '' @ usbnet_adapter p @ '' down'') n else n)"

text \<open>A shift by the whole width is undefined.\<close>

definition netmask_of :: "nat \<Rightarrow> u32 option" where
  "netmask_of prefix = (if 1 \<le> prefix \<and> prefix \<le> 32
     then Some (push_bit (32 - prefix) (drop_bit (32 - prefix) 0xFFFFFFFF)) else None)"

definition update_ipv4_address :: "udhcpc_env \<Rightarrow> string \<Rightarrow> string \<Rightarrow> string \<Rightarrow> nat \<Rightarrow> net \<Rightarrow> net option" where
  "update_ipv4_address e ifname ip gw prefix n =
     (if ue_ip_tool e
      then Some (ql_system (''ip -4 route add default via '' @ gw @ '' dev '' @ ifname)
        (ql_system (''ip -4 address add '' @ ip @ ''/'' @ show_nat prefix @ '' dev '' @ ifname)
          (ql_system (''ip -4 address flush dev '' @ ifname) n)))
      else do {
        m \<leftarrow> netmask_of prefix;
        Some (ql_system (''route add default gw '' @ gw @ '' dev '' @ ifname)
          (repeat (ue_default_routes e + 1) (ql_system (''route del default dev '' @ ifname))
            (ql_system (''ifconfig '' @ ifname @ '' '' @ ip @ '' netmask '' @ ipv4Str m) n))) })"

definition update_ipv6_address :: "udhcpc_env \<Rightarrow> string \<Rightarrow> string \<Rightarrow> nat \<Rightarrow> net \<Rightarrow> net" where
  "update_ipv6_address e ifname ip prefix n =
     (if ue_ip_tool e
      then ql_system (''ip -6 route add default dev '' @ ifname)
        (ql_system (''ip -6 address add '' @ ip @ ''/'' @ show_nat prefix @ '' dev '' @ ifname)
          (ql_system (''ip -6 address flush dev '' @ ifname) n))
      else ql_system (''route -A inet6 add default dev '' @ ifname)
        (ql_system (''ifconfig '' @ ifname @ '' '' @ ip @ ''/'' @ show_nat prefix) n))"

definition resolv :: "udhcpc_env \<Rightarrow> int \<Rightarrow> string \<Rightarrow> string option \<Rightarrow> string option \<Rightarrow> net \<Rightarrow> net" where
  "resolv e v ifname d1 d2 n = n\<lparr>net_resolv := update_resolv_conf (ue_resolv_writable e) v ifname d1 d2 (net_resolv n)\<rparr>"

text \<open>The number of bits set in the mask, whatever their places.\<close>

definition mask_bits :: "u32 \<Rightarrow> nat" where
  "mask_bits m = length (filter (bit m) [0..<32])"

definition set_ipv4_by_qmi :: "udhcpc_env \<Rightarrow> string \<Rightarrow> ipv4_t \<Rightarrow> net \<Rightarrow> net option" where
  "set_ipv4_by_qmi e ifname a n =
     (if Address a = 0 then Some n
      else do {
        n \<leftarrow> update_ipv4_address e ifname (ipv4Str (Address a)) (ipv4Str (Gateway a)) (mask_bits (SubnetMask a)) n;
        Some (if DnsPrimary a = 0 then n
          else resolv e 4 ifname (Some (ipv4Str (DnsPrimary a)))
            (Some (ipv4Str (if DnsSecondary a \<noteq> 0 then DnsSecondary a else DnsPrimary a))) n) })"

definition has_ipv6 :: "ipv6_t \<Rightarrow> bool" where
  "has_ipv6 a \<longleftrightarrow> byte_at (Address6 a) 0 \<noteq> 0 \<and> PrefixLengthIPAddr a \<noteq> 0"

definition set_ipv6_by_qmi :: "udhcpc_env \<Rightarrow> string \<Rightarrow> ipv6_t \<Rightarrow> net \<Rightarrow> net" where
  "set_ipv6_by_qmi e ifname a n =
     (if \<not> has_ipv6 a then n
      else let n = update_ipv6_address e ifname (ipv6Str (Address6 a)) (unat (PrefixLengthIPAddr a)) n in
        if byte_at (DnsPrimary6 a) 0 = 0 then n
        else resolv e 6 ifname (Some (ipv6Str (DnsPrimary6 a)))
          (Some (ipv6Str (if byte_at (DnsSecondary6 a) 0 \<noteq> 0 then DnsSecondary6 a else DnsPrimary6 a))) n)"

definition update_ip_address_by_qmi :: "udhcpc_env \<Rightarrow> string \<Rightarrow> ipv4_t option \<Rightarrow> ipv6_t option \<Rightarrow> net \<Rightarrow> net option" where
  "update_ip_address_by_qmi e ifname a b n = do {
     n \<leftarrow> (case a of None \<Rightarrow> Some n | Some a \<Rightarrow> set_ipv4_by_qmi e ifname a n);
     Some (case b of None \<Rightarrow> n | Some b \<Rightarrow> set_ipv6_by_qmi e ifname b n) }"

section \<open>Start and stop\<close>

definition link_up :: "udhcpc_env \<Rightarrow> profile \<Rightarrow> net \<Rightarrow> net" where
  "link_up e p n =
     (let ifname = qmap_ifname p;
          n = ql_set_driver_link_state e p True n;
          n = (if rawIP p \<noteq> 0 \<and> Address (ipv4 p) \<noteq> 0 \<and> Mtu (ipv4 p) \<noteq> 0 then ql_set_mtu e ifname (sint (Mtu (ipv4 p))) n else n);
          n = (if ifname \<noteq> usbnet_adapter p
            then (let n = ql_system (''ifconfig '' @ usbnet_adapter p @ '' up'') n in
              if ue_up e then ql_system (''ifconfig '' @ ifname @ '' down'') n else n)
            else n)
      in ql_system (''ifconfig '' @ ifname @ '' up'') n)"

text \<open>A modem that is asked through QMI may have left the interface in the wrong mode; when no script set the
  address, it is set directly.\<close>

definition run_udhcpc :: "string \<Rightarrow> net \<Rightarrow> net" where
  "run_udhcpc ifname = act (Net_Popen (c_snprintf 128 (''busybox udhcpc -f -n -q -t 5 -i '' @ ifname)))"

definition dhcp_ipv4 :: "request_kind \<Rightarrow> udhcpc_env \<Rightarrow> profile \<Rightarrow> net \<Rightarrow> net option" where
  "dhcp_ipv4 k e p n =
     (let ifname = qmap_ifname p; a = Address (ipv4 p); n = run_udhcpc ifname n in
      case k of
        Mbim_Requests \<Rightarrow> Some n
      | Atc_Requests \<Rightarrow> Some (if ql_netcard_ipv4_address_check e 0 (qmi2addr a) then n else act (Net_Carrier ifname) n)
      | Qmi_Requests \<Rightarrow>
          let (changed, n) = ql_raw_ip_mode_check e ifname a n;
              n = (if changed then run_udhcpc ifname n else n) in do {
          n \<leftarrow> (if ql_netcard_ipv4_address_check e 1 (qmi2addr a) then Some n
               else update_ip_address_by_qmi e ifname (Some (ipv4 p)) None n);
          Some (act (Net_Popen (c_snprintf 128 (''route -n | grep '' @ ifname @ '' | awk '' @ [CHR 0x27] @ ''{print $1}'' @ [CHR 0x27]
            @ '' | grep 0.0.0.0''))) n) })"

definition setup_ipv6 :: "udhcpc_env \<Rightarrow> profile \<Rightarrow> net \<Rightarrow> net option" where
  "setup_ipv6 e p n =
     (let a = ipv6 p; ifname = qmap_ifname p;
          d1 = byte_at (DnsPrimary6 a) 0 \<noteq> 0; d2 = byte_at (DnsSecondary6 a) 0 \<noteq> 0 in
      if \<not> has_ipv6 a then Some n
      else do {
        n \<leftarrow> update_ip_address_by_qmi e ifname None (Some a) n;
        Some (if d1 \<or> d2
          then resolv e 6 ifname (if d1 then Some (ipv6Str (DnsPrimary6 a)) else None)
            (if d2 then Some (ipv6Str (DnsSecondary6 a)) else None) n
          else n) })"

definition udhcpc_start :: "request_kind \<Rightarrow> udhcpc_env \<Rightarrow> profile \<Rightarrow> net \<Rightarrow> net option" where
  "udhcpc_start k e p n =
     (let n = link_up e p n;
          (bridged, acts) = ql_bridge_mode_detect (ue_files e) p;
          n = n\<lparr>net_acts := net_acts n @ acts\<rparr> in
      if bridged then Some n
      else do {
        n \<leftarrow> (if Address (ipv4 p) = 0 then Some n
             else if k = Mbim_Requests then update_ip_address_by_qmi e (qmap_ifname p) (Some (ipv4 p)) None n
             else dhcp_ipv4 k e p n);
        setup_ipv6 e p n })"

text \<open>\<open>dibbler_client_alive\<close> is never set where the code is compiled.\<close>

definition udhcpc_stop :: "udhcpc_env \<Rightarrow> profile \<Rightarrow> net \<Rightarrow> net" where
  "udhcpc_stop e p n =
     (let n = ql_set_driver_link_state e p False n in
      ql_system (''ifconfig '' @ qmap_ifname p @ '' down'')
        (ql_system (''ifconfig '' @ qmap_ifname p @ '' 0.0.0.0'') n))"

section \<open>Masks\<close>

lemma netmask_bit:
  assumes "netmask_of p = Some m" "j < 32"
  shows "bit m j \<longleftrightarrow> 32 - p \<le> j"
proof -
  have f: "(0xFFFFFFFF :: u32) = mask 32" by (simp add: mask_eq_exp_minus_1)
  have "m = push_bit (32 - p) (drop_bit (32 - p) 0xFFFFFFFF)" using assms(1) by (simp add: netmask_of_def split: if_splits)
  then show ?thesis using assms(2) unfolding f by (auto simp: bit_push_bit_iff bit_drop_bit_eq bit_mask_iff)
qed

lemma netmask_bits:
  assumes "netmask_of p = Some m"
  shows "mask_bits m = p"
proof -
  have p: "p \<le> 32" using assms by (simp add: netmask_of_def split: if_splits)
  have "filter (bit m) [0..<32] = filter (\<lambda>j. 32 - p \<le> j) [0..<32]"
    by (rule filter_cong) (use netmask_bit [OF assms] in auto)
  also have "\<dots> = [32 - p..<32]"
  proof -
    have "[0..<32] = [0..<32 - p] @ [32 - p..<32]" using upt_add_eq_append [of 0 "32 - p" p] p by simp
    then have "filter (\<lambda>j. 32 - p \<le> j) [0..<32] = filter (\<lambda>j. 32 - p \<le> j) [0..<32 - p] @ filter (\<lambda>j. 32 - p \<le> j) [32 - p..<32]"
      by (simp only: filter_append)
    also have "\<dots> = [32 - p..<32]" by (simp add: filter_empty_conv filter_id_conv)
    finally show ?thesis .
  qed
  finally have "length (filter (bit m) [0..<32]) = length [32 - p..<32]" by (simp only:)
  then show ?thesis using p by (simp add: mask_bits_def)
qed

text \<open>The commands that set an address.\<close>

definition ip_commands :: "string \<Rightarrow> string \<Rightarrow> string \<Rightarrow> nat \<Rightarrow> string list" where
  "ip_commands ifname ip gw p = [''ip -4 address flush dev '' @ ifname,
     ''ip -4 address add '' @ ip @ ''/'' @ show_nat p @ '' dev '' @ ifname,
     ''ip -4 route add default via '' @ gw @ '' dev '' @ ifname]"

definition ifconfig_commands :: "nat \<Rightarrow> string \<Rightarrow> string \<Rightarrow> string \<Rightarrow> u32 \<Rightarrow> string list" where
  "ifconfig_commands k ifname ip gw m = (''ifconfig '' @ ifname @ '' '' @ ip @ '' netmask '' @ ipv4Str m) #
     replicate (k + 1) (''route del default dev '' @ ifname) @ [''route add default gw '' @ gw @ '' dev '' @ ifname]"

definition run_all :: "string list \<Rightarrow> net \<Rightarrow> net" where
  "run_all cs n = n\<lparr>net_acts := net_acts n @ map (\<lambda>c. Net_System (c_snprintf 128 c)) cs\<rparr>"

lemma run_all_simps:
  "run_all [] n = n" "ql_system c n = run_all [c] n" "run_all cs (run_all ds n) = run_all (ds @ cs) n"
  by (simp_all add: run_all_def ql_system_def act_def)

lemma run_repeat: "repeat k (ql_system c) n = run_all (replicate k c) n"
proof (induction k arbitrary: n)
  case (Suc k)
  have "repeat (Suc k) (ql_system c) n = run_all (replicate k c) (ql_system c n)" by (simp add: Suc.IH)
  also have "\<dots> = run_all (replicate (Suc k) c) n" by (simp add: run_all_simps)
  finally show ?case .
qed (simp add: run_all_simps)

lemma update_ipv4_commands:
  assumes "netmask_of p = Some m"
  shows "update_ipv4_address e ifname ip gw p n =
    Some (run_all (if ue_ip_tool e then ip_commands ifname ip gw p else ifconfig_commands (ue_default_routes e) ifname ip gw m) n)"
proof (cases "ue_ip_tool e")
  case True
  then show ?thesis by (simp add: update_ipv4_address_def ip_commands_def run_all_simps)
next
  case False
  have r: "ql_system (''route add default gw '' @ gw @ '' dev '' @ ifname)
          (repeat (ue_default_routes e + 1) (ql_system (''route del default dev '' @ ifname))
            (ql_system (''ifconfig '' @ ifname @ '' '' @ ip @ '' netmask '' @ ipv4Str m) n)) =
      run_all (ifconfig_commands (ue_default_routes e) ifname ip gw m) n"
    unfolding run_repeat by (simp only: run_all_simps(2,3) ifconfig_commands_def append_Cons append_Nil)
  show ?thesis using False assms unfolding update_ipv4_address_def by (simp only: if_False bind.bind_lunit r)
qed

text \<open>The address the modem gave is set with its own mask. The code counts the bits of the mask and, without
  \<^verbatim>\<open>/sbin/ip\<close>, builds a mask from the count: for every mask of leading ones this is the mask itself, and the
  commands are those that set the address, the mask or its length, and the default route.\<close>

theorem ipv4_set_with_given_mask:
  assumes "netmask_of p = Some (SubnetMask a)" "Address a \<noteq> 0"
  shows "\<exists>n'. set_ipv4_by_qmi e ifname a n = Some n' \<and>
    net_acts n' = net_acts n @ map (\<lambda>c. Net_System (c_snprintf 128 c))
      (if ue_ip_tool e then ip_commands ifname (ipv4Str (Address a)) (ipv4Str (Gateway a)) p
       else ifconfig_commands (ue_default_routes e) ifname (ipv4Str (Address a)) (ipv4Str (Gateway a)) (SubnetMask a)) \<and>
    net_resolv n' = (if DnsPrimary a = 0 then net_resolv n
      else update_resolv_conf (ue_resolv_writable e) 4 ifname (Some (ipv4Str (DnsPrimary a)))
        (Some (ipv4Str (if DnsSecondary a \<noteq> 0 then DnsSecondary a else DnsPrimary a))) (net_resolv n))"
  using assms(2) netmask_bits [OF assms(1)] update_ipv4_commands [OF assms(1)]
  by (simp add: set_ipv4_by_qmi_def resolv_def run_all_def)

theorem ipv4_set_with_given_mask_witness:
  "\<exists>n'. set_ipv4_by_qmi \<lparr>ue_files = \<lparr>ne_file = \<lambda>f. Absent, ne_driver = None, ne_rmnet = \<lambda>n. None\<rparr>, ue_ip_tool = False,
        ue_default_routes = 0, ue_up = False, ue_mtu = None, ue_addr = \<lambda>k. 0, ue_link_state = None, ue_resolv_writable = True\<rparr>
      ''wwan0'' (ipv4_zero\<lparr>Address := 0x0A000002, Gateway := 0x0A000001, SubnetMask := 0xFFFFFFFC\<rparr>)
      \<lparr>net_acts = [], net_resolv = Absent\<rparr> = Some n' \<and>
    net_acts n' ! 0 = Net_System ''ifconfig wwan0 10.0.0.2 netmask 255.255.255.252''"
proof -
  let ?a = "ipv4_zero\<lparr>Address := 0x0A000002, Gateway := 0x0A000001, SubnetMask := 0xFFFFFFFC\<rparr>"
  define e where "e = \<lparr>ue_files = \<lparr>ne_file = \<lambda>f. Absent, ne_driver = None, ne_rmnet = \<lambda>n. None\<rparr>, ue_ip_tool = False,
        ue_default_routes = 0, ue_up = False, ue_mtu = None, ue_addr = \<lambda>k. 0, ue_link_state = None, ue_resolv_writable = True\<rparr>"
  have m: "netmask_of 30 = Some (SubnetMask ?a)" by code_simp
  have s: "ipv4Str 0x0A000002 = ''10.0.0.2''" "ipv4Str 0xFFFFFFFC = ''255.255.255.252''" by code_simp+
  have "Address ?a \<noteq> 0" by simp
  from ipv4_set_with_given_mask [OF m this, of e "''wwan0''" "\<lparr>net_acts = [], net_resolv = Absent\<rparr>"]
  obtain n' where "set_ipv4_by_qmi e ''wwan0'' ?a \<lparr>net_acts = [], net_resolv = Absent\<rparr> = Some n'"
    "net_acts n' = map (\<lambda>c. Net_System (c_snprintf 128 c))
      (ifconfig_commands 0 ''wwan0'' (ipv4Str 0x0A000002) (ipv4Str 0x0A000001) 0xFFFFFFFC)"
    by (auto simp: e_def)
  then show ?thesis unfolding e_def by (simp add: ifconfig_commands_def s c_snprintf_def)
qed

text \<open>Without a mask and without \<^verbatim>\<open>/sbin/ip\<close> the code shifts by the whole width.\<close>

lemma missing_mask_undefined:
  "\<not> ue_ip_tool e \<Longrightarrow> Address a \<noteq> 0 \<Longrightarrow> SubnetMask a = 0 \<Longrightarrow> set_ipv4_by_qmi e ifname a n = None"
  by (simp add: set_ipv4_by_qmi_def update_ipv4_address_def mask_bits_def netmask_of_def)

section \<open>A connection started\<close>

lemma plain_link_up:
  assumes "qmapnet_adapter p = []" "rawIP p = 0 \<or> Mtu (ipv4 p) = 0" "bridge_files (ue_files e) p = None"
  shows "link_up e p n = run_all [''ifconfig '' @ usbnet_adapter p @ '' up''] (ql_set_driver_link_state e p True n)"
    "ql_bridge_mode_detect (ue_files e) p = (False, [])"
  using assms by (auto simp: link_up_def qmap_ifname_def Let_def run_all_simps ql_bridge_mode_detect_def)

text \<open>Property C14: starting the interface of an MBIM modem that gave an IPv4 address tells the driver, brings the interface
  up, sets the address, the mask and the default route, and makes the modem's name servers those of the
  interface. No address is asked for by DHCP.\<close>

theorem mbim_start_sets_address:
  assumes "qmapnet_adapter p = []" "rawIP p = 0 \<or> Mtu (ipv4 p) = 0" "bridge_files (ue_files e) p = None"
    and "Address (ipv4 p) \<noteq> 0" "netmask_of l = Some (SubnetMask (ipv4 p))" "DnsPrimary (ipv4 p) \<noteq> 0" "\<not> has_ipv6 (ipv6 p)"
    and "ue_ip_tool e"
  shows "\<exists>n'. udhcpc_start Mbim_Requests e p n = Some n' \<and>
    net_acts n' = net_acts (ql_set_driver_link_state e p True n) @ map (\<lambda>c. Net_System (c_snprintf 128 c))
      ((''ifconfig '' @ usbnet_adapter p @ '' up'') #
        ip_commands (usbnet_adapter p) (ipv4Str (Address (ipv4 p))) (ipv4Str (Gateway (ipv4 p))) l) \<and>
    net_resolv n' = update_resolv_conf (ue_resolv_writable e) 4 (usbnet_adapter p) (Some (ipv4Str (DnsPrimary (ipv4 p))))
      (Some (ipv4Str (if DnsSecondary (ipv4 p) \<noteq> 0 then DnsSecondary (ipv4 p) else DnsPrimary (ipv4 p)))) (net_resolv n)"
proof -
  have q: "qmap_ifname p = usbnet_adapter p" using assms(1) by (simp add: qmap_ifname_def)
  have r: "net_resolv (ql_set_driver_link_state e p True n) = net_resolv n"
    by (simp add: ql_set_driver_link_state_def act_def ql_system_def Let_def split: path_state.splits)
  show ?thesis
    using plain_link_up [OF assms(1-3)] assms(4,6-8) netmask_bits [OF assms(5)] update_ipv4_commands [OF assms(5)] q r
    by (simp add: udhcpc_start_def update_ip_address_by_qmi_def set_ipv4_by_qmi_def setup_ipv6_def resolv_def run_all_def Let_def)
qed

theorem mbim_start_sets_address_witness:
  "\<exists>n'. udhcpc_start Mbim_Requests \<lparr>ue_files = \<lparr>ne_file = \<lambda>f. Absent, ne_driver = None, ne_rmnet = \<lambda>n. None\<rparr>, ue_ip_tool = True,
        ue_default_routes = 0, ue_up = False, ue_mtu = None, ue_addr = \<lambda>k. 0, ue_link_state = None, ue_resolv_writable = True\<rparr>
      (profile_zero\<lparr>usbnet_adapter := ''wwan0'',
        ipv4 := ipv4_zero\<lparr>Address := 0x0A000002, Gateway := 0x0A000001, SubnetMask := 0xFFFFFFFC, DnsPrimary := 0x08080808\<rparr>\<rparr>)
      \<lparr>net_acts = [], net_resolv = Absent\<rparr> = Some n' \<and>
    net_acts n' = [Net_System ''ifconfig wwan0 up'', Net_System ''ip -4 address flush dev wwan0'',
      Net_System ''ip -4 address add 10.0.0.2/30 dev wwan0'', Net_System ''ip -4 route add default via 10.0.0.1 dev wwan0''] \<and>
    net_resolv n' = Present (text_of [''nameserver 8.8.8.8 # IPV4 wwan0'', ''nameserver 8.8.8.8 # IPV4 wwan0''])"
proof -
  let ?e = "\<lparr>ue_files = \<lparr>ne_file = \<lambda>f. Absent, ne_driver = None, ne_rmnet = \<lambda>n. None\<rparr>, ue_ip_tool = True,
        ue_default_routes = 0, ue_up = False, ue_mtu = None, ue_addr = \<lambda>k. 0, ue_link_state = None, ue_resolv_writable = True\<rparr>"
  let ?a = "ipv4_zero\<lparr>Address := 0x0A000002, Gateway := 0x0A000001, SubnetMask := 0xFFFFFFFC, DnsPrimary := 0x08080808\<rparr>"
  let ?p = "profile_zero\<lparr>usbnet_adapter := ''wwan0'', ipv4 := ?a\<rparr>"
  let ?n = "\<lparr>net_acts = [], net_resolv = Absent\<rparr>"
  have m: "netmask_of 30 = Some (SubnetMask (ipv4 ?p))" by code_simp
  have s: "ipv4Str 0x0A000002 = ''10.0.0.2''" "ipv4Str 0x0A000001 = ''10.0.0.1''" "ipv4Str 0x08080808 = ''8.8.8.8''" "show_nat 30 = ''30''"
    by code_simp+
  have u: "update_resolv_conf True 4 ''wwan0'' (Some ''8.8.8.8'') (Some ''8.8.8.8'') Absent =
    Present (text_of [''nameserver 8.8.8.8 # IPV4 wwan0'', ''nameserver 8.8.8.8 # IPV4 wwan0''])" by code_simp
  have f: "bridge_files (ue_files ?e) ?p = None" by (simp add: bridge_files_def Let_def readable_def)
  have k: "ql_set_driver_link_state ?e ?p True ?n = ?n" by (simp add: ql_set_driver_link_state_def Let_def)
  show ?thesis
    using mbim_start_sets_address [OF _ _ f _ m, of ?n] u
    by (simp add: k) (simp add: profile_zero_def ipv4_zero_def ipv6_zero_def has_ipv6_def byte_at_def ip_commands_def s c_snprintf_def)
qed

end
