(* ===== verification/Gobi_Net.thy ===== *)
theory Gobi_Net
  imports Qmi_Link
begin

text \<open>
  \<^verbatim>\<open>quectel_cm_5G/src/GobiNetCM.c\<close>: QMI over the devices of the driver GobiNet. Each service has a
  descriptor of its own; a message is written to it and read from it without its header, which the code
  puts in front of what it reads. \<open>None\<close> is an access outside a message or the table.
\<close>

section \<open>State\<close>

text \<open>The entries of \<open>qmiclientId\<close>, descriptors here, and the exchange they serve.\<close>

definition QMUX_TYPE_ALL :: nat where "QMUX_TYPE_ALL = 255"

record gobi =
  gb_fd :: "nat \<Rightarrow> int"
  gb_link :: qmi

datatype gobi_event = Gb_Read int bytes | Gb_Read_Fails | Gb_Hup | Gb_Idle | Gb_Poll_Fails | Gb_Quit | Gb_Stop | Gb_Other

section \<open>Sending\<close>

text \<open>The low byte of the descriptor is the client id, the service where it is zero.\<close>

definition gobi_client :: "int \<Rightarrow> byte \<Rightarrow> byte" where
  "gobi_client fd t = (if fd AND 0xFF \<noteq> 0 then word_of_int (fd AND 0xFF) else t)"

text \<open>The result, the request as it is left, and what is handed to \<open>write\<close>; \<open>io\<close> is what \<open>write\<close> returns.\<close>

definition GobiNetSendQMI :: "int \<Rightarrow> bytes \<Rightarrow> gobi \<Rightarrow> (int \<times> bytes \<times> (int \<times> bytes) option) option" where
  "GobiNetSendQMI io req g = do {
     t \<leftarrow> qmi_type req;
     (if QMUX_TYPE_ALL \<le> unat t \<or> length req < 6 then None
      else let fd = gb_fd g (unat t); req = req[5 := gobi_client fd t] in
        if fd \<le> 0 then Some (- ENODEV, req, None)
        else do {
          l \<leftarrow> qmi_length req;
          (if unat l + 1 < 6 then None
           else do {
             m \<leftarrow> rdn req 6 (unat l + 1 - 6);
             Some (if io = int (unat l + 1 - 6) then 0 else io, req, Some (fd, m)) }) }) }"

section \<open>Services\<close>

text \<open>The descriptor, \<open>-1\<close> where the device cannot be opened and 0 where the driver has no client for the service.\<close>

datatype gobi_open = Open_Fails | No_Client | Client int

definition GobiNetGetClientID :: "gobi_open \<Rightarrow> int" where
  "GobiNetGetClientID r = (case r of Open_Fails \<Rightarrow> -1 | No_Client \<Rightarrow> 0 | Client fd \<Rightarrow> fd)"

definition set_service :: "byte \<Rightarrow> gobi_open \<Rightarrow> gobi \<Rightarrow> gobi" where
  "set_service t r g = g\<lparr>gb_fd := (gb_fd g)(unat t := GobiNetGetClientID r)\<rparr>"

definition GobiNetDeInit :: "gobi \<Rightarrow> gobi" where
  "GobiNetDeInit g = g\<lparr>gb_fd := (\<lambda>i. if i < QMUX_TYPE_ALL then 0 else gb_fd g i)\<rparr>"

text \<open>The start of \<open>GobiNetThread\<close>: \<open>answers\<close> are those of the driver for the two data services, device,
  network and SIM, and the administration. The flag says that the loop is entered.\<close>

record gobi_answers =
  ga_wds :: gobi_open
  ga_wds6 :: gobi_open
  ga_dms :: gobi_open
  ga_nas :: gobi_open
  ga_uim :: gobi_open
  ga_wda :: gobi_open

definition gobi_services :: "gobi_answers \<Rightarrow> profile \<Rightarrow> gobi \<Rightarrow> profile \<times> gobi" where
  "gobi_services a p g =
     (let g = set_service QMUX_TYPE_WDS (ga_wds a) g;
          g = (if enable_ipv6 p then set_service QMUX_TYPE_WDS_IPV6 (ga_wds6 a) g else g);
          g = set_service QMUX_TYPE_DMS (ga_dms a) g;
          g = set_service QMUX_TYPE_NAS (ga_nas a) g;
          g = set_service QMUX_TYPE_UIM (ga_uim a) g
      in if qmap_mode p = 0 \<or> loopback_state p \<noteq> 0
         then (let g = set_service QMUX_TYPE_WDS_ADMIN (ga_wda a) g in
           (p\<lparr>wda_client := gb_fd g (unat QMUX_TYPE_WDS_ADMIN)\<rparr>, g))
         else (p, g))"

definition tell_main :: "main_event \<Rightarrow> gobi \<Rightarrow> gobi" where
  "tell_main e g = g\<lparr>gb_link := send_to_main (e, None) (gb_link g)\<rparr>"

definition gobi_start :: "gobi_answers \<Rightarrow> profile \<Rightarrow> gobi \<Rightarrow> bool \<times> profile \<times> gobi" where
  "gobi_start a p g =
     (let (p, g) = gobi_services a p g in
      if gb_fd g (unat QMUX_TYPE_WDS) = 0
      then (False, p, tell_main RIL_INDICATE_DEVICE_DISCONNECTED (GobiNetDeInit g))
      else (True, p, tell_main RIL_INDICATE_DEVICE_CONNECTED
        (g\<lparr>gb_link := (gb_link g)\<lparr>thread_on := True, wait_for_quit := False\<rparr>\<rparr>)))"

section \<open>Receiving\<close>

text \<open>The service a descriptor belongs to, the last one where it has several.\<close>

definition service_of :: "(nat \<Rightarrow> int) \<Rightarrow> int \<Rightarrow> nat option" where
  "service_of f fd = (case rev (filter (\<lambda>i. f i = fd) [0..<QMUX_TYPE_ALL]) of [] \<Rightarrow> None | i # _ \<Rightarrow> Some i)"

definition USB_CTL_MSG_TYPE_QMI :: byte where "USB_CTL_MSG_TYPE_QMI = 0x01"

text \<open>At most 4096 bytes less the header are read.\<close>

definition gobi_frame :: "int \<Rightarrow> nat \<Rightarrow> bytes \<Rightarrow> bytes" where
  "gobi_frame fd t m = (let m = take (4096 - 6) m in
     [USB_CTL_MSG_TYPE_QMI] @ le16 (of_nat (length m + 6 - 1)) @ [0x00, of_nat t, gobi_client fd (of_nat t)] @ m)"

definition gobi_quit :: "gobi \<Rightarrow> gobi option" where
  "gobi_quit g = do {
     l \<leftarrow> QmiThreadRecvQMI None (gb_link (tell_main RIL_INDICATE_DEVICE_DISCONNECTED (GobiNetDeInit g)));
     Some ((GobiNetDeInit g)\<lparr>gb_link := l\<lparr>thread_on := False\<rparr>\<rparr>) }"

text \<open>One event; only descriptors of the table are polled.\<close>

definition GobiNetThread :: "gobi_event \<Rightarrow> gobi \<Rightarrow> gobi option" where
  "GobiNetThread e g =
     (if \<not> thread_on (gb_link g) then Some g
      else case e of
        Gb_Idle \<Rightarrow> (if wait_for_quit (gb_link g)
          then do { l \<leftarrow> QmiThreadRecvQMI None (gb_link g); Some (g\<lparr>gb_link := l\<rparr>) } else gobi_quit g)
      | Gb_Poll_Fails \<Rightarrow> gobi_quit g
      | Gb_Hup \<Rightarrow> gobi_quit g
      | Gb_Quit \<Rightarrow> gobi_quit g
      | Gb_Stop \<Rightarrow> Some (g\<lparr>gb_link := (gb_link g)\<lparr>wait_for_quit := True\<rparr>\<rparr>)
      | Gb_Other \<Rightarrow> Some g
      | Gb_Read_Fails \<Rightarrow> Some g
      | Gb_Read fd m \<Rightarrow> (case service_of (gb_fd g) fd of
          None \<Rightarrow> Some g
        | Some t \<Rightarrow> do { l \<leftarrow> QmiThreadRecvQMI (Some (gobi_frame fd t m)) (gb_link g); Some (g\<lparr>gb_link := l\<rparr>) }))"

section \<open>Answers\<close>

lemma service_of_unique:
  assumes "i < QMUX_TYPE_ALL" "f i = fd" "\<And>j. j < QMUX_TYPE_ALL \<Longrightarrow> f j = fd \<Longrightarrow> j = i"
  shows "service_of f fd = Some i"
proof -
  have s: "j = i" if "j \<in> set (filter (\<lambda>i. f i = fd) [0..<QMUX_TYPE_ALL])" for j using that assms(3) by auto
  have "i \<in> set (filter (\<lambda>i. f i = fd) [0..<QMUX_TYPE_ALL])" using assms(1,2) by simp
  then obtain x xs where x: "rev (filter (\<lambda>i. f i = fd) [0..<QMUX_TYPE_ALL]) = x # xs"
    by (metis list.exhaust rev_is_Nil_conv empty_iff empty_set)
  then have "x \<in> set (rev (filter (\<lambda>i. f i = fd) [0..<QMUX_TYPE_ALL]))" by simp
  then have "x = i" using s by simp
  then show ?thesis by (simp add: service_of_def x)
qed

lemma frame_fields:
  assumes "length m \<le> 4090" "2 < length m"
  shows "qmi_type (gobi_frame fd t m) = Some (of_nat t)" "qmi_client (gobi_frame fd t m) = Some (gobi_client fd (of_nat t))"
    "mux_tid (gobi_frame fd t m) = rd16 m 1"
proof -
  let ?h = "[USB_CTL_MSG_TYPE_QMI] @ le16 (of_nat (length m + 6 - 1)) @ [0x00, of_nat t, gobi_client fd (of_nat t)]"
  have e: "gobi_frame fd t m = ?h @ m" using assms(1) by (simp add: gobi_frame_def Let_def)
  have l: "length ?h = 6" by simp
  have "(7 :: nat) = length ?h + 1" by (simp only: l)
  then show "mux_tid (gobi_frame fd t m) = rd16 m 1" unfolding e mux_tid_def by (simp only: rd16_append)
  show "qmi_type (gobi_frame fd t m) = Some (of_nat t)" "qmi_client (gobi_frame fd t m) = Some (gobi_client fd (of_nat t))"
    by (simp_all add: e qmi_type_def qmi_client_def rd8_def le16_def)
qed

lemma sent_request:
  assumes "GobiNetSendQMI io req g = Some (r, req', Some w)" "qmi_type req = Some t"
  shows "unat t < QMUX_TYPE_ALL" "6 \<le> length req" "fst w = gb_fd g (unat t)" "0 < fst w" "req' = req[5 := gobi_client (fst w) t]"
  using assms by (auto simp: GobiNetSendQMI_def Let_def bind_eq_Some_conv split: if_splits)

lemma update_fields:
  assumes "6 \<le> length req"
  shows "qmi_type (req[5 := c]) = qmi_type req" "qmi_client (req[5 := c]) = Some c" "mux_tid (req[5 := c]) = mux_tid req"
  using assms by (simp_all add: qmi_type_def qmi_client_def mux_tid_def rd8_def rd16_def)

text \<open>No descriptor is in the table twice.\<close>

definition one_each :: "gobi \<Rightarrow> bool" where
  "one_each g \<longleftrightarrow> (\<forall>i < QMUX_TYPE_ALL. \<forall>j < QMUX_TYPE_ALL. 0 < gb_fd g i \<longrightarrow> gb_fd g i = gb_fd g j \<longrightarrow> i = j)"

text \<open>Property C10: a request to a service is answered by what is read from that service's descriptor and only by that:
  the frame put in front of the message carries the service and the client id of the request, so the
  message is taken for the answer exactly when the descriptor is the one the request was written to and
  the transaction numbers agree.\<close>

theorem gobi_answer_from_same_service:
  assumes "qmi_type req = Some t" "t \<noteq> QMUX_TYPE_CTL" "GobiNetSendQMI io req g = Some (r, req', Some w)" "one_each g"
    and "s < QMUX_TYPE_ALL" "gb_fd g s = fd" "0 < fd"
    and "2 < length m" "length m \<le> 4090" "mux_tid req = Some i" "rd16 m 1 = Some j"
  shows "service_of (gb_fd g) fd = Some s \<and> is_response req' (gobi_frame fd s m) = Some (fd = fst w \<and> i = j)"
proof
  note q = sent_request [OF assms(3,1)]
  note u = update_fields [OF q(2), of "gobi_client (fst w) t"]
  note f = frame_fields [OF assms(9,8), of fd s]
  show "service_of (gb_fd g) fd = Some s"
    by (rule service_of_unique) (use assms(4-7) in \<open>auto simp: one_each_def\<close>)
  have s: "unat (of_nat s :: byte) = s"
    using assms(5) by (simp only: unat_of_nat) (simp add: QMUX_TYPE_ALL_def take_bit_nat_eq_self)
  show "is_response req' (gobi_frame fd s m) = Some (fd = fst w \<and> i = j)"
  proof (cases "t = of_nat s")
    case True
    then have "unat t = s" using s by simp
    then have "fst w = fd" using q(3) assms(6) by simp
    then show ?thesis using True assms(1,2,10,11) u f unfolding q(5) by (simp add: is_response_def)
  next
    case False
    then have "unat t \<noteq> s" by auto
    then have "fd \<noteq> fst w" using q(1,3,4) assms(4-7) by (auto simp: one_each_def)
    then show ?thesis using False assms(1) u f unfolding q(5) by (simp add: is_response_def)
  qed
qed

definition demo_gobi :: gobi where
  "demo_gobi = \<lparr>gb_fd = (\<lambda>i. if i = 1 then 5 else if i = 3 then 6 else 0), gb_link = qmi_zero\<rparr>"

theorem gobi_answer_from_same_service_witness:
  "is_response [1, 12, 0, 0, 3, 6, 0, 7, 0, 0x20, 0, 0, 0] (gobi_frame 6 3 [2, 7, 0, 0x20, 0, 0, 0]) = Some True \<and>
   is_response [1, 12, 0, 0, 3, 6, 0, 7, 0, 0x20, 0, 0, 0] (gobi_frame 5 1 [2, 7, 0, 0x20, 0, 0, 0]) = Some False"
proof -
  let ?req = "[1, 12, 0, 0, 3, 0, 0, 7, 0, 0x20, 0, 0, 0] :: bytes"
  have s: "GobiNetSendQMI 7 ?req demo_gobi =
      Some (0, [1, 12, 0, 0, 3, 6, 0, 7, 0, 0x20, 0, 0, 0], Some (6, [0, 7, 0, 0x20, 0, 0, 0]))" by code_simp
  have o: "one_each demo_gobi" by (auto simp: one_each_def demo_gobi_def)
  have t: "qmi_type ?req = Some 3" "mux_tid ?req = Some 7" "rd16 [2, 7, 0, 0x20, 0, 0, 0] 1 = Some 7" by code_simp+
  have c: "(3 :: byte) \<noteq> QMUX_TYPE_CTL" "3 < QMUX_TYPE_ALL" "1 < QMUX_TYPE_ALL" by (simp_all add: QMUX_TYPE_CTL_def QMUX_TYPE_ALL_def)
  show ?thesis
    using gobi_answer_from_same_service [OF t(1) c(1) s o c(2), of 6 "[2, 7, 0, 0x20, 0, 0, 0]" 7 7]
      gobi_answer_from_same_service [OF t(1) c(1) s o c(3), of 5 "[2, 7, 0, 0x20, 0, 0, 0]" 7 7] t
    by (simp add: demo_gobi_def)
qed

text \<open>Property C33: a device that cannot be opened is reported as connected: the failed descriptor, \<open>-1\<close>, is not the 0 the
  code looks for. Every request to it is refused afterwards.\<close>

theorem gobi_unopened_counts_as_connected:
  assumes "\<forall>r \<in> {ga_wds a, ga_wds6 a, ga_dms a, ga_nas a, ga_uim a, ga_wda a}. r = Open_Fails" "\<forall>i. gb_fd g i = 0"
  shows "\<exists>p' g'. gobi_start a p g = (True, p', g') \<and>
    qmi_to_main (gb_link g') = qmi_to_main (gb_link g) @ [(RIL_INDICATE_DEVICE_CONNECTED, None)] \<and>
    (\<forall>io req t. qmi_type req = Some t \<longrightarrow> unat t < QMUX_TYPE_ALL \<longrightarrow> 6 \<le> length req \<longrightarrow>
      (\<exists>req'. GobiNetSendQMI io req g' = Some (- ENODEV, req', None)))"
proof -
  define s where "s = gobi_services a p g"
  have f: "gb_fd (snd s) i \<le> 0" for i
    using assms by (auto simp: s_def gobi_services_def Let_def set_service_def GobiNetGetClientID_def)
  have w: "gb_fd (snd s) (unat QMUX_TYPE_WDS) = -1" "gb_link (snd s) = gb_link g"
    using assms by (simp_all add: s_def gobi_services_def Let_def set_service_def GobiNetGetClientID_def
        QMUX_TYPE_WDS_def QMUX_TYPE_WDS_IPV6_def QMUX_TYPE_DMS_def QMUX_TYPE_NAS_def QMUX_TYPE_UIM_def QMUX_TYPE_WDS_ADMIN_def)
  define g' where "g' = tell_main RIL_INDICATE_DEVICE_CONNECTED
    ((snd s)\<lparr>gb_link := (gb_link (snd s))\<lparr>thread_on := True, wait_for_quit := False\<rparr>\<rparr>)"
  have "gobi_start a p g = (True, fst s, g')"
    using w(1) by (simp add: gobi_start_def s_def [symmetric] case_prod_beta Let_def g'_def)
  moreover have "qmi_to_main (gb_link g') = qmi_to_main (gb_link g) @ [(RIL_INDICATE_DEVICE_CONNECTED, None)]"
    using w(2) by (simp add: g'_def tell_main_def send_to_main_def)
  moreover have "\<exists>req'. GobiNetSendQMI io req g' = Some (- ENODEV, req', None)"
    if "qmi_type req = Some t" "unat t < QMUX_TYPE_ALL" "6 \<le> length req" for io req t
    using that f [of "unat t"] by (simp add: GobiNetSendQMI_def g'_def tell_main_def Let_def)
  ultimately show ?thesis by blast
qed

theorem gobi_unopened_counts_as_connected_witness:
  "\<exists>p' g'. gobi_start \<lparr>ga_wds = Open_Fails, ga_wds6 = Open_Fails, ga_dms = Open_Fails, ga_nas = Open_Fails,
      ga_uim = Open_Fails, ga_wda = Open_Fails\<rparr> profile_zero \<lparr>gb_fd = \<lambda>i. 0, gb_link = qmi_zero\<rparr> = (True, p', g') \<and>
    qmi_to_main (gb_link g') = [(RIL_INDICATE_DEVICE_CONNECTED, None)]"
  using gobi_unopened_counts_as_connected [of "\<lparr>ga_wds = Open_Fails, ga_wds6 = Open_Fails, ga_dms = Open_Fails, ga_nas = Open_Fails,
      ga_uim = Open_Fails, ga_wda = Open_Fails\<rparr>" "\<lparr>gb_fd = \<lambda>i. 0, gb_link = qmi_zero\<rparr>" profile_zero]
  by (auto simp: qmi_zero_def)

end
