(* ===== verification/Spec2Isabelle.thy ===== *)
theory Spec2Isabelle
  imports Ser2mqtt Atc_Ops Cm_Main Qmi_Ops Qrtr_Proxy Mbim_Requests Mbim_Proxy Udhcpc Gobi_Net
begin

text \<open>Verification library; see the component theories.\<close>

end
